theory Spec2Isabelle
  imports Main
begin

section \<open>Text and time\<close>

text \<open>
  The store is SQLite and the application is JavaScript. Instants are integers
  (milliseconds since the epoch, as \<open>Date.now()\<close> returns them). Two textual forms of an
  instant occur in the code and they are kept apart here, because the audit queries compare
  one with the other as text:
  \<^item> \<open>toISOString\<close>: the result of \<open>Date.prototype.toISOString\<close>,
    \<open>YYYY-MM-DDTHH:mm:ss.sssZ\<close> (signed six-digit year outside 0..9999);
  \<^item> \<open>sqlite_datetime\<close>: what \<open>CURRENT_TIMESTAMP\<close> and \<open>datetime('now')\<close> store,
    \<open>YYYY-MM-DD HH:MM:SS\<close> in UTC.
\<close>

definition digit :: "int \<Rightarrow> char" where
  "digit d = ''0123456789'' ! nat d"

definition pad2 :: "int \<Rightarrow> string" where
  "pad2 x = [digit (x div 10 mod 10), digit (x mod 10)]"

definition pad3 :: "int \<Rightarrow> string" where
  "pad3 x = digit (x div 100 mod 10) # pad2 x"

definition pad4 :: "int \<Rightarrow> string" where
  "pad4 x = digit (x div 1000 mod 10) # pad3 x"

definition pad6 :: "int \<Rightarrow> string" where
  "pad6 x = digit (x div 100000 mod 10) # digit (x div 10000 mod 10) # pad4 x"

text \<open>Year, month and day of the proleptic Gregorian calendar from a day number (day 0 is
  1970-01-01); \<open>div\<close> on \<open>int\<close> rounds down, as the calendar arithmetic needs.\<close>

definition civil_from_days :: "int \<Rightarrow> int \<times> int \<times> int" where
  "civil_from_days z0 =
     (let z = z0 + 719468;
          era = z div 146097;
          doe = z - era * 146097;
          yoe = (doe - doe div 1460 + doe div 36524 - doe div 146096) div 365;
          doy = doe - (365 * yoe + yoe div 4 - yoe div 100);
          mp = (5 * doy + 2) div 153;
          d = doy - (153 * mp + 2) div 5 + 1;
          m = (if mp < 10 then mp + 3 else mp - 9);
          y = yoe + era * 400 + (if m \<le> 2 then 1 else 0)
      in (y, m, d))"

definition iso_year :: "int \<Rightarrow> string" where
  "iso_year y = (if 0 \<le> y \<and> y \<le> 9999 then pad4 y
                 else (if y < 0 then CHR ''-'' else CHR ''+'') # pad6 (abs y))"

definition iso_date :: "int \<Rightarrow> string" where
  "iso_date t = (case civil_from_days (t div 86400000) of
       (y, m, d) \<Rightarrow> iso_year y @ ''-'' @ pad2 m @ ''-'' @ pad2 d)"

definition clock_hms :: "int \<Rightarrow> string" where
  "clock_hms t = (let s = (t mod 86400000) div 1000
                  in pad2 (s div 3600) @ '':'' @ pad2 (s div 60 mod 60) @ '':'' @ pad2 (s mod 60))"

definition toISOString :: "int \<Rightarrow> string" where
  "toISOString t = iso_date t @ ''T'' @ clock_hms t @ ''.'' @ pad3 (t mod 1000) @ ''Z''"

definition sqlite_datetime :: "int \<Rightarrow> string" where
  "sqlite_datetime t = iso_date t @ '' '' @ clock_hms t"

text \<open>A \<open>Date\<close> holds at most 8.64e15 milliseconds on either side of the epoch;
  \<open>toISOString\<close> throws a RangeError on an invalid date.\<close>

definition valid_time :: "int \<Rightarrow> bool" where
  "valid_time t = (- 8640000000000000 \<le> t \<and> t \<le> 8640000000000000)"

text \<open>Comparison of two TEXT values under SQLite's default BINARY collation: byte by byte,
  a proper prefix being smaller.\<close>

fun text_less :: "string \<Rightarrow> string \<Rightarrow> bool" where
  "text_less [] [] = False"
| "text_less [] (y # ys) = True"
| "text_less (x # xs) [] = False"
| "text_less (x # xs) (y # ys) =
     ((of_char x :: nat) < of_char y \<or> (x = y \<and> text_less xs ys))"

text \<open>\<open>String.prototype.toUpperCase\<close> and \<open>toLowerCase\<close> on the ASCII letters (the
  voucher types and tier names of the code are ASCII literals).\<close>

definition upper_char :: "char \<Rightarrow> char" where
  "upper_char c =
     (case map_of (zip ''abcdefghijklmnopqrstuvwxyz'' ''ABCDEFGHIJKLMNOPQRSTUVWXYZ'') c of
        Some u \<Rightarrow> u
      | None \<Rightarrow> c)"

definition lower_char :: "char \<Rightarrow> char" where
  "lower_char c =
     (case map_of (zip ''ABCDEFGHIJKLMNOPQRSTUVWXYZ'' ''abcdefghijklmnopqrstuvwxyz'') c of
        Some l \<Rightarrow> l
      | None \<Rightarrow> c)"

definition toUpperCase :: "string \<Rightarrow> string" where
  "toUpperCase s = map upper_char s"

definition toLowerCase :: "string \<Rightarrow> string" where
  "toLowerCase s = map lower_char s"

text \<open>\<open>String.prototype.includes\<close>.\<close>

fun starts_with :: "string \<Rightarrow> string \<Rightarrow> bool" where
  "starts_with s [] = True"
| "starts_with [] (p # ps) = False"
| "starts_with (c # cs) (p # ps) = (c = p \<and> starts_with cs ps)"

fun str_includes :: "string \<Rightarrow> string \<Rightarrow> bool" where
  "str_includes [] p = (p = [])"
| "str_includes (c # cs) p = (starts_with (c # cs) p \<or> str_includes cs p)"


section \<open>The tables of \<open>models/database.js\<close>\<close>

text \<open>
  One record per row. Only the columns that the voucher, loyalty and audit code reads or
  writes are kept. \<open>v_value\<close> is the voucher value in hundredths. \<open>v_expires_at\<close> is the
  instant whose ISO text the column holds (\<open>new Date(text)\<close> reads back what
  \<open>toISOString\<close> wrote). \<open>u_visit_count\<close> is a natural number: the column starts at 0 or 1
  and the code only ever adds 1 to it.
\<close>

record voucher =
  v_id :: nat
  v_user_id :: "nat option"
  v_site_id :: "nat option"
  v_code :: string
  v_type :: string
  v_title :: string
  v_description :: string
  v_value :: int
  v_qr_code :: string
  v_barcode :: string
  v_status :: string
  v_expires_at :: int
  v_redeemed_at :: "string option"
  v_redeemed_by :: "nat option"

record user =
  u_id :: nat
  u_site_id :: "nat option"
  u_email :: string
  u_name :: string
  u_visit_count :: nat
  u_loyalty_tier :: string
  u_updated_at :: string

record staff_member =
  s_id :: nat
  s_site_id :: "nat option"
  s_email :: string
  s_name :: string
  s_daily_voucher_used :: bool
  s_last_voucher_date :: "string option"

datatype jsval = JNull | JNum int | JStr string | JBool bool

record audit_row =
  a_id :: nat
  a_user_type :: string
  a_user_id :: "nat option"
  a_action :: string
  a_resource :: "string option"
  a_details :: "(string \<times> jsval) list option"
  a_ip_address :: "string option"
  a_user_agent :: "string option"
  a_created_at :: string

text \<open>The argument of \<open>auditLog\<close>.\<close>

record audit_event =
  e_user_type :: string
  e_user_id :: "nat option"
  e_action :: string
  e_resource :: "string option"
  e_details :: "(string \<times> jsval) list option"
  e_ip_address :: "string option"
  e_user_agent :: "string option"

text \<open>What \<open>generateQRCode\<close> serialises into the 2-D code: code, type, title, value,
  expires, site. \<open>JSON.stringify\<close> leaves out a title or a value that is \<open>undefined\<close>.\<close>

type_synonym qr_payload =
  "string \<times> string \<times> string option \<times> int option \<times> string \<times> nat option"

text \<open>The argument of \<open>createVoucher\<close>; \<open>created_by\<close> is a type and an optional id.\<close>

record voucher_data =
  d_user_id :: "nat option"
  d_site_id :: "nat option"
  d_type :: string
  d_title :: string
  d_description :: string
  d_value :: int
  d_expires_in_hours :: "int option"
  d_created_by :: "(string \<times> nat option) option"


section \<open>Errors\<close>

text \<open>
  The code throws \<open>Error\<close> objects that differ in their message only; the route handlers
  tell them apart by substring. Each kind of the specification is a constructor here and
  \<open>message\<close> gives the text the code throws.
\<close>

datatype error =
    NotFound
  | AlreadyRedeemed
  | Expired
  | NotActive
  | DailyLimitReached
  | InvalidLoyaltyTier
  | SqliteError string
  | TypeError string
  | RangeError string
  | EncodeError string

fun message :: "error \<Rightarrow> string" where
  "message NotFound = ''Voucher not found''"
| "message AlreadyRedeemed = ''Voucher already redeemed''"
| "message Expired = ''Voucher expired''"
| "message NotActive = ''Voucher not active''"
| "message DailyLimitReached = ''Daily staff voucher already used''"
| "message InvalidLoyaltyTier = ''Invalid loyalty tier''"
| "message (SqliteError m) = m"
| "message (TypeError m) = m"
| "message (RangeError m) = m"
| "message (EncodeError m) = m"


section \<open>The world: store, clock, randomness, collaborators\<close>

text \<open>
  Everything an operation reads or changes:
  \<^item> the four tables with the AUTOINCREMENT counters of the two the code inserts into;
  \<^item> \<open>audit_file\<close>, the winston log file, and \<open>console\<close>, the lines written with
    \<open>console.error\<close> and \<open>console.warn\<close> (the fallback channel);
  \<^item> \<open>clock\<close>, the current instant, and \<open>tz_minutes\<close>, the server's offset from UTC;
  \<^item> \<open>entropy\<close>, the successive results of
    \<open>crypto.randomBytes(6).toString('hex').toUpperCase()\<close>, and \<open>draws\<close>, how many have
    been taken;
  \<^item> \<open>db_fault\<close>: the store rejects its \<open>n\<close>-th call with the given message when
    \<open>db_fault n\<close> is not \<open>None\<close>; \<open>db_calls\<close> counts the calls made;
  \<^item> \<open>qr_render\<close> and \<open>barcode_render\<close>, the two encoder libraries: \<open>Inr\<close> the
    image as a data URL, \<open>Inl\<close> the message of what they throw.
\<close>

record world =
  vouchers :: "voucher list"
  voucher_seq :: nat
  users :: "user list"
  staff :: "staff_member list"
  audit_log :: "audit_row list"
  audit_seq :: nat
  audit_file :: "(string \<times> audit_event) list"
  console :: "(string \<times> string) list"
  clock :: int
  tz_minutes :: int
  entropy :: "nat \<Rightarrow> string"
  draws :: nat
  db_fault :: "nat \<Rightarrow> string option"
  db_calls :: nat
  qr_render :: "qr_payload \<Rightarrow> string + string"
  barcode_render :: "string \<Rightarrow> string + string"

text \<open>An operation either throws or returns, and leaves a world behind in both cases:
  what was written before a throw stays written.\<close>

type_synonym 'a io = "world \<Rightarrow> (error + 'a) \<times> world"

definition return_io :: "'a \<Rightarrow> 'a io" where
  "return_io x w = (Inr x, w)"

definition throw_io :: "error \<Rightarrow> 'a io" where
  "throw_io e w = (Inl e, w)"

definition bind_io :: "'a io \<Rightarrow> ('a \<Rightarrow> 'b io) \<Rightarrow> 'b io" where
  "bind_io m f w = (case m w of (Inl e, w') \<Rightarrow> (Inl e, w') | (Inr x, w') \<Rightarrow> f x w')"

definition console_error :: "string \<Rightarrow> error \<Rightarrow> world \<Rightarrow> world" where
  "console_error label e w = w\<lparr>console := console w @ [(label, message e)]\<rparr>"

text \<open>\<open>try { m } catch (error) { console.error(label, error); throw error; }\<close>\<close>

definition rethrow_logged :: "string \<Rightarrow> 'a io \<Rightarrow> 'a io" where
  "rethrow_logged label m w =
     (case m w of (Inl e, w') \<Rightarrow> (Inl e, console_error label e w')
                | (Inr x, w') \<Rightarrow> (Inr x, w'))"

text \<open>\<open>try { m } catch (error) { console.error(label, error); }\<close>\<close>

definition swallow_logged :: "string \<Rightarrow> unit io \<Rightarrow> unit io" where
  "swallow_logged label m w =
     (case m w of (Inl e, w') \<Rightarrow> (Inr (), console_error label e w')
                | (Inr x, w') \<Rightarrow> (Inr x, w'))"

text \<open>One call of \<open>database.run\<close>, \<open>get\<close> or \<open>all\<close>: the promise rejects when the store
  fails, otherwise the statement runs.\<close>

definition db_call :: "'a io \<Rightarrow> 'a io" where
  "db_call stmt w =
     (let w1 = w\<lparr>db_calls := Suc (db_calls w)\<rparr>
      in case db_fault w (db_calls w) of
           Some m \<Rightarrow> (Inl (SqliteError m), w1)
         | None \<Rightarrow> stmt w1)"

text \<open>\<open>Date.now()\<close> and \<open>new Date()\<close>.\<close>

definition date_now :: "int io" where
  "date_now w = (Inr (clock w), w)"

text \<open>AUTOINCREMENT: one more than the largest rowid the table has ever held.\<close>

definition next_id :: "nat \<Rightarrow> nat list \<Rightarrow> nat" where
  "next_id seq ids = Suc (fold max ids seq)"


section \<open>The SQL statements\<close>

text \<open>JavaScript's \<open>x || null\<close> and the truth value of an id or a string: 0 and the empty
  string count as absent.\<close>

definition id_or_null :: "nat option \<Rightarrow> nat option" where
  "id_or_null x = (case x of Some n \<Rightarrow> (if n = 0 then None else Some n) | None \<Rightarrow> None)"

definition str_or_null :: "string option \<Rightarrow> string option" where
  "str_or_null x = (case x of Some s \<Rightarrow> (if s = [] then None else Some s) | None \<Rightarrow> None)"

text \<open>\<open>INSERT INTO audit_log (user_type, user_id, action, resource, details, ip_address,
  user_agent)\<close>; \<open>created_at\<close> takes its default, \<open>CURRENT_TIMESTAMP\<close>.\<close>

definition audit_row_of :: "audit_event \<Rightarrow> nat \<Rightarrow> string \<Rightarrow> audit_row" where
  "audit_row_of ev i created =
     \<lparr>a_id = i,
      a_user_type = e_user_type ev,
      a_user_id = id_or_null (e_user_id ev),
      a_action = e_action ev,
      a_resource = str_or_null (e_resource ev),
      a_details = e_details ev,
      a_ip_address = str_or_null (e_ip_address ev),
      a_user_agent = str_or_null (e_user_agent ev),
      a_created_at = created\<rparr>"

definition insert_audit :: "audit_event \<Rightarrow> unit io" where
  "insert_audit ev = db_call (\<lambda>w.
     let i = next_id (audit_seq w) (map a_id (audit_log w))
     in (Inr (), w\<lparr>audit_log := audit_log w @ [audit_row_of ev i (sqlite_datetime (clock w))],
                    audit_seq := i\<rparr>))"

text \<open>\<open>SELECT COUNT(*) FROM audit_log WHERE action = 'login_failed' AND ip_address = ? AND
  created_at > ?\<close>. The column holds text and so does the parameter: the comparison is
  the one of TEXT values.\<close>

definition login_failed_since :: "string \<Rightarrow> string \<Rightarrow> audit_row list \<Rightarrow> nat" where
  "login_failed_since ip since rows =
     length (filter (\<lambda>r. a_action r = ''login_failed'' \<and> a_ip_address r = Some ip
                         \<and> text_less since (a_created_at r)) rows)"

definition count_login_failed :: "string \<Rightarrow> string \<Rightarrow> nat io" where
  "count_login_failed ip since =
     db_call (\<lambda>w. (Inr (login_failed_since ip since (audit_log w)), w))"

text \<open>\<open>SELECT COUNT(*) FROM audit_log WHERE action = 'voucher_redeemed' AND user_id = ? AND
  created_at > ?\<close>\<close>

definition voucher_redeemed_since :: "nat \<Rightarrow> string \<Rightarrow> audit_row list \<Rightarrow> nat" where
  "voucher_redeemed_since uid since rows =
     length (filter (\<lambda>r. a_action r = ''voucher_redeemed'' \<and> a_user_id r = Some uid
                         \<and> text_less since (a_created_at r)) rows)"

definition count_voucher_redeemed :: "nat \<Rightarrow> string \<Rightarrow> nat io" where
  "count_voucher_redeemed uid since =
     db_call (\<lambda>w. (Inr (voucher_redeemed_since uid since (audit_log w)), w))"

text \<open>\<open>INSERT INTO vouchers (...)\<close>. The column \<open>code\<close> is declared \<open>UNIQUE NOT NULL\<close>:
  the statement fails when a row with this code exists, and the table is left as it was.\<close>

definition insert_voucher :: "voucher \<Rightarrow> nat io" where
  "insert_voucher v = db_call (\<lambda>w.
     if v_code v \<in> set (map v_code (vouchers w))
     then (Inl (SqliteError ''SQLITE_CONSTRAINT: UNIQUE constraint failed: vouchers.code''), w)
     else (let i = next_id (voucher_seq w) (map v_id (vouchers w))
           in (Inr i, w\<lparr>vouchers := vouchers w @ [v\<lparr>v_id := i\<rparr>], voucher_seq := i\<rparr>)))"

text \<open>\<open>SELECT v.*, u.name as user_name, u.email as user_email FROM vouchers v LEFT JOIN
  users u ON v.user_id = u.id WHERE v.code = ?\<close>, first row.\<close>

definition select_voucher_by_code :: "string \<Rightarrow> (voucher \<times> (string \<times> string) option) option io" where
  "select_voucher_by_code c = db_call (\<lambda>w.
     (Inr (case find (\<lambda>v. v_code v = c) (vouchers w) of
             None \<Rightarrow> None
           | Some v \<Rightarrow> Some (v, case v_user_id v of
                                   None \<Rightarrow> None
                                 | Some uid \<Rightarrow> map_option (\<lambda>u. (u_name u, u_email u))
                                                 (find (\<lambda>u. u_id u = uid) (users w)))), w))"

text \<open>\<open>UPDATE vouchers SET status = 'redeemed', redeemed_at = datetime('now'),
  redeemed_by = ? WHERE id = ?\<close>\<close>

definition set_redeemed :: "nat \<Rightarrow> string \<Rightarrow> nat \<Rightarrow> voucher \<Rightarrow> voucher" where
  "set_redeemed staff_id at vid v =
     (if v_id v = vid
      then v\<lparr>v_status := ''redeemed'', v_redeemed_at := Some at, v_redeemed_by := Some staff_id\<rparr>
      else v)"

definition update_voucher_redeemed :: "nat \<Rightarrow> nat \<Rightarrow> unit io" where
  "update_voucher_redeemed staff_id vid = db_call (\<lambda>w.
     (Inr (), w\<lparr>vouchers := map (set_redeemed staff_id (sqlite_datetime (clock w)) vid)
                                (vouchers w)\<rparr>))"

text \<open>\<open>SELECT * FROM users WHERE id = ?\<close>\<close>

definition select_user :: "nat \<Rightarrow> user option io" where
  "select_user uid = db_call (\<lambda>w. (Inr (find (\<lambda>u. u_id u = uid) (users w)), w))"

text \<open>\<open>UPDATE users SET visit_count = ?, loyalty_tier = ?, updated_at = datetime('now')
  WHERE id = ?\<close>\<close>

definition set_loyalty :: "nat \<Rightarrow> string \<Rightarrow> string \<Rightarrow> nat \<Rightarrow> user \<Rightarrow> user" where
  "set_loyalty cnt tier at uid u =
     (if u_id u = uid
      then u\<lparr>u_visit_count := cnt, u_loyalty_tier := tier, u_updated_at := at\<rparr>
      else u)"

definition update_user_loyalty :: "nat \<Rightarrow> string \<Rightarrow> nat \<Rightarrow> unit io" where
  "update_user_loyalty cnt tier uid = db_call (\<lambda>w.
     (Inr (), w\<lparr>users := map (set_loyalty cnt tier (sqlite_datetime (clock w)) uid) (users w)\<rparr>))"

text \<open>\<open>SELECT * FROM staff WHERE id = ?\<close> and \<open>WHERE email = ?\<close>\<close>

definition select_staff :: "nat \<Rightarrow> staff_member option io" where
  "select_staff sid = db_call (\<lambda>w. (Inr (find (\<lambda>s. s_id s = sid) (staff w)), w))"

definition select_staff_by_email :: "string \<Rightarrow> staff_member option io" where
  "select_staff_by_email email = db_call (\<lambda>w. (Inr (find (\<lambda>s. s_email s = email) (staff w)), w))"

text \<open>\<open>UPDATE staff SET daily_voucher_used = 1, last_voucher_date = ? WHERE id = ?\<close>\<close>

definition set_voucher_used :: "string \<Rightarrow> nat \<Rightarrow> staff_member \<Rightarrow> staff_member" where
  "set_voucher_used today sid s =
     (if s_id s = sid
      then s\<lparr>s_daily_voucher_used := True, s_last_voucher_date := Some today\<rparr>
      else s)"

definition update_staff_voucher_used :: "string \<Rightarrow> nat \<Rightarrow> unit io" where
  "update_staff_voucher_used today sid = db_call (\<lambda>w.
     (Inr (), w\<lparr>staff := map (set_voucher_used today sid) (staff w)\<rparr>))"

text \<open>\<open>UPDATE staff SET daily_voucher_used = 0 WHERE id = ?\<close>\<close>

definition reset_flag :: "nat \<Rightarrow> staff_member \<Rightarrow> staff_member" where
  "reset_flag sid s = (if s_id s = sid then s\<lparr>s_daily_voucher_used := False\<rparr> else s)"

definition update_staff_reset_flag :: "nat \<Rightarrow> unit io" where
  "update_staff_reset_flag sid = db_call (\<lambda>w.
     (Inr (), w\<lparr>staff := map (reset_flag sid) (staff w)\<rparr>))"

section \<open>The audit trail (\<open>utils/audit.js\<close>)\<close>

text \<open>\<open>auditLogger.info('AUDIT', auditEntry)\<close>: the entry goes to the log file with its
  ISO timestamp.\<close>

definition logger_info :: "audit_event \<Rightarrow> unit io" where
  "logger_info ev w = (Inr (), w\<lparr>audit_file := audit_file w @ [(toISOString (clock w), ev)]\<rparr>)"

definition console_warn :: "string \<Rightarrow> string \<Rightarrow> unit io" where
  "console_warn label txt w = (Inr (), w\<lparr>console := console w @ [(label, txt)]\<rparr>)"

text \<open>\<open>new Date(now.getFullYear(), now.getMonth(), now.getDate())\<close>: midnight of the
  server's local day, for a server \<open>tz\<close> minutes east of UTC.\<close>

definition local_midnight :: "int \<Rightarrow> int \<Rightarrow> int" where
  "local_midnight tz t = (t + tz * 60000) div 86400000 * 86400000 - tz * 60000"

definition today_start :: "int \<Rightarrow> int io" where
  "today_start now w = (Inr (local_midnight (tz_minutes w) now), w)"

definition brute_force_alert :: "string \<Rightarrow> nat \<Rightarrow> audit_event" where
  "brute_force_alert ip n =
     \<lparr>e_user_type = ''system'', e_user_id = None, e_action = ''security_alert'',
      e_resource = Some ''authentication'',
      e_details = Some [(''alert_type'', JStr ''brute_force_attempt''),
                        (''ip_address'', JStr ip),
                        (''failed_attempts'', JNum (int n))],
      e_ip_address = None, e_user_agent = None\<rparr>"

definition voucher_abuse_alert :: "nat \<Rightarrow> nat \<Rightarrow> audit_event" where
  "voucher_abuse_alert uid n =
     \<lparr>e_user_type = ''system'', e_user_id = None, e_action = ''security_alert'',
      e_resource = Some ''vouchers'',
      e_details = Some [(''alert_type'', JStr ''voucher_abuse''),
                        (''user_id'', JNum (int uid)),
                        (''redemptions_today'', JNum (int n))],
      e_ip_address = None, e_user_agent = None\<rparr>"

text \<open>
  \<open>auditLog\<close> inserts the row, writes the file entry and calls \<open>checkSecurityAlerts\<close>,
  which calls \<open>auditLog\<close> again for an alert. Both bodies sit in a \<open>try\<close> whose
  \<open>catch\<close> writes to the console and does not rethrow. The recursion ends because an
  alert has the action \<open>security_alert\<close>, which neither rule looks at.
\<close>

function auditLog :: "audit_event \<Rightarrow> unit io"
  and checkSecurityAlerts :: "audit_event \<Rightarrow> unit io" where
  "auditLog ev w =
     swallow_logged ''Audit logging failed:''
       (bind_io (insert_audit ev) (\<lambda>_.
        bind_io (logger_info ev) (\<lambda>_ w'.
        checkSecurityAlerts ev w'))) w"
| "checkSecurityAlerts ev w =
     swallow_logged ''Security alert check failed:''
       (bind_io date_now (\<lambda>now.
        bind_io
         (case (if e_action ev = ''login_failed'' then str_or_null (e_ip_address ev) else None) of
            Some ip \<Rightarrow>
              bind_io (count_login_failed ip (toISOString (now - 60 * 60 * 1000))) (\<lambda>n.
              if 10 \<le> n
              then bind_io (\<lambda>w'. auditLog (brute_force_alert ip n) w') (\<lambda>_.
                   console_warn ''SECURITY ALERT: Multiple failed login attempts from'' ip)
              else return_io ())
          | None \<Rightarrow> return_io ()) (\<lambda>_.
         case (if e_action ev = ''voucher_redeemed'' then id_or_null (e_user_id ev) else None) of
           Some uid \<Rightarrow>
             bind_io (today_start now) (\<lambda>todayStart.
             bind_io (count_voucher_redeemed uid (toISOString todayStart)) (\<lambda>n.
             if 5 \<le> n
             then (\<lambda>w'. auditLog (voucher_abuse_alert uid n) w')
             else return_io ()))
         | None \<Rightarrow> return_io ()))) w"
  by pat_completeness auto
termination
  by (relation "measure (\<lambda>x. case x of
            Inl (ev, w) \<Rightarrow> (if e_action ev = ''security_alert'' then 1 else 3)
          | Inr (ev, w) \<Rightarrow> (if e_action ev = ''security_alert'' then 0 else 2))")
     (auto simp: brute_force_alert_def voucher_abuse_alert_def split: if_splits)

declare auditLog.simps [simp del] checkSecurityAlerts.simps [simp del]


section \<open>Vouchers and loyalty (\<open>utils/voucher.js\<close>)\<close>

text \<open>\<open>generateVoucherCode(type)\<close>: the first two characters of the type in upper case,
  then six random bytes in upper-case hexadecimal. One draw is taken from the random
  source.\<close>

definition generateVoucherCode :: "string \<Rightarrow> string io" where
  "generateVoucherCode ty w =
     (Inr (toUpperCase (take 2 ty) @ entropy w (draws w)), w\<lparr>draws := Suc (draws w)\<rparr>)"

text \<open>\<open>QRCode.toDataURL\<close> and \<open>JsBarcode\<close> followed by \<open>canvas.toDataURL\<close>.\<close>

definition toDataURL :: "qr_payload \<Rightarrow> string io" where
  "toDataURL payload w =
     (case qr_render w payload of Inl m \<Rightarrow> (Inl (EncodeError m), w) | Inr img \<Rightarrow> (Inr img, w))"

definition JsBarcode :: "string \<Rightarrow> string io" where
  "JsBarcode c w =
     (case barcode_render w c of Inl m \<Rightarrow> (Inl (EncodeError m), w) | Inr img \<Rightarrow> (Inr img, w))"

definition generateQRCode :: "voucher \<Rightarrow> string io" where
  "generateQRCode v =
     rethrow_logged ''QR code generation failed:''
       (bind_io (toDataURL (v_code v, v_type v, Some (v_title v), Some (v_value v),
                            toISOString (v_expires_at v), v_site_id v)) return_io)"

definition generateBarcode :: "string \<Rightarrow> string io" where
  "generateBarcode c =
     rethrow_logged ''Barcode generation failed:'' (bind_io (JsBarcode c) return_io)"

text \<open>\<open>new Date(Date.now() + expires_in_hours * 60 * 60 * 1000)\<close>, with the default of 72
  hours; \<open>toISOString\<close> throws on an invalid date.\<close>

definition expires_at_of :: "int option \<Rightarrow> int io" where
  "expires_at_of hours =
     bind_io date_now (\<lambda>now.
     let t = now + (case hours of None \<Rightarrow> 72 | Some h \<Rightarrow> h) * 60 * 60 * 1000
     in if valid_time t then return_io t else throw_io (RangeError ''Invalid time value''))"

definition voucher_created_event :: "voucher_data \<Rightarrow> voucher \<Rightarrow> audit_event" where
  "voucher_created_event d v =
     \<lparr>e_user_type = (case d_created_by d of
                        Some (t, i) \<Rightarrow> (if t = [] then ''system'' else t)
                      | None \<Rightarrow> ''system''),
      e_user_id = (case d_created_by d of Some (t, i) \<Rightarrow> id_or_null i | None \<Rightarrow> None),
      e_action = ''voucher_created'',
      e_resource = Some ''vouchers'',
      e_details = Some [(''voucher_id'', JNum (int (v_id v))),
                        (''voucher_code'', JStr (v_code v)),
                        (''type'', JStr (v_type v)),
                        (''value'', JNum (v_value v)),
                        (''recipient_user_id'',
                           case d_user_id d of None \<Rightarrow> JNull | Some u \<Rightarrow> JNum (int u))],
      e_ip_address = None, e_user_agent = None\<rparr>"

definition createVoucher :: "voucher_data \<Rightarrow> voucher io" where
  "createVoucher d =
     rethrow_logged ''Create voucher failed:''
       (bind_io (generateVoucherCode (d_type d)) (\<lambda>c.
        bind_io (expires_at_of (d_expires_in_hours d)) (\<lambda>expires_at.
        let voucher = \<lparr>v_id = 0, v_user_id = d_user_id d, v_site_id = d_site_id d,
                       v_code = c, v_type = d_type d, v_title = d_title d,
                       v_description = d_description d, v_value = d_value d,
                       v_qr_code = [], v_barcode = [], v_status = ''active'',
                       v_expires_at = expires_at, v_redeemed_at = None,
                       v_redeemed_by = None\<rparr>
        in
        bind_io (generateQRCode voucher) (\<lambda>qr.
        bind_io (generateBarcode c) (\<lambda>bar.
        bind_io (insert_voucher (voucher\<lparr>v_qr_code := qr, v_barcode := bar\<rparr>)) (\<lambda>i.
        bind_io (auditLog (voucher_created_event d
                             (voucher\<lparr>v_qr_code := qr, v_barcode := bar, v_id := i\<rparr>))) (\<lambda>_.
        return_io (voucher\<lparr>v_qr_code := qr, v_barcode := bar, v_id := i\<rparr>))))))))"

text \<open>
  \<open>createVoucher\<close> when the \<open>title\<close>, \<open>description\<close> and \<open>value\<close> of its argument are
  \<open>undefined\<close>. It runs the same steps: it draws the code, computes the expiry, encodes
  the QR code (of a payload without title and value) and the barcode, and sends the
  \<open>INSERT\<close>. The parameter of \<open>title\<close> is unbound, the column is \<open>NOT NULL\<close>, and the
  store rejects the statement: nothing after the \<open>INSERT\<close> runs, and the \<open>catch\<close> logs and
  rethrows.
\<close>

definition insert_untitled_voucher :: "voucher io" where
  "insert_untitled_voucher =
     db_call (throw_io (SqliteError ''SQLITE_CONSTRAINT: NOT NULL constraint failed: vouchers.title''))"

definition createVoucher_untitled :: "nat option \<Rightarrow> string \<Rightarrow> int option \<Rightarrow> voucher io" where
  "createVoucher_untitled site_id ty hours =
     rethrow_logged ''Create voucher failed:''
       (bind_io (generateVoucherCode ty) (\<lambda>c.
        bind_io (expires_at_of hours) (\<lambda>expires_at.
        bind_io (rethrow_logged ''QR code generation failed:''
                   (bind_io (toDataURL (c, ty, None, None, toISOString expires_at, site_id))
                      return_io)) (\<lambda>qr.
        bind_io (generateBarcode c) (\<lambda>bar.
        insert_untitled_voucher)))))"

text \<open>The reward table of \<open>createLoyaltyReward\<close>: title, description, value.\<close>

definition rewards :: "(string \<times> string \<times> string \<times> int) list" where
  "rewards =
     [(''bronze'', ''Welcome Reward'', ''Free drink'', 500),
      (''silver'', ''Silver Member Reward'', ''Free appetizer'', 800),
      (''gold'', ''Gold Member Reward'', ''Free meal'', 1500),
      (''platinum'', ''Platinum Patron'', ''Free dinner for two'', 3000)]"

text \<open>
  The table is an object literal, and \<open>rewards[key]\<close> also finds what the object inherits
  from \<open>Object.prototype\<close>. Of the inherited names only \<open>constructor\<close> and \<open>__proto__\<close>
  have no capital letter, so only they can be the result of \<open>tier.toLowerCase()\<close>. What
  the lookup finds there is an object, which passes \<open>if (!reward)\<close> and has no \<open>title\<close>,
  \<open>description\<close> or \<open>value\<close>.
\<close>

definition inherited_keys :: "string list" where
  "inherited_keys = [''constructor'', ''__proto__'']"

text \<open>\<open>SELECT site_id FROM users WHERE id = ?\<close> and then \<open>user.site_id\<close>, a TypeError
  when there is no such user.\<close>

definition createLoyaltyReward :: "nat \<Rightarrow> string \<Rightarrow> nat \<Rightarrow> voucher io" where
  "createLoyaltyReward uid tier visits =
     rethrow_logged ''Create loyalty reward failed:''
       (case map_of rewards (toLowerCase tier) of
          None \<Rightarrow>
            if toLowerCase tier \<in> set inherited_keys
            then bind_io (select_user uid) (\<lambda>u.
                 case u of
                   None \<Rightarrow> throw_io (TypeError
                     ''Cannot read properties of undefined (reading 'site_id')'')
                 | Some usr \<Rightarrow>
                     createVoucher_untitled (u_site_id usr) ''loyalty_reward'' (Some 168))
            else throw_io InvalidLoyaltyTier
        | Some (title, description, val) \<Rightarrow>
            bind_io (select_user uid) (\<lambda>u.
            case u of
              None \<Rightarrow> throw_io (TypeError
                ''Cannot read properties of undefined (reading 'site_id')'')
            | Some usr \<Rightarrow>
                createVoucher \<lparr>d_user_id = Some uid, d_site_id = u_site_id usr,
                               d_type = ''loyalty_reward'', d_title = title,
                               d_description = description, d_value = val,
                               d_expires_in_hours = Some 168,
                               d_created_by = Some (''system'', None)\<rparr>))"

text \<open>The tier of a visit count, as the \<open>if\<close> chain of \<open>updateUserLoyalty\<close> computes
  it.\<close>

definition newTier :: "nat \<Rightarrow> string" where
  "newTier newVisitCount =
     (if 30 \<le> newVisitCount then ''Platinum''
      else if 15 \<le> newVisitCount then ''Gold''
      else if 5 \<le> newVisitCount then ''Silver''
      else ''Bronze'')"

text \<open>\<open>updateUserLoyalty(user_id, action)\<close> returns nothing when the user does not exist,
  and otherwise the new count, the new tier and whether the tier changed.\<close>

definition updateUserLoyalty :: "nat \<Rightarrow> string \<Rightarrow> (nat \<times> string \<times> bool) option io" where
  "updateUserLoyalty uid action =
     rethrow_logged ''Update user loyalty failed:''
       (bind_io (select_user uid) (\<lambda>u.
        case u of
          None \<Rightarrow> return_io None
        | Some usr \<Rightarrow>
            (let newVisitCount = (if action = ''visit'' then u_visit_count usr + 1
                                  else u_visit_count usr);
                 tier = newTier newVisitCount;
                 tierChanged = (tier \<noteq> u_loyalty_tier usr)
             in
             bind_io (update_user_loyalty newVisitCount tier uid) (\<lambda>_.
             bind_io (if tierChanged \<and> action = ''visit''
                      then bind_io (createLoyaltyReward uid tier newVisitCount) (\<lambda>_. return_io ())
                      else return_io ()) (\<lambda>_.
             return_io (Some (newVisitCount, tier, tierChanged)))))))"

text \<open>
  \<open>redeemVoucher(code, redeemed_by)\<close>, cut at its \<open>await\<close>s: the lookup, the checks on
  the row that the lookup returned, the update, and what follows the update.
\<close>

definition redeem_checks ::
  "(voucher \<times> (string \<times> string) option) option \<Rightarrow> (voucher \<times> (string \<times> string) option) io" where
  "redeem_checks row =
     (case row of
        None \<Rightarrow> throw_io NotFound
      | Some (v, joined) \<Rightarrow>
          if v_status v = ''redeemed'' then throw_io AlreadyRedeemed
          else bind_io date_now (\<lambda>now.
               if v_expires_at v < now then throw_io Expired
               else if v_status v \<noteq> ''active'' then throw_io NotActive
               else return_io (v, joined)))"

definition voucher_redeemed_event :: "voucher \<Rightarrow> nat \<Rightarrow> audit_event" where
  "voucher_redeemed_event v staff_id =
     \<lparr>e_user_type = ''staff'', e_user_id = Some staff_id, e_action = ''voucher_redeemed'',
      e_resource = Some ''vouchers'',
      e_details = Some [(''voucher_id'', JNum (int (v_id v))),
                        (''voucher_code'', JStr (v_code v)),
                        (''type'', JStr (v_type v)),
                        (''value'', JNum (v_value v)),
                        (''customer_user_id'',
                           case v_user_id v of None \<Rightarrow> JNull | Some u \<Rightarrow> JNum (int u))],
      e_ip_address = None, e_user_agent = None\<rparr>"

definition redeem_after_update ::
  "voucher \<times> (string \<times> string) option \<Rightarrow> nat \<Rightarrow> (voucher \<times> (string \<times> string) option) io" where
  "redeem_after_update row staff_id =
     (case row of (v, joined) \<Rightarrow>
        bind_io (case (if v_type v = ''loyalty_reward'' then id_or_null (v_user_id v) else None) of
                   Some uid \<Rightarrow> bind_io (updateUserLoyalty uid ''redemption'') (\<lambda>_. return_io ())
                 | None \<Rightarrow> return_io ()) (\<lambda>_.
        bind_io (auditLog (voucher_redeemed_event v staff_id)) (\<lambda>_.
        bind_io date_now (\<lambda>now.
        return_io (v\<lparr>v_status := ''redeemed'',
                      v_redeemed_at := Some (toISOString now),
                      v_redeemed_by := Some staff_id\<rparr>, joined)))))"

definition redeemVoucher :: "string \<Rightarrow> nat \<Rightarrow> (voucher \<times> (string \<times> string) option) io" where
  "redeemVoucher c staff_id =
     rethrow_logged ''Redeem voucher failed:''
       (bind_io (select_voucher_by_code c) (\<lambda>row.
        bind_io (redeem_checks row) (\<lambda>found.
        bind_io (update_voucher_redeemed staff_id (v_id (fst found))) (\<lambda>_.
        redeem_after_update found staff_id))))"

text \<open>\<open>createStaffWiFiVoucher(staff_id)\<close>; \<open>today\<close> is the date part of the ISO text of
  the current instant. Reading \<open>staff.last_voucher_date\<close> of a missing row is a
  TypeError.\<close>

definition staff_wifi_data :: "staff_member \<Rightarrow> nat \<Rightarrow> voucher_data" where
  "staff_wifi_data member sid =
     \<lparr>d_user_id = None, d_site_id = s_site_id member,
      d_type = ''staff_wifi'', d_title = ''Staff WiFi Access'',
      d_description = ''Staff internet access for work device'',
      d_value = 0, d_expires_in_hours = Some 24,
      d_created_by = Some (''staff'', Some sid)\<rparr>"

definition createStaffWiFiVoucher :: "nat \<Rightarrow> voucher io" where
  "createStaffWiFiVoucher sid =
     rethrow_logged ''Create staff WiFi voucher failed:''
       (bind_io (select_staff sid) (\<lambda>st.
        bind_io date_now (\<lambda>now.
        let today = iso_date now in
        case st of
          None \<Rightarrow> throw_io (TypeError
            ''Cannot read properties of undefined (reading 'last_voucher_date')'')
        | Some member \<Rightarrow>
            if s_last_voucher_date member = Some today \<and> s_daily_voucher_used member
            then throw_io DailyLimitReached
            else bind_io (createVoucher (staff_wifi_data member sid)) (\<lambda>voucher.
                 bind_io (update_staff_voucher_used today sid) (\<lambda>_.
                 return_io voucher)))))"


section \<open>The route handlers (\<open>routes/vouchers.js\<close>)\<close>

text \<open>
  The handlers for a request whose token has been verified and whose body has passed the
  validators of the route: a request that fails them is answered 400 (403 without a staff
  token) before anything else runs, and leaves the store as it was. A response is its
  status code, its \<open>error\<close> or \<open>message\<close> text and the voucher it carries, if any.
\<close>

record response =
  r_status :: nat
  r_text :: string
  r_voucher :: "voucher option"

text \<open>The \<open>catch\<close> of \<open>POST /redeem\<close>: the error kinds are told apart by their
  message.\<close>

definition redeem_error_response :: "string \<Rightarrow> response" where
  "redeem_error_response msg =
     (if str_includes msg ''not found''
      then \<lparr>r_status = 404, r_text = ''Voucher not found'', r_voucher = None\<rparr>
      else if str_includes msg ''already redeemed''
      then \<lparr>r_status = 409, r_text = ''Voucher already redeemed'', r_voucher = None\<rparr>
      else if str_includes msg ''expired''
      then \<lparr>r_status = 410, r_text = ''Voucher has expired'', r_voucher = None\<rparr>
      else if str_includes msg ''not active''
      then \<lparr>r_status = 400, r_text = ''Voucher is not active'', r_voucher = None\<rparr>
      else \<lparr>r_status = 500, r_text = ''Failed to redeem voucher'', r_voucher = None\<rparr>)"

definition post_redeem :: "string \<Rightarrow> nat \<Rightarrow> world \<Rightarrow> response \<times> world" where
  "post_redeem voucherCode staff_id w =
     (case redeemVoucher voucherCode staff_id w of
        (Inr (v, joined), w') \<Rightarrow>
          (\<lparr>r_status = 200, r_text = ''Voucher redeemed successfully'', r_voucher = Some v\<rparr>, w')
      | (Inl e, w') \<Rightarrow>
          (redeem_error_response (message e), console_error ''Voucher redemption error:'' e w'))"

definition post_staff_wifi :: "nat \<Rightarrow> world \<Rightarrow> response \<times> world" where
  "post_staff_wifi staff_id w =
     (case createStaffWiFiVoucher staff_id w of
        (Inr v, w') \<Rightarrow>
          (\<lparr>r_status = 201, r_text = ''Staff WiFi voucher created successfully'',
            r_voucher = Some v\<rparr>, w')
      | (Inl e, w') \<Rightarrow>
          ((if str_includes (message e) ''already used''
            then \<lparr>r_status = 409,
                  r_text = ''Daily staff voucher already used. Manager override required.'',
                  r_voucher = None\<rparr>
            else \<lparr>r_status = 500, r_text = ''Failed to create staff WiFi voucher'',
                  r_voucher = None\<rparr>),
           console_error ''Staff WiFi voucher creation error:'' e w'))"

definition staff_wifi_override_event ::
  "nat \<Rightarrow> staff_member \<Rightarrow> string \<Rightarrow> voucher \<Rightarrow> string \<Rightarrow> audit_event" where
  "staff_wifi_override_event manager_id target staffEmail v reason =
     \<lparr>e_user_type = ''staff'', e_user_id = Some manager_id, e_action = ''staff_wifi_override'',
      e_resource = Some ''vouchers'',
      e_details = Some [(''target_staff_id'', JNum (int (s_id target))),
                        (''target_staff_email'', JStr staffEmail),
                        (''voucher_id'', JNum (int (v_id v))),
                        (''reason'', JStr reason)],
      e_ip_address = None, e_user_agent = None\<rparr>"

text \<open>\<open>POST /staff-wifi/override\<close>: the manager's override resets the flag of the staff
  member with the given email and issues the voucher in the same request.\<close>

definition staff_wifi_override_handler :: "string \<Rightarrow> string \<Rightarrow> nat \<Rightarrow> response io" where
  "staff_wifi_override_handler staffEmail reason manager_id =
     bind_io (select_staff_by_email staffEmail) (\<lambda>targetStaff.
     case targetStaff of
       None \<Rightarrow> return_io \<lparr>r_status = 404, r_text = ''Staff member not found'',
                           r_voucher = None\<rparr>
     | Some target \<Rightarrow>
         bind_io (update_staff_reset_flag (s_id target)) (\<lambda>_.
         bind_io (createStaffWiFiVoucher (s_id target)) (\<lambda>v.
         bind_io (auditLog (staff_wifi_override_event manager_id target staffEmail v reason))
           (\<lambda>_.
         return_io \<lparr>r_status = 201, r_text = ''Staff WiFi voucher override successful'',
                    r_voucher = Some v\<rparr>))))"

definition post_staff_wifi_override :: "string \<Rightarrow> string \<Rightarrow> nat \<Rightarrow> world \<Rightarrow> response \<times> world" where
  "post_staff_wifi_override staffEmail reason manager_id w =
     (case staff_wifi_override_handler staffEmail reason manager_id w of
        (Inr resp, w') \<Rightarrow> (resp, w')
      | (Inl e, w') \<Rightarrow>
          (\<lparr>r_status = 500, r_text = ''Failed to override staff WiFi voucher'',
            r_voucher = None\<rparr>,
           console_error ''Staff WiFi override error:'' e w'))"

text \<open>
  \<open>PATCH /:id/status\<close>, the administrative change of a voucher's status. It refuses a
  redeemed voucher. Its statement is \<open>UPDATE vouchers SET status = ?, updated_at =
  datetime('now') WHERE id = ?\<close>, and the \<open>vouchers\<close> table of \<open>models/database.js\<close> has
  no column \<open>updated_at\<close>: the store rejects the statement whatever its parameters are.
\<close>

definition select_voucher_by_id :: "nat \<Rightarrow> voucher option io" where
  "select_voucher_by_id vid = db_call (\<lambda>w. (Inr (find (\<lambda>v. v_id v = vid) (vouchers w)), w))"

definition update_voucher_status :: "string \<Rightarrow> nat \<Rightarrow> unit io" where
  "update_voucher_status new_status vid =
     db_call (throw_io (SqliteError ''SQLITE_ERROR: no such column: updated_at''))"

definition voucher_status_changed_event ::
  "nat \<Rightarrow> nat \<Rightarrow> string \<Rightarrow> string \<Rightarrow> string option \<Rightarrow> audit_event" where
  "voucher_status_changed_event manager_id vid old_status new_status reason =
     \<lparr>e_user_type = ''staff'', e_user_id = Some manager_id,
      e_action = ''voucher_status_changed'', e_resource = Some ''vouchers'',
      e_details = Some [(''voucher_id'', JNum (int vid)),
                        (''old_status'', JStr old_status),
                        (''new_status'', JStr new_status),
                        (''reason'', case reason of None \<Rightarrow> JNull | Some r \<Rightarrow> JStr r)],
      e_ip_address = None, e_user_agent = None\<rparr>"

definition voucher_status_handler :: "nat \<Rightarrow> string \<Rightarrow> string option \<Rightarrow> nat \<Rightarrow> response io" where
  "voucher_status_handler vid new_status reason manager_id =
     bind_io (select_voucher_by_id vid) (\<lambda>found.
     case found of
       None \<Rightarrow> return_io \<lparr>r_status = 404, r_text = ''Voucher not found'', r_voucher = None\<rparr>
     | Some v \<Rightarrow>
         if v_status v = ''redeemed''
         then return_io \<lparr>r_status = 400, r_text = ''Cannot change status of redeemed voucher'',
                         r_voucher = None\<rparr>
         else bind_io (update_voucher_status new_status vid) (\<lambda>_.
              bind_io (auditLog (voucher_status_changed_event manager_id vid (v_status v)
                                   new_status reason)) (\<lambda>_.
              return_io \<lparr>r_status = 200, r_text = ''Voucher status changed to '' @ new_status,
                         r_voucher = None\<rparr>)))"

definition patch_voucher_status ::
  "nat \<Rightarrow> string \<Rightarrow> string option \<Rightarrow> nat \<Rightarrow> world \<Rightarrow> response \<times> world" where
  "patch_voucher_status vid new_status reason manager_id w =
     (case voucher_status_handler vid new_status reason manager_id w of
        (Inr resp, w') \<Rightarrow> (resp, w')
      | (Inl e, w') \<Rightarrow>
          (\<lparr>r_status = 500, r_text = ''Failed to update voucher status'', r_voucher = None\<rparr>,
           console_error ''Update voucher status error:'' e w'))"


section \<open>What an operation leaves alone\<close>

text \<open>\<open>keeps f m\<close>: whatever \<open>m\<close> does, and whether it returns or throws, the part
  \<open>f\<close> of the world is afterwards what it was before.\<close>

definition keeps :: "(world \<Rightarrow> 'b) \<Rightarrow> 'a io \<Rightarrow> bool" where
  "keeps f m = (\<forall>w. f (snd (m w)) = f w)"

text \<open>Everything but the audit table, the log file, the console and the call counter.\<close>

definition audit_frame ::
  "world \<Rightarrow> voucher list \<times> nat \<times> user list \<times> staff_member list \<times> int \<times> int \<times>
     (nat \<Rightarrow> string) \<times> nat \<times> (nat \<Rightarrow> string option) \<times> (qr_payload \<Rightarrow> string + string) \<times>
     (string \<Rightarrow> string + string)" where
  "audit_frame w = (vouchers w, voucher_seq w, users w, staff w, clock w, tz_minutes w,
                    entropy w, draws w, db_fault w, qr_render w, barcode_render w)"


text \<open>The clock, the time zone, the random source, the store's faults and the two
  encoders: no operation changes them.\<close>

definition env_frame ::
  "world \<Rightarrow> int \<times> int \<times> (nat \<Rightarrow> string) \<times> (nat \<Rightarrow> string option) \<times>
     (qr_payload \<Rightarrow> string + string) \<times> (string \<Rightarrow> string + string)" where
  "env_frame w = (clock w, tz_minutes w, entropy w, db_fault w, qr_render w, barcode_render w)"

definition people_frame ::
  "world \<Rightarrow> user list \<times> staff_member list \<times> int \<times> int \<times> (nat \<Rightarrow> string) \<times>
     (nat \<Rightarrow> string option) \<times> (qr_payload \<Rightarrow> string + string) \<times> (string \<Rightarrow> string + string)" where
  "people_frame w = (users w, staff w, env_frame w)"

definition staff_frame ::
  "world \<Rightarrow> staff_member list \<times> int \<times> int \<times> (nat \<Rightarrow> string) \<times>
     (nat \<Rightarrow> string option) \<times> (qr_payload \<Rightarrow> string + string) \<times> (string \<Rightarrow> string + string)" where
  "staff_frame w = (staff w, env_frame w)"

definition users_frame ::
  "world \<Rightarrow> user list \<times> int \<times> int \<times> (nat \<Rightarrow> string) \<times>
     (nat \<Rightarrow> string option) \<times> (qr_payload \<Rightarrow> string + string) \<times> (string \<Rightarrow> string + string)" where
  "users_frame w = (users w, env_frame w)"


section \<open>Sample data\<close>

text \<open>An empty store on 2 January 1970 at 00:30 UTC, with a working store and working
  encoders.\<close>

definition world0 :: world where
  "world0 = \<lparr>vouchers = [], voucher_seq = 0, users = [], staff = [], audit_log = [], audit_seq = 0,
     audit_file = [], console = [], clock = 88200000, tz_minutes = 0,
     entropy = (\<lambda>n. if n = 0 then ''A1B2C3D4E5F6'' else ''0F1E2D3C4B5A''), draws = 0,
     db_fault = (\<lambda>n. None), db_calls = 0,
     qr_render = (\<lambda>p. Inr ''data:image/png;base64,QR''),
     barcode_render = (\<lambda>c. Inr ''data:image/png;base64,BAR'')\<rparr>"

definition login_failed_event :: "string \<Rightarrow> audit_event" where
  "login_failed_event ip =
     \<lparr>e_user_type = ''staff'', e_user_id = None, e_action = ''login_failed'',
      e_resource = Some ''authentication'', e_details = None,
      e_ip_address = Some ip, e_user_agent = None\<rparr>"



section \<open>Sequences of events\<close>

text \<open>Recording a list of events one after the other, and the brute-force alerts that the
  audit table holds.\<close>

definition record_all :: "audit_event list \<Rightarrow> world \<Rightarrow> world" where
  "record_all evs w = fold (\<lambda>ev w'. snd (auditLog ev w')) evs w"

definition brute_force_alerts :: "world \<Rightarrow> audit_row list" where
  "brute_force_alerts w =
     filter (\<lambda>r. a_action r = ''security_alert''
               \<and> (case a_details r of
                     Some ds \<Rightarrow> map_of ds ''alert_type'' = Some (JStr ''brute_force_attempt'')
                   | None \<Rightarrow> False)) (audit_log w)"

text \<open>The world that \<open>auditLog\<close> leaves behind.\<close>

definition audited :: "audit_event \<Rightarrow> world \<Rightarrow> world" where
  "audited ev w = snd (auditLog ev w)"

text \<open>The two columns that the lookup of \<open>redeemVoucher\<close> joins to a voucher row.\<close>

definition joined_user :: "voucher \<Rightarrow> world \<Rightarrow> (string \<times> string) option" where
  "joined_user v w = (case v_user_id v of
       None \<Rightarrow> None
     | Some uid \<Rightarrow> map_option (\<lambda>u. (u_name u, u_email u)) (find (\<lambda>u. u_id u = uid) (users w)))"

text \<open>Vouchers for the sample worlds: one that is active and has expired, one redeemed,
  one cancelled, and one that is active and still valid.\<close>

definition sample_voucher :: "nat \<Rightarrow> string \<Rightarrow> string \<Rightarrow> int \<Rightarrow> voucher" where
  "sample_voucher i c st expires =
     \<lparr>v_id = i, v_user_id = None, v_site_id = Some 1, v_code = c, v_type = ''premium_wifi'',
      v_title = ''Premium WiFi Access'',
      v_description = ''Unlimited high-speed WiFi for 24 hours'', v_value = 500,
      v_qr_code = ''data:image/png;base64,QR'', v_barcode = ''data:image/png;base64,BAR'',
      v_status = st, v_expires_at = expires, v_redeemed_at = None, v_redeemed_by = None\<rparr>"

definition world_vouchers :: world where
  "world_vouchers = world0
     \<lparr>vouchers := [sample_voucher 1 ''PR000000000001'' ''active'' 88199999,
                    sample_voucher 2 ''PR000000000002'' ''redeemed'' 99000000,
                    sample_voucher 3 ''PR000000000003'' ''cancelled'' 99000000,
                    sample_voucher 4 ''PR000000000004'' ''active'' 99000000],
      voucher_seq := 4\<rparr>"

text \<open>The code that the next call of \<open>generateVoucherCode\<close> returns, and a world whose
  encoders do not throw.\<close>

definition next_code :: "string \<Rightarrow> world \<Rightarrow> string" where
  "next_code ty w = toUpperCase (take 2 ty) @ entropy w (draws w)"

definition encoders_work :: "world \<Rightarrow> bool" where
  "encoders_work w =
     ((\<forall>p. \<exists>img. qr_render w p = Inr img) \<and> (\<forall>c. \<exists>img. barcode_render w c = Inr img))"


section \<open>The tier table of the specification\<close>

text \<open>
  Modelled from the spec: the threshold table \<open>{Bronze: 0, Silver: 5, Gold: 15, Platinum:
  30}\<close> in ascending order, and the lookup that the specification words as ``evaluated
  from the highest threshold down, selecting the first threshold not exceeding the new
  count''. The code has no table; it has the \<open>if\<close> chain \<open>newTier\<close>.
\<close>

definition tier_table :: "(string \<times> nat) list" where
  "tier_table = [(''Bronze'', 0), (''Silver'', 5), (''Gold'', 15), (''Platinum'', 30)]"

definition tier_lookup :: "nat \<Rightarrow> string option" where
  "tier_lookup n = map_option fst (find (\<lambda>(t, threshold). threshold \<le> n) (rev tier_table))"

text \<open>Visits recorded one after the other, at the given instants.\<close>

fun record_visits :: "nat \<Rightarrow> int list \<Rightarrow> world \<Rightarrow> world" where
  "record_visits uid [] w = w"
| "record_visits uid (t # ts) w =
     record_visits uid ts (snd (updateUserLoyalty uid ''visit'' (w\<lparr>clock := t\<rparr>)))"

text \<open>A customer with four visits who owns an active loyalty reward.\<close>

definition customer4 :: user where
  "customer4 = \<lparr>u_id = 7, u_site_id = Some 1, u_email = ''ana@example.org'', u_name = ''Ana'',
     u_visit_count = 4, u_loyalty_tier = ''Bronze'', u_updated_at = ''1970-01-01 00:00:00''\<rparr>"

definition reward_voucher :: voucher where
  "reward_voucher = \<lparr>v_id = 1, v_user_id = Some 7, v_site_id = Some 1,
     v_code = ''LO000000000001'', v_type = ''loyalty_reward'', v_title = ''Welcome Reward'',
     v_description = ''Free drink'', v_value = 500, v_qr_code = ''data:image/png;base64,QR'',
     v_barcode = ''data:image/png;base64,BAR'', v_status = ''active'',
     v_expires_at = 99000000, v_redeemed_at = None, v_redeemed_by = None\<rparr>"

definition world_loyalty :: world where
  "world_loyalty = world0\<lparr>vouchers := [reward_voucher], voucher_seq := 1, users := [customer4]\<rparr>"

text \<open>The validity window of a voucher in milliseconds, with the default of 72 hours.\<close>

definition validity_ms :: "voucher_data \<Rightarrow> int" where
  "validity_ms d = (case d_expires_in_hours d of None \<Rightarrow> 72 | Some h \<Rightarrow> h) * 60 * 60 * 1000"

text \<open>A staff member who has not had a staff voucher yet, and a voucher whose code is the
  one that the random source will produce next for a staff voucher.\<close>

definition staff1 :: staff_member where
  "staff1 = \<lparr>s_id = 1, s_site_id = Some 1, s_email = ''sam@example.org'', s_name = ''Sam'',
     s_daily_voucher_used = False, s_last_voucher_date = None\<rparr>"

definition world_staff :: world where
  "world_staff = world0\<lparr>staff := [staff1]\<rparr>"

definition world_collision :: world where
  "world_collision = world0
     \<lparr>vouchers := [sample_voucher 1 ''STA1B2C3D4E5F6'' ''active'' 99000000], voucher_seq := 1,
      staff := [staff1]\<rparr>"


section \<open>Two redemptions of one code\<close>

text \<open>
  \<open>redeemVoucher\<close> gives up control at each \<open>await\<close>. \<open>redeem_until_update\<close> is what
  one call does between the answer to its lookup and the answer to its update: the checks
  on the row it was given, and the update. A failure in it is caught by the \<open>catch\<close> of
  \<open>redeemVoucher\<close> like any other.
\<close>

definition redeem_until_update ::
  "(voucher \<times> (string \<times> string) option) option \<Rightarrow> nat \<Rightarrow>
   (voucher \<times> (string \<times> string) option) io" where
  "redeem_until_update row staff_id =
     bind_io (redeem_checks row) (\<lambda>found.
     bind_io (update_voucher_redeemed staff_id (v_id (fst found))) (\<lambda>_.
     return_io found))"

definition redeem_finish ::
  "error + (voucher \<times> (string \<times> string) option) \<Rightarrow> nat \<Rightarrow>
   (voucher \<times> (string \<times> string) option) io" where
  "redeem_finish updated staff_id =
     rethrow_logged ''Redeem voucher failed:''
       (case updated of Inl e \<Rightarrow> throw_io e | Inr found \<Rightarrow> redeem_after_update found staff_id)"

text \<open>Two calls, by the staff members \<open>a\<close> and \<open>b\<close>, the second one starting when the
  first one has returned.\<close>

definition redeem_twice ::
  "string \<Rightarrow> nat \<Rightarrow> nat \<Rightarrow> world \<Rightarrow>
   ((error + voucher \<times> (string \<times> string) option) \<times>
    (error + voucher \<times> (string \<times> string) option)) \<times> world" where
  "redeem_twice c a b w =
     (case redeemVoucher c a w of (ra, w1) \<Rightarrow>
      case redeemVoucher c b w1 of (rb, w2) \<Rightarrow> ((ra, rb), w2))"

text \<open>Two calls that arrive together: the store answers both lookups before either call
  has issued its update, then each call runs its checks on the row it was given and
  updates, then each call finishes.\<close>

definition redeem_interleaved ::
  "string \<Rightarrow> nat \<Rightarrow> nat \<Rightarrow> world \<Rightarrow>
   ((error + voucher \<times> (string \<times> string) option) \<times>
    (error + voucher \<times> (string \<times> string) option)) \<times> world" where
  "redeem_interleaved c a b w =
     (case select_voucher_by_code c w of (la, w1) \<Rightarrow>
      case select_voucher_by_code c w1 of (lb, w2) \<Rightarrow>
      case (case la of Inl e \<Rightarrow> (Inl e, w2) | Inr row \<Rightarrow> redeem_until_update row a w2) of
        (ua, w3) \<Rightarrow>
      case (case lb of Inl e \<Rightarrow> (Inl e, w3) | Inr row \<Rightarrow> redeem_until_update row b w3) of
        (ub, w4) \<Rightarrow>
      case redeem_finish ua a w4 of (ra, w5) \<Rightarrow>
      case redeem_finish ub b w5 of (rb, w6) \<Rightarrow> ((ra, rb), w6))"

definition committed :: "error + 'a \<Rightarrow> bool" where
  "committed r = (case r of Inr x \<Rightarrow> True | Inl e \<Rightarrow> False)"


section \<open>Two issues of one staff voucher\<close>

text \<open>
  \<open>createStaffWiFiVoucher\<close> gives up control at each \<open>await\<close>. \<open>issue_check\<close> is what
  one call does when the store has answered its lookup: it reads the date and tests the
  row it was given. \<open>issue_create\<close> is the rest: \<open>createVoucher\<close> and the \<open>UPDATE\<close> of
  the staff row. A failure in either is caught by the \<open>catch\<close> of
  \<open>createStaffWiFiVoucher\<close> like any other.
\<close>

definition issue_check :: "staff_member option \<Rightarrow> (staff_member \<times> string) io" where
  "issue_check st =
     bind_io date_now (\<lambda>now.
     let today = iso_date now in
     case st of
       None \<Rightarrow> throw_io (TypeError
         ''Cannot read properties of undefined (reading 'last_voucher_date')'')
     | Some member \<Rightarrow>
         if s_last_voucher_date member = Some today \<and> s_daily_voucher_used member
         then throw_io DailyLimitReached
         else return_io (member, today))"

definition issue_create :: "staff_member \<times> string \<Rightarrow> nat \<Rightarrow> voucher io" where
  "issue_create checked sid =
     (case checked of (member, today) \<Rightarrow>
        bind_io (createVoucher (staff_wifi_data member sid)) (\<lambda>voucher.
        bind_io (update_staff_voucher_used today sid) (\<lambda>_.
        return_io voucher)))"

definition issue_finish :: "error + staff_member \<times> string \<Rightarrow> nat \<Rightarrow> voucher io" where
  "issue_finish checked sid =
     rethrow_logged ''Create staff WiFi voucher failed:''
       (case checked of Inl e \<Rightarrow> throw_io e | Inr c \<Rightarrow> issue_create c sid)"

text \<open>Two requests of one staff member that arrive together: the store answers both
  lookups, each call tests the row it was given, and then each call creates its voucher
  and updates the staff row.\<close>

definition issue_interleaved ::
  "nat \<Rightarrow> world \<Rightarrow> ((error + voucher) \<times> (error + voucher)) \<times> world" where
  "issue_interleaved sid w =
     (case select_staff sid w of (la, w1) \<Rightarrow>
      case select_staff sid w1 of (lb, w2) \<Rightarrow>
      case (case la of Inl e \<Rightarrow> (Inl e, w2) | Inr st \<Rightarrow> issue_check st w2) of (ca, w3) \<Rightarrow>
      case (case lb of Inl e \<Rightarrow> (Inl e, w3) | Inr st \<Rightarrow> issue_check st w3) of (cb, w4) \<Rightarrow>
      case issue_finish ca sid w4 of (ra, w5) \<Rightarrow>
      case issue_finish cb sid w5 of (rb, w6) \<Rightarrow> ((ra, rb), w6))"


section \<open>Sequences of requests\<close>

text \<open>
  The operations through which the world changes, and \<open>Tick\<close> for the passing of time:
  it sets the clock. \<open>run\<close> serves a list of requests one after the other.
\<close>

datatype request =
    Redeem string nat
  | IssueStaffVoucher nat
  | OverrideDailyLimit string string nat
  | ChangeStatus nat string "string option" nat
  | CreateVoucher voucher_data
  | CreateLoyaltyReward nat string nat
  | UpdateUserLoyalty nat string
  | AuditLog audit_event
  | Tick int

fun perform :: "request \<Rightarrow> world \<Rightarrow> world" where
  "perform (Redeem c staff_id) w = snd (redeemVoucher c staff_id w)"
| "perform (IssueStaffVoucher sid) w = snd (createStaffWiFiVoucher sid w)"
| "perform (OverrideDailyLimit staffEmail reason manager_id) w =
     snd (post_staff_wifi_override staffEmail reason manager_id w)"
| "perform (ChangeStatus vid new_status reason manager_id) w =
     snd (patch_voucher_status vid new_status reason manager_id w)"
| "perform (CreateVoucher d) w = snd (createVoucher d w)"
| "perform (CreateLoyaltyReward uid tier visits) w = snd (createLoyaltyReward uid tier visits w)"
| "perform (UpdateUserLoyalty uid action) w = snd (updateUserLoyalty uid action w)"
| "perform (AuditLog ev) w = snd (auditLog ev w)"
| "perform (Tick t) w = w\<lparr>clock := t\<rparr>"

definition run :: "request list \<Rightarrow> world \<Rightarrow> world" where
  "run rs w = fold perform rs w"

text \<open>\<open>preserves I m\<close>: if \<open>I\<close> holds before \<open>m\<close> it holds after it, whether \<open>m\<close>
  returns or throws.\<close>

definition preserves :: "(world \<Rightarrow> bool) \<Rightarrow> 'a io \<Rightarrow> bool" where
  "preserves I m = (\<forall>w. I w \<longrightarrow> I (snd (m w)))"

text \<open>The voucher that a lookup by code finds is redeemed.\<close>

definition redeemed_in :: "string \<Rightarrow> voucher list \<Rightarrow> bool" where
  "redeemed_in c vs = (case find (\<lambda>v. v_code v = c) vs of
       Some v \<Rightarrow> v_status v = ''redeemed''
     | None \<Rightarrow> False)"

definition code_redeemed :: "string \<Rightarrow> world \<Rightarrow> bool" where
  "code_redeemed c w = redeemed_in c (vouchers w)"

text \<open>The staff member has used today's staff voucher: the flag is set and the date is
  the UTC date of the clock.\<close>

definition used_today :: "nat \<Rightarrow> world \<Rightarrow> bool" where
  "used_today sid w = (case find (\<lambda>s. s_id s = sid) (staff w) of
       Some member \<Rightarrow> s_daily_voucher_used member
                      \<and> s_last_voucher_date member = Some (iso_date (clock w))
     | None \<Rightarrow> False)"

text \<open>A request that is no manager override and does not move the clock out of the day
  \<open>d\<close>.\<close>

fun within_day :: "string \<Rightarrow> request \<Rightarrow> bool" where
  "within_day d (OverrideDailyLimit staffEmail reason manager_id) = False"
| "within_day d (Tick t) = (iso_date t = d)"
| "within_day d r = True"


section \<open>Frame lemmas\<close>

lemma keepsI: "(\<And>w. f (snd (m w)) = f w) \<Longrightarrow> keeps f m"
  by (simp add: keeps_def)

lemma keepsD: "keeps f m \<Longrightarrow> f (snd (m w)) = f w"
  by (simp add: keeps_def)

lemma keeps_return: "keeps f (return_io x)"
  by (simp add: keeps_def return_io_def)

lemma keeps_throw: "keeps f (throw_io e)"
  by (simp add: keeps_def throw_io_def)

lemma keeps_date_now: "keeps f date_now"
  by (simp add: keeps_def date_now_def)

lemma keeps_today_start: "keeps f (today_start now)"
  by (simp add: keeps_def today_start_def)

lemma keeps_bind: "keeps f m \<Longrightarrow> (\<And>x. keeps f (g x)) \<Longrightarrow> keeps f (bind_io m g)"
  unfolding keeps_def bind_io_def
  by (auto split: prod.splits sum.splits) (metis snd_conv)+

lemma keeps_rethrow:
  "keeps f m \<Longrightarrow> (\<And>w c. f (w\<lparr>console := c\<rparr>) = f w) \<Longrightarrow> keeps f (rethrow_logged l m)"
  unfolding keeps_def rethrow_logged_def console_error_def
  by (auto split: prod.splits sum.splits) (metis snd_conv)+

lemma keeps_swallow:
  "keeps f m \<Longrightarrow> (\<And>w c. f (w\<lparr>console := c\<rparr>) = f w) \<Longrightarrow> keeps f (swallow_logged l m)"
  unfolding keeps_def swallow_logged_def console_error_def
  by (auto split: prod.splits sum.splits) (metis snd_conv)+

lemma keeps_db_call:
  "keeps f stmt \<Longrightarrow> (\<And>w n. f (w\<lparr>db_calls := n\<rparr>) = f w) \<Longrightarrow> keeps f (db_call stmt)"
  unfolding keeps_def db_call_def
  by (auto simp: Let_def split: option.splits)

lemma keeps_if: "keeps f a \<Longrightarrow> keeps f b \<Longrightarrow> keeps f (if c then a else b)"
  by simp

lemma keeps_case_option:
  "keeps f a \<Longrightarrow> (\<And>x. keeps f (b x)) \<Longrightarrow> keeps f (case v of None \<Rightarrow> a | Some x \<Rightarrow> b x)"
  by (cases v) simp_all

lemma keeps_let: "(\<And>x. keeps f (b x)) \<Longrightarrow> keeps f (let x = v in b x)"
  by simp

lemma keeps_case_prod: "(\<And>a b. keeps f (g a b)) \<Longrightarrow> keeps f (case p of (a, b) \<Rightarrow> g a b)"
  by (cases p) simp

lemma keeps_weaken:
  assumes "keeps f m" and "\<And>w w'. f w = f w' \<Longrightarrow> g w = g w'"
  shows "keeps g m"
  unfolding keeps_def
proof
  fix w
  have "f (snd (m w)) = f w" using assms(1) by (simp add: keeps_def)
  then show "g (snd (m w)) = g w" by (rule assms(2))
qed

lemma audit_frame_console [simp]: "audit_frame (w\<lparr>console := c\<rparr>) = audit_frame w"
  and audit_frame_db_calls [simp]: "audit_frame (w\<lparr>db_calls := n\<rparr>) = audit_frame w"
  and audit_frame_audit_log [simp]: "audit_frame (w\<lparr>audit_log := a\<rparr>) = audit_frame w"
  and audit_frame_audit_seq [simp]: "audit_frame (w\<lparr>audit_seq := n\<rparr>) = audit_frame w"
  and audit_frame_audit_file [simp]: "audit_frame (w\<lparr>audit_file := fl\<rparr>) = audit_frame w"
  by (simp_all add: audit_frame_def)

lemma people_frame_console [simp]: "people_frame (w\<lparr>console := c\<rparr>) = people_frame w"
  and people_frame_db_calls [simp]: "people_frame (w\<lparr>db_calls := n\<rparr>) = people_frame w"
  by (simp_all add: people_frame_def env_frame_def)

lemma staff_frame_console [simp]: "staff_frame (w\<lparr>console := c\<rparr>) = staff_frame w"
  and staff_frame_db_calls [simp]: "staff_frame (w\<lparr>db_calls := n\<rparr>) = staff_frame w"
  by (simp_all add: staff_frame_def env_frame_def)

lemma users_frame_console [simp]: "users_frame (w\<lparr>console := c\<rparr>) = users_frame w"
  and users_frame_db_calls [simp]: "users_frame (w\<lparr>db_calls := n\<rparr>) = users_frame w"
  by (simp_all add: users_frame_def env_frame_def)

lemma audit_to_people: "audit_frame w = audit_frame w' \<Longrightarrow> people_frame w = people_frame w'"
  by (simp add: audit_frame_def people_frame_def env_frame_def)

lemma people_to_staff: "people_frame w = people_frame w' \<Longrightarrow> staff_frame w = staff_frame w'"
  and people_to_users: "people_frame w = people_frame w' \<Longrightarrow> users_frame w = users_frame w'"
  by (simp_all add: people_frame_def staff_frame_def users_frame_def)


subsection \<open>The audit trail touches the audit table, the log file and the console only\<close>

lemma keeps_insert_audit: "keeps audit_frame (insert_audit ev)"
  unfolding insert_audit_def
  by (rule keeps_db_call) (simp_all add: keeps_def Let_def)

lemma keeps_logger_info: "keeps audit_frame (logger_info ev)"
  by (simp add: keeps_def logger_info_def)

lemma keeps_console_warn: "keeps audit_frame (console_warn l t)"
  by (simp add: keeps_def console_warn_def)

lemma keeps_count_login_failed: "keeps audit_frame (count_login_failed ip since)"
  unfolding count_login_failed_def
  by (rule keeps_db_call) (simp_all add: keeps_def)

lemma keeps_count_voucher_redeemed: "keeps audit_frame (count_voucher_redeemed ip since)"
  unfolding count_voucher_redeemed_def
  by (rule keeps_db_call) (simp_all add: keeps_def)

lemma checkSecurityAlerts_alert:
  "e_action ev = ''security_alert'' \<Longrightarrow> checkSecurityAlerts ev w = (Inr (), w)"
  by (simp add: checkSecurityAlerts.simps swallow_logged_def bind_io_def return_io_def
        date_now_def)

lemma auditLog_alert:
  "e_action ev = ''security_alert'' \<Longrightarrow>
   auditLog ev w = swallow_logged ''Audit logging failed:''
       (bind_io (insert_audit ev) (\<lambda>_. logger_info ev)) w"
  apply (subst auditLog.simps)
  apply (simp add: checkSecurityAlerts_alert swallow_logged_def bind_io_def logger_info_def
     split: prod.splits sum.splits)
  done

lemma keeps_auditLog_alert:
  assumes "e_action ev = ''security_alert''"
  shows "keeps audit_frame (auditLog ev)"
proof -
  have "keeps audit_frame (swallow_logged ''Audit logging failed:''
       (bind_io (insert_audit ev) (\<lambda>_. logger_info ev)))"
    by (intro keeps_swallow keeps_bind keeps_insert_audit keeps_logger_info audit_frame_console)
  then show ?thesis
    using assms by (simp add: keeps_def auditLog_alert)
qed

lemma keeps_checkSecurityAlerts: "keeps audit_frame (checkSecurityAlerts ev)"
  apply (subst checkSecurityAlerts.simps [abs_def])
  apply (intro keeps_swallow keeps_bind keeps_if keeps_case_option keeps_return keeps_date_now
          keeps_today_start keeps_count_login_failed keeps_count_voucher_redeemed
          keeps_console_warn keeps_auditLog_alert audit_frame_console)
   apply (simp_all add: brute_force_alert_def voucher_abuse_alert_def)
  done

lemma keeps_auditLog: "keeps audit_frame (auditLog ev)"
  apply (subst auditLog.simps [abs_def])
  apply (intro keeps_swallow keeps_bind keeps_insert_audit keeps_logger_info
          keeps_checkSecurityAlerts audit_frame_console)
  done

subsection \<open>Creating a voucher leaves the users and the staff alone\<close>

lemma keeps_people_auditLog: "keeps people_frame (auditLog ev)"
  by (rule keeps_weaken [OF keeps_auditLog]) (rule audit_to_people)

lemma keeps_people_generateVoucherCode: "keeps people_frame (generateVoucherCode ty)"
  by (simp add: keeps_def generateVoucherCode_def people_frame_def env_frame_def)

lemma keeps_expires_at_of: "keeps f (expires_at_of h)"
  unfolding expires_at_of_def
  by (intro keeps_bind keeps_date_now keeps_let keeps_if keeps_return keeps_throw)

lemma keeps_toDataURL: "keeps f (toDataURL payload)"
  by (simp add: keeps_def toDataURL_def split: sum.splits)

lemma keeps_JsBarcode: "keeps f (JsBarcode c)"
  by (simp add: keeps_def JsBarcode_def split: sum.splits)

lemma keeps_generateQRCode:
  "(\<And>w c. f (w\<lparr>console := c\<rparr>) = f w) \<Longrightarrow> keeps f (generateQRCode v)"
  unfolding generateQRCode_def
  by (intro keeps_rethrow keeps_bind keeps_toDataURL keeps_return)

lemma keeps_generateBarcode:
  "(\<And>w c. f (w\<lparr>console := c\<rparr>) = f w) \<Longrightarrow> keeps f (generateBarcode c)"
  unfolding generateBarcode_def
  by (intro keeps_rethrow keeps_bind keeps_JsBarcode keeps_return)

lemma keeps_people_insert_voucher: "keeps people_frame (insert_voucher v)"
  unfolding insert_voucher_def
  by (rule keeps_db_call) (simp_all add: keeps_def people_frame_def env_frame_def Let_def)

lemma keeps_people_createVoucher: "keeps people_frame (createVoucher d)"
  unfolding createVoucher_def
  by (intro keeps_rethrow keeps_bind keeps_let keeps_return keeps_people_auditLog
        keeps_people_generateVoucherCode keeps_expires_at_of keeps_generateQRCode
        keeps_generateBarcode keeps_people_insert_voucher people_frame_console)

lemma keeps_select_user: "(\<And>w n. f (w\<lparr>db_calls := n\<rparr>) = f w) \<Longrightarrow> keeps f (select_user uid)"
  unfolding select_user_def
  by (rule keeps_db_call) (simp_all add: keeps_def)

lemma keeps_people_createVoucher_untitled:
  "keeps people_frame (createVoucher_untitled site_id ty hours)"
  unfolding createVoucher_untitled_def insert_untitled_voucher_def
  by (intro keeps_rethrow keeps_bind keeps_db_call keeps_throw keeps_return keeps_toDataURL
        keeps_people_generateVoucherCode keeps_expires_at_of keeps_generateBarcode
        people_frame_console people_frame_db_calls)

lemma keeps_people_createLoyaltyReward: "keeps people_frame (createLoyaltyReward uid tier visits)"
  unfolding createLoyaltyReward_def
  by (intro keeps_rethrow keeps_bind keeps_case_option keeps_case_prod keeps_if keeps_throw
        keeps_select_user keeps_people_createVoucher keeps_people_createVoucher_untitled
        people_frame_console people_frame_db_calls)


subsection \<open>Loyalty updates and redemptions leave the staff alone\<close>

lemma keeps_staff_update_user_loyalty: "keeps staff_frame (update_user_loyalty cnt tier uid)"
  unfolding update_user_loyalty_def
  by (rule keeps_db_call) (simp_all add: keeps_def staff_frame_def env_frame_def)

lemma keeps_staff_createLoyaltyReward: "keeps staff_frame (createLoyaltyReward uid tier visits)"
  by (rule keeps_weaken [OF keeps_people_createLoyaltyReward]) (rule people_to_staff)

lemma keeps_staff_auditLog: "keeps staff_frame (auditLog ev)"
  by (rule keeps_weaken [OF keeps_people_auditLog]) (rule people_to_staff)

lemma keeps_staff_updateUserLoyalty: "keeps staff_frame (updateUserLoyalty uid action)"
  unfolding updateUserLoyalty_def
  by (intro keeps_rethrow keeps_bind keeps_case_option keeps_let keeps_if keeps_return
        keeps_select_user keeps_staff_update_user_loyalty keeps_staff_createLoyaltyReward
        staff_frame_console staff_frame_db_calls)

lemma keeps_select_voucher_by_code:
  "(\<And>w n. f (w\<lparr>db_calls := n\<rparr>) = f w) \<Longrightarrow> keeps f (select_voucher_by_code c)"
  unfolding select_voucher_by_code_def
  by (rule keeps_db_call) (simp_all add: keeps_def)

lemma keeps_redeem_checks: "keeps f (redeem_checks row)"
  unfolding redeem_checks_def
  by (intro keeps_case_option keeps_case_prod keeps_if keeps_bind keeps_date_now
        keeps_throw keeps_return)

lemma keeps_staff_update_voucher_redeemed: "keeps staff_frame (update_voucher_redeemed s vid)"
  unfolding update_voucher_redeemed_def
  by (rule keeps_db_call) (simp_all add: keeps_def staff_frame_def env_frame_def)

lemma keeps_staff_redeem_after_update: "keeps staff_frame (redeem_after_update found s)"
  unfolding redeem_after_update_def
  by (intro keeps_case_prod keeps_bind keeps_case_option keeps_return keeps_date_now
        keeps_staff_updateUserLoyalty keeps_staff_auditLog)

lemma keeps_staff_redeemVoucher: "keeps staff_frame (redeemVoucher c s)"
  unfolding redeemVoucher_def
  by (intro keeps_rethrow keeps_bind keeps_select_voucher_by_code keeps_redeem_checks
        keeps_staff_update_voucher_redeemed keeps_staff_redeem_after_update
        staff_frame_console staff_frame_db_calls)


subsection \<open>Issuing a staff voucher leaves the users alone\<close>

lemma keeps_select_staff: "(\<And>w n. f (w\<lparr>db_calls := n\<rparr>) = f w) \<Longrightarrow> keeps f (select_staff sid)"
  unfolding select_staff_def
  by (rule keeps_db_call) (simp_all add: keeps_def)

lemma keeps_users_update_staff_voucher_used:
  "keeps users_frame (update_staff_voucher_used today sid)"
  unfolding update_staff_voucher_used_def
  by (rule keeps_db_call) (simp_all add: keeps_def users_frame_def env_frame_def)

lemma keeps_users_createVoucher: "keeps users_frame (createVoucher d)"
  by (rule keeps_weaken [OF keeps_people_createVoucher]) (rule people_to_users)

lemma keeps_users_createStaffWiFiVoucher: "keeps users_frame (createStaffWiFiVoucher sid)"
  unfolding createStaffWiFiVoucher_def
  by (intro keeps_rethrow keeps_bind keeps_select_staff keeps_date_now keeps_let
        keeps_case_option keeps_if keeps_throw keeps_return keeps_users_createVoucher
        keeps_users_update_staff_voucher_used users_frame_console users_frame_db_calls)

section \<open>Running the operations\<close>

lemma bind_return_io [simp]: "bind_io (return_io x) f = f x"
  by (rule ext) (simp add: bind_io_def return_io_def)

lemma bind_throw_io [simp]: "bind_io (throw_io e) f = throw_io e"
  by (rule ext) (simp add: bind_io_def throw_io_def)

lemma bind_date_now: "bind_io date_now f w = f (clock w) w"
  by (simp add: bind_io_def date_now_def)

lemma bind_today_start: "bind_io (today_start now) f w = f (local_midnight (tz_minutes w) now) w"
  by (simp add: bind_io_def today_start_def)

lemma bind_io_Inr: "m w = (Inr x, w') \<Longrightarrow> bind_io m f w = f x w'"
  by (simp add: bind_io_def)

lemma bind_io_Inl: "m w = (Inl e, w') \<Longrightarrow> bind_io m f w = (Inl e, w')"
  by (simp add: bind_io_def)

lemma swallow_logged_returns: "fst (swallow_logged l m w) = Inr ()"
  by (simp add: swallow_logged_def split: prod.splits sum.splits)

lemma db_call_fails:
  "db_fault w (db_calls w) = Some m \<Longrightarrow>
   db_call stmt w = (Inl (SqliteError m), w\<lparr>db_calls := Suc (db_calls w)\<rparr>)"
  by (simp add: db_call_def)

lemma db_call_runs:
  "db_fault w (db_calls w) = None \<Longrightarrow> db_call stmt w = stmt (w\<lparr>db_calls := Suc (db_calls w)\<rparr>)"
  by (simp add: db_call_def)

lemma auditLog_returns: "fst (auditLog ev w) = Inr ()"
  by (simp add: auditLog.simps swallow_logged_returns)

lemma auditLog_result: "auditLog ev w = (Inr (), snd (auditLog ev w))"
  using auditLog_returns [of ev w] by (cases "auditLog ev w") simp

lemma auditLog_clock [simp]: "clock (snd (auditLog ev w)) = clock w"
  and auditLog_db_fault [simp]: "db_fault (snd (auditLog ev w)) = db_fault w"
  and auditLog_vouchers [simp]: "vouchers (snd (auditLog ev w)) = vouchers w"
  and auditLog_users [simp]: "users (snd (auditLog ev w)) = users w"
  and auditLog_staff [simp]: "staff (snd (auditLog ev w)) = staff w"
  and auditLog_draws [simp]: "draws (snd (auditLog ev w)) = draws w"
  using keepsD [OF keeps_auditLog, of ev w] by (simp_all add: audit_frame_def)



lemma auditLog_alert_runs:
  assumes "e_action ev = ''security_alert''" and "db_fault w (db_calls w) = None"
  shows "auditLog ev w =
     (Inr (), w\<lparr>db_calls := Suc (db_calls w),
                 audit_log := audit_log w @
                   [audit_row_of ev (next_id (audit_seq w) (map a_id (audit_log w)))
                      (sqlite_datetime (clock w))],
                 audit_seq := next_id (audit_seq w) (map a_id (audit_log w)),
                 audit_file := audit_file w @ [(toISOString (clock w), ev)]\<rparr>)"
  using assms
  by (simp add: auditLog_alert swallow_logged_def bind_io_def insert_audit_def db_call_runs
        logger_info_def Let_def)

lemma auditLog_login_failed:
  assumes ok: "db_fault w = (\<lambda>n. None)"
    and ev: "e_action ev = ''login_failed''" "e_ip_address ev = Some ip" "ip \<noteq> []"
  shows "audit_log (snd (auditLog ev w)) =
     (let row = audit_row_of ev (next_id (audit_seq w) (map a_id (audit_log w)))
                  (sqlite_datetime (clock w));
          n = login_failed_since ip (toISOString (clock w - 3600000)) (audit_log w @ [row])
      in audit_log w @ [row] @
         (if 10 \<le> n
          then [audit_row_of (brute_force_alert ip n)
                  (next_id (next_id (audit_seq w) (map a_id (audit_log w)))
                     (map a_id (audit_log w @ [row])))
                  (sqlite_datetime (clock w))]
          else []))"
  using assms
  by (simp add: auditLog.simps checkSecurityAlerts.simps swallow_logged_def bind_io_def
        insert_audit_def logger_info_def count_login_failed_def db_call_runs
        str_or_null_def Let_def auditLog_alert_runs brute_force_alert_def console_warn_def
        return_io_def date_now_def)

subsection \<open>Redeeming\<close>

lemma auditLog_eq: "auditLog ev w = (Inr (), audited ev w)"
  using auditLog_result [of ev w] by (simp add: audited_def)

lemma audited_frame [simp]:
  "clock (audited ev w) = clock w"
  "db_fault (audited ev w) = db_fault w"
  "vouchers (audited ev w) = vouchers w"
  "users (audited ev w) = users w"
  "staff (audited ev w) = staff w"
  "draws (audited ev w) = draws w"
  by (simp_all add: audited_def)

lemma updateUserLoyalty_redemption:
  assumes ok: "db_fault w = (\<lambda>n. None)"
  shows "updateUserLoyalty uid ''redemption'' w =
     (case find (\<lambda>u. u_id u = uid) (users w) of
        None \<Rightarrow> (Inr None, w\<lparr>db_calls := Suc (db_calls w)\<rparr>)
      | Some usr \<Rightarrow>
          (Inr (Some (u_visit_count usr, newTier (u_visit_count usr),
                      newTier (u_visit_count usr) \<noteq> u_loyalty_tier usr)),
           w\<lparr>db_calls := Suc (Suc (db_calls w)),
             users := map (set_loyalty (u_visit_count usr) (newTier (u_visit_count usr))
                             (sqlite_datetime (clock w)) uid) (users w)\<rparr>))"
  using ok
  by (simp add: updateUserLoyalty_def rethrow_logged_def bind_io_def select_user_def
        update_user_loyalty_def db_call_runs return_io_def Let_def split: option.splits)

lemma redeemVoucher_commits:
  assumes ok: "db_fault w = (\<lambda>n. None)"
    and found: "find (\<lambda>v. v_code v = c) (vouchers w) = Some v"
    and active: "v_status v = ''active''"
    and fresh: "\<not> v_expires_at v < clock w"
  shows "fst (redeemVoucher c s w) =
           Inr (v\<lparr>v_status := ''redeemed'', v_redeemed_at := Some (toISOString (clock w)),
                  v_redeemed_by := Some s\<rparr>, joined_user v w)"
    and "vouchers (snd (redeemVoucher c s w)) =
           map (set_redeemed s (sqlite_datetime (clock w)) (v_id v)) (vouchers w)"
  using assms
  by (simp_all add: redeemVoucher_def rethrow_logged_def bind_io_def select_voucher_by_code_def
        redeem_checks_def update_voucher_redeemed_def redeem_after_update_def db_call_runs
        return_io_def throw_io_def date_now_def auditLog_eq updateUserLoyalty_redemption
        joined_user_def
        split: option.splits)

lemma redeemVoucher_rejects:
  assumes ok: "db_fault w (db_calls w) = None"
  shows "find (\<lambda>v. v_code v = c) (vouchers w) = None \<Longrightarrow>
           fst (redeemVoucher c s w) = Inl NotFound"
    and "find (\<lambda>v. v_code v = c) (vouchers w) = Some v \<Longrightarrow> v_status v = ''redeemed'' \<Longrightarrow>
           fst (redeemVoucher c s w) = Inl AlreadyRedeemed"
    and "find (\<lambda>v. v_code v = c) (vouchers w) = Some v \<Longrightarrow> v_status v \<noteq> ''redeemed'' \<Longrightarrow>
           v_expires_at v < clock w \<Longrightarrow> fst (redeemVoucher c s w) = Inl Expired"
    and "find (\<lambda>v. v_code v = c) (vouchers w) = Some v \<Longrightarrow> v_status v \<noteq> ''redeemed'' \<Longrightarrow>
           \<not> v_expires_at v < clock w \<Longrightarrow> v_status v \<noteq> ''active'' \<Longrightarrow>
           fst (redeemVoucher c s w) = Inl NotActive"
  using ok
  by (simp_all add: redeemVoucher_def rethrow_logged_def bind_io_def select_voucher_by_code_def
        redeem_checks_def db_call_runs throw_io_def date_now_def)

lemma find_map_set_loyalty:
  "find (\<lambda>u. u_id u = uid) xs = Some usr \<Longrightarrow>
   find (\<lambda>u. u_id u = uid) (map (set_loyalty n t at uid) xs)
     = Some (usr\<lparr>u_visit_count := n, u_loyalty_tier := t, u_updated_at := at\<rparr>)"
  by (induction xs) (auto simp: set_loyalty_def)

lemma redeemVoucher_commits_users:
  assumes ok: "db_fault w = (\<lambda>n. None)"
    and found: "find (\<lambda>v. v_code v = c) (vouchers w) = Some v"
    and active: "v_status v = ''active''"
    and fresh: "\<not> v_expires_at v < clock w"
  shows "users (snd (redeemVoucher c s w)) =
     (case (if v_type v = ''loyalty_reward'' then id_or_null (v_user_id v) else None) of
        None \<Rightarrow> users w
      | Some uid \<Rightarrow>
          (case find (\<lambda>u. u_id u = uid) (users w) of
             None \<Rightarrow> users w
           | Some usr \<Rightarrow> map (set_loyalty (u_visit_count usr) (newTier (u_visit_count usr))
                                (sqlite_datetime (clock w)) uid) (users w)))"
  using assms
  by (simp add: redeemVoucher_def rethrow_logged_def bind_io_def select_voucher_by_code_def
        redeem_checks_def update_voucher_redeemed_def redeem_after_update_def db_call_runs
        return_io_def throw_io_def date_now_def auditLog_eq updateUserLoyalty_redemption
        split: option.splits)

subsection \<open>Creating vouchers\<close>

lemma generateVoucherCode_eq:
  "generateVoucherCode ty w = (Inr (next_code ty w), w\<lparr>draws := Suc (draws w)\<rparr>)"
  by (simp add: generateVoucherCode_def next_code_def)

lemmas createVoucher_unfold =
  createVoucher_def rethrow_logged_def bind_io_def generateVoucherCode_eq expires_at_of_def
  generateQRCode_def generateBarcode_def toDataURL_def JsBarcode_def insert_voucher_def
  db_call_def return_io_def throw_io_def date_now_def auditLog_eq console_error_def Let_def

lemma encoders_workD:
  assumes "encoders_work w"
  shows "\<exists>img. qr_render w p = Inr img" and "\<exists>img. barcode_render w c = Inr img"
  using assms unfolding encoders_work_def by blast+

lemma createVoucher_draws: "draws (snd (createVoucher d w)) = Suc (draws w)"
  by (simp add: createVoucher_unfold split: sum.splits option.splits)

lemma createVoucher_collision:
  assumes dup: "next_code (d_type d) w \<in> set (map v_code (vouchers w))"
  shows "\<exists>e. fst (createVoucher d w) = Inl e"
    and "vouchers (snd (createVoucher d w)) = vouchers w"
  using dup
  by (simp_all add: createVoucher_unfold split: sum.splits option.splits)

lemma createVoucher_collision_error:
  assumes dup: "next_code (d_type d) w \<in> set (map v_code (vouchers w))"
    and ok: "db_fault w (db_calls w) = None" and enc: "encoders_work w"
    and time: "valid_time (clock w + validity_ms d)"
  shows "fst (createVoucher d w) =
           Inl (SqliteError ''SQLITE_CONSTRAINT: UNIQUE constraint failed: vouchers.code'')"
proof -
  obtain q where q: "qr_render w (next_code (d_type d) w, d_type d, Some (d_title d),
      Some (d_value d),
      toISOString (clock w + validity_ms d), d_site_id d) = Inr q"
    using encoders_workD [OF enc] by blast
  obtain b where b: "barcode_render w (next_code (d_type d) w) = Inr b"
    using encoders_workD [OF enc] by blast
  show ?thesis
    using dup ok time q b
    by (simp add: createVoucher_unfold validity_ms_def)
qed

lemma createVoucher_ok:
  assumes ok: "db_fault w = (\<lambda>n. None)" and enc: "encoders_work w"
    and time: "valid_time (clock w + validity_ms d)"
    and fresh: "next_code (d_type d) w \<notin> set (map v_code (vouchers w))"
  shows "\<exists>v. fst (createVoucher d w) = Inr v
           \<and> vouchers (snd (createVoucher d w)) = vouchers w @ [v]
           \<and> v_code v = next_code (d_type d) w \<and> v_status v = ''active''
           \<and> v_type v = d_type d \<and> v_user_id v = d_user_id d
           \<and> v_expires_at v = clock w + validity_ms d"
proof -
  obtain q where q: "qr_render w (next_code (d_type d) w, d_type d, Some (d_title d),
      Some (d_value d),
      toISOString (clock w + validity_ms d), d_site_id d) = Inr q"
    using encoders_workD [OF enc] by blast
  obtain b where b: "barcode_render w (next_code (d_type d) w) = Inr b"
    using encoders_workD [OF enc] by blast
  show ?thesis
    using ok time fresh q b
    by (simp add: createVoucher_unfold validity_ms_def)
qed


lemma createVoucher_frame:
  "staff (snd (createVoucher d w)) = staff w"
  "users (snd (createVoucher d w)) = users w"
  "clock (snd (createVoucher d w)) = clock w"
  "db_fault (snd (createVoucher d w)) = db_fault w"
  "entropy (snd (createVoucher d w)) = entropy w"
  "qr_render (snd (createVoucher d w)) = qr_render w"
  "barcode_render (snd (createVoucher d w)) = barcode_render w"
  using keepsD [OF keeps_people_createVoucher, of d w]
  by (simp_all add: people_frame_def env_frame_def)

lemma createVoucher_frameD:
  assumes "createVoucher d w = (r, w')"
  shows "staff w' = staff w \<and> users w' = users w \<and> clock w' = clock w \<and> db_fault w' = db_fault w"
  using createVoucher_frame [of d w] assms by simp

lemma find_map_set_voucher_used:
  "find (\<lambda>s. s_id s = sid) xs = Some member \<Longrightarrow>
   find (\<lambda>s. s_id s = sid) (map (set_voucher_used today sid) xs)
     = Some (member\<lparr>s_daily_voucher_used := True, s_last_voucher_date := Some today\<rparr>)"
  by (induction xs) (auto simp: set_voucher_used_def)

lemma find_map_set_voucher_used_other:
  "sid' \<noteq> sid \<Longrightarrow>
   find (\<lambda>s. s_id s = sid) (map (set_voucher_used today sid') xs) = find (\<lambda>s. s_id s = sid) xs"
  by (induction xs) (auto simp: set_voucher_used_def)

lemmas createStaffWiFiVoucher_unfold =
  createStaffWiFiVoucher_def rethrow_logged_def bind_io_def select_staff_def
  update_staff_voucher_used_def db_call_def return_io_def throw_io_def date_now_def
  console_error_def Let_def

lemma createStaffWiFiVoucher_staff:
  "(\<forall>e. fst (createStaffWiFiVoucher sid w) = Inl e \<longrightarrow>
        staff (snd (createStaffWiFiVoucher sid w)) = staff w)
   \<and> (\<forall>v. fst (createStaffWiFiVoucher sid w) = Inr v \<longrightarrow>
        staff (snd (createStaffWiFiVoucher sid w))
          = map (set_voucher_used (iso_date (clock w)) sid) (staff w)
        \<and> find (\<lambda>s. s_id s = sid) (staff w) \<noteq> None)"
  by (auto simp: createStaffWiFiVoucher_unfold split: option.splits prod.splits sum.splits
        dest!: createVoucher_frameD)

lemma createStaffWiFiVoucher_limit:
  assumes "db_fault w (db_calls w) = None"
    and "find (\<lambda>s. s_id s = sid) (staff w) = Some member"
    and "s_last_voucher_date member = Some (iso_date (clock w))"
    and "s_daily_voucher_used member"
  shows "fst (createStaffWiFiVoucher sid w) = Inl DailyLimitReached"
  using assms by (simp add: createStaffWiFiVoucher_unfold)

lemma createStaffWiFiVoucher_ok:
  assumes ok: "db_fault w = (\<lambda>n. None)" and enc: "encoders_work w"
    and time: "valid_time (clock w + 86400000)"
    and found: "find (\<lambda>s. s_id s = sid) (staff w) = Some member"
    and allowed: "\<not> (s_last_voucher_date member = Some (iso_date (clock w))
                     \<and> s_daily_voucher_used member)"
    and fresh: "next_code ''staff_wifi'' w \<notin> set (map v_code (vouchers w))"
  shows "\<exists>v. fst (createStaffWiFiVoucher sid w) = Inr v \<and> v_type v = ''staff_wifi''
            \<and> v_status v = ''active'' \<and> v_code v = next_code ''staff_wifi'' w"
proof -
  let ?w1 = "w\<lparr>db_calls := Suc (db_calls w)\<rparr>"
  let ?d = "staff_wifi_data member sid"
  have "\<exists>v. fst (createVoucher ?d ?w1) = Inr v
           \<and> vouchers (snd (createVoucher ?d ?w1)) = vouchers ?w1 @ [v]
           \<and> v_code v = next_code (d_type ?d) ?w1 \<and> v_status v = ''active''
           \<and> v_type v = d_type ?d \<and> v_user_id v = d_user_id ?d
           \<and> v_expires_at v = clock ?w1 + validity_ms ?d"
    using ok enc time fresh
    by (intro createVoucher_ok)
       (simp_all add: staff_wifi_data_def validity_ms_def encoders_work_def next_code_def)
  then obtain v where v: "fst (createVoucher ?d ?w1) = Inr v" "v_status v = ''active''"
      "v_type v = ''staff_wifi''" "v_code v = next_code ''staff_wifi'' w"
    by (auto simp: staff_wifi_data_def next_code_def)
  define w2 where "w2 = snd (createVoucher ?d ?w1)"
  have cv: "createVoucher ?d ?w1 = (Inr v, w2)"
    using v(1) by (cases "createVoucher ?d ?w1") (simp add: w2_def)
  have w2: "db_fault w2 = (\<lambda>n. None)"
    using ok by (simp add: w2_def createVoucher_frame)
  have "fst (createStaffWiFiVoucher sid w) = Inr v"
    using ok found allowed cv w2
    by (simp add: createStaffWiFiVoucher_unfold)
  then show ?thesis using v by blast
qed

subsection \<open>Staff vouchers\<close>

lemma upper_st: "toUpperCase ''st'' = ''ST''"
  by (simp add: toUpperCase_def) (simp add: upper_char_def)

lemma staff_wifi_prefix: "toUpperCase (take 2 ''staff_wifi'') = ''ST''"
  by (simp add: upper_st)

lemma next_code_staff_wifi: "next_code ''staff_wifi'' w = ''ST'' @ entropy w (draws w)"
  by (simp add: next_code_def upper_st)

lemma createStaffWiFiVoucher_collision:
  assumes sel: "db_fault w (db_calls w) = None"
    and found: "find (\<lambda>s. s_id s = sid) (staff w) = Some member"
    and allowed: "\<not> (s_last_voucher_date member = Some (iso_date (clock w))
                     \<and> s_daily_voucher_used member)"
    and dup: "next_code ''staff_wifi'' w \<in> set (map v_code (vouchers w))"
  shows "fst (createStaffWiFiVoucher sid w)
           = fst (createVoucher (staff_wifi_data member sid) (w\<lparr>db_calls := Suc (db_calls w)\<rparr>))"
    and "\<exists>e. fst (createStaffWiFiVoucher sid w) = Inl e"
    and "vouchers (snd (createStaffWiFiVoucher sid w)) = vouchers w"
    and "draws (snd (createStaffWiFiVoucher sid w)) = Suc (draws w)"
    and "staff (snd (createStaffWiFiVoucher sid w)) = staff w"
proof -
  let ?w1 = "w\<lparr>db_calls := Suc (db_calls w)\<rparr>"
  let ?d = "staff_wifi_data member sid"
  have dup1: "next_code (d_type ?d) ?w1 \<in> set (map v_code (vouchers ?w1))"
    using dup by (simp add: staff_wifi_data_def next_code_def)
  obtain e where e: "fst (createVoucher ?d ?w1) = Inl e"
    using createVoucher_collision(1) [OF dup1] by blast
  define w2 where "w2 = snd (createVoucher ?d ?w1)"
  have cv: "createVoucher ?d ?w1 = (Inl e, w2)"
    using e by (cases "createVoucher ?d ?w1") (simp add: w2_def)
  have w2: "vouchers w2 = vouchers w" "draws w2 = Suc (draws w)" "staff w2 = staff w"
    using createVoucher_collision(2) [OF dup1] createVoucher_draws [of ?d ?w1]
      createVoucher_frame(1) [of ?d ?w1]
    by (simp_all add: w2_def)
  have run: "createStaffWiFiVoucher sid w =
               (Inl e, console_error ''Create staff WiFi voucher failed:'' e w2)"
    using sel found allowed cv
    by (auto simp: createStaffWiFiVoucher_unfold)
  show "fst (createStaffWiFiVoucher sid w) = fst (createVoucher ?d ?w1)"
    by (simp add: run e)
  show "\<exists>e. fst (createStaffWiFiVoucher sid w) = Inl e"
    by (simp add: run)
  show "vouchers (snd (createStaffWiFiVoucher sid w)) = vouchers w"
    by (simp add: run w2 console_error_def)
  show "draws (snd (createStaffWiFiVoucher sid w)) = Suc (draws w)"
    by (simp add: run w2 console_error_def)
  show "staff (snd (createStaffWiFiVoucher sid w)) = staff w"
    by (simp add: run w2 console_error_def)
qed


lemma createStaffWiFiVoucher_propagates:
  assumes sel: "db_fault w (db_calls w) = None"
    and found: "find (\<lambda>s. s_id s = sid) (staff w) = Some member"
    and allowed: "\<not> (s_last_voucher_date member = Some (iso_date (clock w))
                     \<and> s_daily_voucher_used member)"
    and fails: "fst (createVoucher (staff_wifi_data member sid)
                       (w\<lparr>db_calls := Suc (db_calls w)\<rparr>)) = Inl e"
  shows "fst (createStaffWiFiVoucher sid w) = Inl e"
  using assms
  by (cases "createVoucher (staff_wifi_data member sid) (w\<lparr>db_calls := Suc (db_calls w)\<rparr>)")
     (auto simp: createStaffWiFiVoucher_unfold)

lemma world_collision_facts:
  "db_fault world_collision (db_calls world_collision) = None"
  "find (\<lambda>s. s_id s = 1) (staff world_collision) = Some staff1"
  "\<not> (s_last_voucher_date staff1 = Some (iso_date (clock world_collision))
       \<and> s_daily_voucher_used staff1)"
  "next_code ''staff_wifi'' world_collision \<in> set (map v_code (vouchers world_collision))"
  "encoders_work world_collision"
  "valid_time (clock world_collision + 86400000)"
  by (simp_all add: world_collision_def world0_def staff1_def next_code_staff_wifi
        sample_voucher_def encoders_work_def valid_time_def)

subsection \<open>Recording a visit\<close>

lemma createLoyaltyReward_frame:
  "users (snd (createLoyaltyReward uid tier visits w)) = users w"
  "db_fault (snd (createLoyaltyReward uid tier visits w)) = db_fault w"
  using keepsD [OF keeps_people_createLoyaltyReward, of uid tier visits w]
  by (simp_all add: people_frame_def env_frame_def)

lemma createLoyaltyReward_frameD:
  assumes "createLoyaltyReward uid tier visits w = (r, w')"
  shows "users w' = users w \<and> db_fault w' = db_fault w"
  using createLoyaltyReward_frame [of uid tier visits w] assms by simp

lemma updateUserLoyalty_db_fault [simp]:
  "db_fault (snd (updateUserLoyalty uid action w)) = db_fault w"
  using keepsD [OF keeps_staff_updateUserLoyalty, of uid action w]
  by (simp add: staff_frame_def env_frame_def)

lemmas updateUserLoyalty_unfold =
  updateUserLoyalty_def rethrow_logged_def bind_io_def select_user_def update_user_loyalty_def
  db_call_runs return_io_def console_error_def Let_def

lemma updateUserLoyalty_visit_users:
  assumes ok: "db_fault w = (\<lambda>n. None)"
    and found: "find (\<lambda>u. u_id u = uid) (users w) = Some usr"
  shows "users (snd (updateUserLoyalty uid ''visit'' w)) =
           map (set_loyalty (u_visit_count usr + 1) (newTier (u_visit_count usr + 1))
                  (sqlite_datetime (clock w)) uid) (users w)"
  using assms
  by (auto simp: updateUserLoyalty_unfold split: prod.splits sum.splits
        dest!: createLoyaltyReward_frameD)

lemma updateUserLoyalty_visit_result:
  assumes ok: "db_fault w = (\<lambda>n. None)"
    and found: "find (\<lambda>u. u_id u = uid) (users w) = Some usr"
    and ret: "fst (updateUserLoyalty uid ''visit'' w) = Inr r"
  shows "r = Some (u_visit_count usr + 1, newTier (u_visit_count usr + 1),
                   newTier (u_visit_count usr + 1) \<noteq> u_loyalty_tier usr)"
  using assms
  by (auto simp: updateUserLoyalty_unfold split: prod.splits sum.splits if_splits)

lemma updateUserLoyalty_visit_same_tier:
  assumes ok: "db_fault w = (\<lambda>n. None)"
    and found: "find (\<lambda>u. u_id u = uid) (users w) = Some usr"
    and same: "newTier (u_visit_count usr + 1) = u_loyalty_tier usr"
  shows "fst (updateUserLoyalty uid ''visit'' w) =
           Inr (Some (u_visit_count usr + 1, newTier (u_visit_count usr + 1), False))"
  using assms
  by (simp add: updateUserLoyalty_unfold)


lemma tier_names_lower:
  "toLowerCase ''Bronze'' = ''bronze''" "toLowerCase ''Silver'' = ''silver''"
  "toLowerCase ''Gold'' = ''gold''" "toLowerCase ''Platinum'' = ''platinum''"
  by (simp_all add: toLowerCase_def) (simp_all add: lower_char_def)

lemma newTier_reward: "\<exists>title description val.
    map_of rewards (toLowerCase (newTier n)) = Some (title, description, val)"
  by (simp add: newTier_def rewards_def tier_names_lower)

lemma createLoyaltyReward_ok:
  assumes ok: "db_fault w = (\<lambda>n. None)" and enc: "encoders_work w"
    and time: "valid_time (clock w + 604800000)"
    and found: "find (\<lambda>u. u_id u = uid) (users w) = Some usr"
    and fresh: "next_code ''loyalty_reward'' w \<notin> set (map v_code (vouchers w))"
  shows "\<exists>v. fst (createLoyaltyReward uid (newTier n) visits w) = Inr v"
proof -
  obtain title description val
    where reward: "map_of rewards (toLowerCase (newTier n)) = Some (title, description, val)"
    using newTier_reward by blast
  let ?w1 = "w\<lparr>db_calls := Suc (db_calls w)\<rparr>"
  let ?d = "\<lparr>d_user_id = Some uid, d_site_id = u_site_id usr,
             d_type = ''loyalty_reward'', d_title = title,
             d_description = description, d_value = val,
             d_expires_in_hours = Some 168,
             d_created_by = Some (''system'', None)\<rparr>"
  have "\<exists>v. fst (createVoucher ?d ?w1) = Inr v
           \<and> vouchers (snd (createVoucher ?d ?w1)) = vouchers ?w1 @ [v]
           \<and> v_code v = next_code (d_type ?d) ?w1 \<and> v_status v = ''active''
           \<and> v_type v = d_type ?d \<and> v_user_id v = d_user_id ?d
           \<and> v_expires_at v = clock ?w1 + validity_ms ?d"
    using ok enc time fresh
    by (intro createVoucher_ok) (simp_all add: validity_ms_def encoders_work_def next_code_def)
  then obtain v where v: "fst (createVoucher ?d ?w1) = Inr v"
    by blast
  define w2 where "w2 = snd (createVoucher ?d ?w1)"
  have cv: "createVoucher ?d ?w1 = (Inr v, w2)"
    using v by (cases "createVoucher ?d ?w1") (simp add: w2_def)
  have "fst (createLoyaltyReward uid (newTier n) visits w) = Inr v"
    using ok found reward cv
    by (simp add: createLoyaltyReward_def rethrow_logged_def bind_io_def select_user_def
          db_call_runs)
  then show ?thesis by blast
qed

lemma updateUserLoyalty_visit_returns:
  assumes ok: "db_fault w = (\<lambda>n. None)"
    and found: "find (\<lambda>u. u_id u = uid) (users w) = Some usr"
    and enc: "encoders_work w" and time: "valid_time (clock w + 604800000)"
    and fresh: "next_code ''loyalty_reward'' w \<notin> set (map v_code (vouchers w))"
  shows "fst (updateUserLoyalty uid ''visit'' w) =
           Inr (Some (u_visit_count usr + 1, newTier (u_visit_count usr + 1),
                      newTier (u_visit_count usr + 1) \<noteq> u_loyalty_tier usr))"
proof (cases "newTier (u_visit_count usr + 1) = u_loyalty_tier usr")
  case True
  then show ?thesis using updateUserLoyalty_visit_same_tier [OF ok found] by simp
next
  case False
  let ?n = "u_visit_count usr + 1"
  let ?w2 = "w\<lparr>db_calls := Suc (Suc (db_calls w)),
               users := map (set_loyalty ?n (newTier ?n) (sqlite_datetime (clock w)) uid)
                          (users w)\<rparr>"
  have "\<exists>v. fst (createLoyaltyReward uid (newTier ?n) ?n ?w2) = Inr v"
    using ok enc time fresh find_map_set_loyalty [OF found]
    by (intro createLoyaltyReward_ok [where usr = "usr\<lparr>u_visit_count := ?n,
             u_loyalty_tier := newTier ?n, u_updated_at := sqlite_datetime (clock w)\<rparr>"])
       (simp_all add: encoders_work_def next_code_def)
  then obtain v where v: "fst (createLoyaltyReward uid (newTier ?n) ?n ?w2) = Inr v"
    by blast
  define w3 where "w3 = snd (createLoyaltyReward uid (newTier ?n) ?n ?w2)"
  have "createLoyaltyReward uid (newTier ?n) ?n ?w2 = (Inr v, w3)"
    using v by (cases "createLoyaltyReward uid (newTier ?n) ?n ?w2") (simp add: w3_def)
  then show ?thesis
    using ok found False by (simp add: updateUserLoyalty_unfold)
qed

lemma newTier_thresholds:
  "(newTier n = ''Platinum'') = (30 \<le> n)"
  "(newTier n = ''Gold'') = (15 \<le> n \<and> n < 30)"
  "(newTier n = ''Silver'') = (5 \<le> n \<and> n < 15)"
  "(newTier n = ''Bronze'') = (n < 5)"
  by (auto simp: newTier_def)

lemma tier_lookup_newTier: "tier_lookup n = Some (newTier n)"
  by (simp add: tier_lookup_def tier_table_def newTier_def)

lemma record_visits_count:
  "db_fault w = (\<lambda>n. None) \<Longrightarrow> find (\<lambda>u. u_id u = uid) (users w) = Some usr \<Longrightarrow>
   ts \<noteq> [] \<Longrightarrow>
   \<exists>usr'. find (\<lambda>u. u_id u = uid) (users (record_visits uid ts w)) = Some usr'
        \<and> u_visit_count usr' = u_visit_count usr + length ts
        \<and> u_loyalty_tier usr' = newTier (u_visit_count usr + length ts)"
proof (induction ts arbitrary: w usr)
  case Nil
  then show ?case by simp
next
  case (Cons t ts)
  let ?w0 = "w\<lparr>clock := t\<rparr>"
  let ?w1 = "snd (updateUserLoyalty uid ''visit'' ?w0)"
  let ?usr1 = "usr\<lparr>u_visit_count := u_visit_count usr + 1,
                    u_loyalty_tier := newTier (u_visit_count usr + 1),
                    u_updated_at := sqlite_datetime t\<rparr>"
  have ok0: "db_fault ?w0 = (\<lambda>n. None)" and found0: "find (\<lambda>u. u_id u = uid) (users ?w0) = Some usr"
    using Cons.prems by simp_all
  have ok1: "db_fault ?w1 = (\<lambda>n. None)"
    using ok0 by simp
  have found1: "find (\<lambda>u. u_id u = uid) (users ?w1) = Some ?usr1"
    using updateUserLoyalty_visit_users [OF ok0 found0] find_map_set_loyalty [OF found0]
    by simp
  show ?case
  proof (cases "ts = []")
    case True
    then show ?thesis using found1 by simp
  next
    case False
    from Cons.IH [OF ok1 found1 False] show ?thesis by simp
  qed
qed


lemma upper_lo: "toUpperCase ''lo'' = ''LO''"
  by (simp add: toUpperCase_def) (simp add: upper_char_def)

subsection \<open>A tier name that the reward table only inherits\<close>

lemma inherited_keys_no_reward:
  "key \<in> set inherited_keys \<Longrightarrow> map_of rewards key = None"
  by (auto simp: inherited_keys_def rewards_def)

lemma createLoyaltyReward_inherited:
  assumes key: "toLowerCase tier \<in> set inherited_keys"
    and ok: "db_fault w = (\<lambda>n. None)" and enc: "encoders_work w"
    and time: "valid_time (clock w + 604800000)"
    and found: "find (\<lambda>u. u_id u = uid) (users w) = Some usr"
  shows "fst (createLoyaltyReward uid tier visits w)
           = Inl (SqliteError ''SQLITE_CONSTRAINT: NOT NULL constraint failed: vouchers.title'')"
    and "vouchers (snd (createLoyaltyReward uid tier visits w)) = vouchers w"
    and "draws (snd (createLoyaltyReward uid tier visits w)) = Suc (draws w)"
proof -
  let ?c = "toUpperCase (take 2 ''loyalty_reward'') @ entropy w (draws w)"
  obtain q where q: "qr_render w (?c, ''loyalty_reward'', None, None,
      toISOString (clock w + 604800000), u_site_id usr) = Inr q"
    using encoders_workD [OF enc] by blast
  obtain b where b: "barcode_render w ?c = Inr b"
    using encoders_workD [OF enc] by blast
  have none: "map_of rewards (toLowerCase tier) = None"
    using key by (rule inherited_keys_no_reward)
  show "fst (createLoyaltyReward uid tier visits w)
           = Inl (SqliteError ''SQLITE_CONSTRAINT: NOT NULL constraint failed: vouchers.title'')"
    "vouchers (snd (createLoyaltyReward uid tier visits w)) = vouchers w"
    "draws (snd (createLoyaltyReward uid tier visits w)) = Suc (draws w)"
    using key ok time found q b
    by (simp_all add: createLoyaltyReward_def none createVoucher_untitled_def
          insert_untitled_voucher_def select_user_def rethrow_logged_def bind_io_def
          generateVoucherCode_def expires_at_of_def generateBarcode_def toDataURL_def
          JsBarcode_def db_call_def return_io_def throw_io_def date_now_def
          console_error_def Let_def)
qed

subsection \<open>Two redemptions\<close>

lemma redeemVoucher_pieces:
  "redeemVoucher c s w =
     (case select_voucher_by_code c w of (l, w1) \<Rightarrow>
      case (case l of Inl e \<Rightarrow> (Inl e, w1) | Inr row \<Rightarrow> redeem_until_update row s w1) of
        (u, w2) \<Rightarrow> redeem_finish u s w2)"
  by (simp add: redeemVoucher_def redeem_until_update_def redeem_finish_def rethrow_logged_def
        bind_io_def throw_io_def return_io_def split: prod.splits sum.splits)

lemma find_map_set_redeemed:
  "find (\<lambda>v. v_code v = c) xs = Some v \<Longrightarrow>
   find (\<lambda>v. v_code v = c) (map (set_redeemed s at (v_id v)) xs)
     = Some (v\<lparr>v_status := ''redeemed'', v_redeemed_at := Some at, v_redeemed_by := Some s\<rparr>)"
  by (induction xs) (auto simp: set_redeemed_def)

lemma redeemVoucher_db_fault [simp]: "db_fault (snd (redeemVoucher c s w)) = db_fault w"
  and redeemVoucher_clock [simp]: "clock (snd (redeemVoucher c s w)) = clock w"
  and redeemVoucher_staff [simp]: "staff (snd (redeemVoucher c s w)) = staff w"
  using keepsD [OF keeps_staff_redeemVoucher, of c s w]
  by (simp_all add: staff_frame_def env_frame_def)

lemma redeem_twice_second_rejected:
  assumes ok: "db_fault w = (\<lambda>n. None)"
    and found: "find (\<lambda>v. v_code v = c) (vouchers w) = Some v"
    and active: "v_status v = ''active''"
    and fresh: "\<not> v_expires_at v < clock w"
  shows "fst (redeem_twice c a b w) =
           (Inr (v\<lparr>v_status := ''redeemed'', v_redeemed_at := Some (toISOString (clock w)),
                   v_redeemed_by := Some a\<rparr>, joined_user v w),
            Inl AlreadyRedeemed)"
proof -
  let ?w1 = "snd (redeemVoucher c a w)"
  have first: "fst (redeemVoucher c a w) =
           Inr (v\<lparr>v_status := ''redeemed'', v_redeemed_at := Some (toISOString (clock w)),
                  v_redeemed_by := Some a\<rparr>, joined_user v w)"
    and marked: "vouchers ?w1 = map (set_redeemed a (sqlite_datetime (clock w)) (v_id v)) (vouchers w)"
    using redeemVoucher_commits [OF ok found active fresh] by simp_all
  have row: "find (\<lambda>v. v_code v = c) (vouchers ?w1)
          = Some (v\<lparr>v_status := ''redeemed'', v_redeemed_at := Some (sqlite_datetime (clock w)),
                     v_redeemed_by := Some a\<rparr>)"
    using find_map_set_redeemed [OF found] by (simp add: marked)
  have answered: "db_fault ?w1 (db_calls ?w1) = None"
    by (simp add: ok)
  have second: "fst (redeemVoucher c b ?w1) = Inl AlreadyRedeemed"
    by (rule redeemVoucher_rejects(2) [OF answered row]) simp
  show ?thesis
    using first second by (auto simp: redeem_twice_def split: prod.splits)
qed

lemma redeem_interleaved_both_commit:
  assumes ok: "db_fault w = (\<lambda>n. None)"
    and found: "find (\<lambda>v. v_code v = c) (vouchers w) = Some v"
    and active: "v_status v = ''active''"
    and fresh: "\<not> v_expires_at v < clock w"
  shows "fst (redeem_interleaved c a b w) =
           (Inr (v\<lparr>v_status := ''redeemed'', v_redeemed_at := Some (toISOString (clock w)),
                   v_redeemed_by := Some a\<rparr>, joined_user v w),
            Inr (v\<lparr>v_status := ''redeemed'', v_redeemed_at := Some (toISOString (clock w)),
                   v_redeemed_by := Some b\<rparr>, joined_user v w))"
  using assms
  by (simp add: redeem_interleaved_def redeem_until_update_def redeem_finish_def
        rethrow_logged_def bind_io_def select_voucher_by_code_def
        redeem_checks_def update_voucher_redeemed_def redeem_after_update_def db_call_runs
        return_io_def throw_io_def date_now_def auditLog_eq updateUserLoyalty_redemption
        joined_user_def
        split: option.splits)

lemma world_vouchers_valid:
  "db_fault world_vouchers = (\<lambda>n. None)"
  "find (\<lambda>v. v_code v = ''PR000000000004'') (vouchers world_vouchers)
     = Some (sample_voucher 4 ''PR000000000004'' ''active'' 99000000)"
  "v_status (sample_voucher 4 ''PR000000000004'' ''active'' 99000000) = ''active''"
  "\<not> v_expires_at (sample_voucher 4 ''PR000000000004'' ''active'' 99000000)
       < clock world_vouchers"
  by (simp_all add: world_vouchers_def world0_def sample_voucher_def)

subsection \<open>Repeated failed logins\<close>

lemma login_failed_step:
  assumes ok: "db_fault w = (\<lambda>n. None)"
    and ev: "e_action ev = ''login_failed''" "e_ip_address ev = Some ip" "ip \<noteq> []"
    and win: "text_less (toISOString (clock w - 3600000)) (sqlite_datetime (clock w))"
  shows "login_failed_since ip (toISOString (clock w - 3600000)) (audit_log (snd (auditLog ev w)))
           = Suc (login_failed_since ip (toISOString (clock w - 3600000)) (audit_log w))"
    and "length (brute_force_alerts (snd (auditLog ev w)))
           = length (brute_force_alerts w)
             + (if 9 \<le> login_failed_since ip (toISOString (clock w - 3600000)) (audit_log w)
                then 1 else 0)"
  using ev win
  by (simp_all add: auditLog_login_failed [OF ok ev] Let_def login_failed_since_def
        brute_force_alerts_def audit_row_of_def str_or_null_def brute_force_alert_def)

lemma record_all_Cons: "record_all (ev # evs) w = record_all evs (snd (auditLog ev w))"
  by (simp add: record_all_def)

text \<open>While the row just inserted passes the time filter of the query, \<open>k\<close> failed logins
  from one address raise the count by \<open>k\<close>, and every one of them that finds the count at
  10 or more adds an alert.\<close>

lemma login_failed_repeated:
  assumes ev: "e_action ev = ''login_failed''" "e_ip_address ev = Some ip" "ip \<noteq> []"
  shows "db_fault w = (\<lambda>n. None) \<Longrightarrow>
         text_less (toISOString (clock w - 3600000)) (sqlite_datetime (clock w)) \<Longrightarrow>
         length (brute_force_alerts (record_all (replicate k ev) w))
           = length (brute_force_alerts w)
             + ((login_failed_since ip (toISOString (clock w - 3600000)) (audit_log w) + k - 9)
                - (login_failed_since ip (toISOString (clock w - 3600000)) (audit_log w) - 9))"
proof (induction k arbitrary: w)
  case 0
  then show ?case by (simp add: record_all_def)
next
  case (Suc k)
  define w' where "w' = snd (auditLog ev w)"
  define c where "c = login_failed_since ip (toISOString (clock w - 3600000)) (audit_log w)"
  have same: "clock w' = clock w" "db_fault w' = db_fault w"
    by (simp_all add: w'_def)
  have cnt: "login_failed_since ip (toISOString (clock w - 3600000)) (audit_log w') = Suc c"
    and alerts: "length (brute_force_alerts w')
                   = length (brute_force_alerts w) + (if 9 \<le> c then 1 else 0)"
    using login_failed_step [OF Suc.prems(1) ev Suc.prems(2)] by (simp_all add: w'_def c_def)
  have "length (brute_force_alerts (record_all (replicate k ev) w'))
          = length (brute_force_alerts w')
            + ((login_failed_since ip (toISOString (clock w' - 3600000)) (audit_log w') + k - 9)
               - (login_failed_since ip (toISOString (clock w' - 3600000)) (audit_log w') - 9))"
    using Suc.prems by (intro Suc.IH) (simp_all add: same)
  then have "length (brute_force_alerts (record_all (replicate k ev) w'))
          = length (brute_force_alerts w) + (if 9 \<le> c then 1 else 0)
            + ((Suc c + k - 9) - (Suc c - 9))"
    by (simp add: same cnt alerts)
  moreover have "(if 9 \<le> c then 1 else 0) + ((Suc c + k - 9) - (Suc c - 9))
                   = (c + Suc k - 9) - (c - 9)"
    by (cases "9 \<le> c") simp_all
  ultimately show ?case
    by (simp add: record_all_Cons w'_def [symmetric] c_def [symmetric])
qed

lemma iso_0030_minus_hour: "toISOString 84600000 = ''1970-01-01T23:30:00.000Z''"
  by code_simp

lemma sqlite_0030: "sqlite_datetime 88200000 = ''1970-01-02 00:30:00''"
  by code_simp

lemma iso_0030: "toISOString 88200000 = ''1970-01-02T00:30:00.000Z''"
  by code_simp


text \<open>The time filter compares the \<open>created_at\<close> text of SQLite with an ISO text. When the
  row just inserted does not pass it, the failed login is not counted: neither the count
  nor the alerts change, however many failures follow.\<close>

lemma login_failed_step_outside:
  assumes ok: "db_fault w = (\<lambda>n. None)"
    and ev: "e_action ev = ''login_failed''" "e_ip_address ev = Some ip" "ip \<noteq> []"
    and out: "\<not> text_less (toISOString (clock w - 3600000)) (sqlite_datetime (clock w))"
    and few: "login_failed_since ip (toISOString (clock w - 3600000)) (audit_log w) < 10"
  shows "login_failed_since ip (toISOString (clock w - 3600000)) (audit_log (snd (auditLog ev w)))
           = login_failed_since ip (toISOString (clock w - 3600000)) (audit_log w)"
    and "brute_force_alerts (snd (auditLog ev w)) = brute_force_alerts w"
  using ev out few
  by (simp_all add: auditLog_login_failed [OF ok ev] Let_def login_failed_since_def
        brute_force_alerts_def audit_row_of_def str_or_null_def brute_force_alert_def)

lemma login_failed_repeated_outside:
  assumes ev: "e_action ev = ''login_failed''" "e_ip_address ev = Some ip" "ip \<noteq> []"
  shows "db_fault w = (\<lambda>n. None) \<Longrightarrow>
         \<not> text_less (toISOString (clock w - 3600000)) (sqlite_datetime (clock w)) \<Longrightarrow>
         login_failed_since ip (toISOString (clock w - 3600000)) (audit_log w) < 10 \<Longrightarrow>
         brute_force_alerts (record_all (replicate k ev) w) = brute_force_alerts w"
proof (induction k arbitrary: w)
  case 0
  then show ?case by (simp add: record_all_def)
next
  case (Suc k)
  define w' where "w' = snd (auditLog ev w)"
  have same: "clock w' = clock w" "db_fault w' = db_fault w"
    by (simp_all add: w'_def)
  have cnt: "login_failed_since ip (toISOString (clock w - 3600000)) (audit_log w')
               = login_failed_since ip (toISOString (clock w - 3600000)) (audit_log w)"
    and alerts: "brute_force_alerts w' = brute_force_alerts w"
    using login_failed_step_outside [OF Suc.prems(1) ev Suc.prems(2,3)]
    by (simp_all add: w'_def)
  have "brute_force_alerts (record_all (replicate k ev) w') = brute_force_alerts w'"
    using Suc.prems by (intro Suc.IH) (simp_all add: same cnt)
  then show ?case
    by (simp add: record_all_Cons w'_def [symmetric] alerts)
qed

lemma iso_1100: "toISOString 126000000 = ''1970-01-02T11:00:00.000Z''"
  by code_simp

lemma sqlite_1200: "sqlite_datetime 129600000 = ''1970-01-02 12:00:00''"
  by code_simp

text \<open>Twelve failed logins from one address at noon: no alert.\<close>

lemma twelve_failures_at_noon:
  "brute_force_alerts (record_all (replicate 12 (login_failed_event ''203.0.113.5''))
                         (world0\<lparr>clock := 129600000\<rparr>)) = []"
proof -
  have "brute_force_alerts (record_all (replicate 12 (login_failed_event ''203.0.113.5''))
                         (world0\<lparr>clock := 129600000\<rparr>))
          = brute_force_alerts (world0\<lparr>clock := 129600000\<rparr>)"
    by (rule login_failed_repeated_outside [where ip = "''203.0.113.5''"])
       (simp_all add: login_failed_event_def world0_def iso_1100 sqlite_1200
          login_failed_since_def)
  then show ?thesis by (simp add: brute_force_alerts_def world0_def)
qed

subsection \<open>The status codes of the redemption route\<close>

lemma redeem_error_statuses:
  "r_status (redeem_error_response ''Voucher not found'') = 404"
  "r_status (redeem_error_response ''Voucher already redeemed'') = 409"
  "r_status (redeem_error_response ''Voucher expired'') = 410"
  "r_status (redeem_error_response ''Voucher not active'') = 400"
  by (simp_all add: redeem_error_response_def)

lemma post_redeem_status:
  "fst (redeemVoucher c s w) = Inl e \<Longrightarrow>
   r_status (fst (post_redeem c s w)) = r_status (redeem_error_response (message e))"
  by (cases "redeemVoucher c s w") (simp add: post_redeem_def)

section \<open>What holds after every sequence of requests\<close>

subsection \<open>Invariants\<close>

lemma preservesD: "preserves I m \<Longrightarrow> I w \<Longrightarrow> I (snd (m w))"
  by (simp add: preserves_def)

lemma preserves_return: "preserves I (return_io x)"
  by (simp add: preserves_def return_io_def)

lemma preserves_throw: "preserves I (throw_io e)"
  by (simp add: preserves_def throw_io_def)

lemma preserves_date_now: "preserves I date_now"
  by (simp add: preserves_def date_now_def)

lemma preserves_bind:
  assumes "preserves I m" and "\<And>x. preserves I (g x)"
  shows "preserves I (bind_io m g)"
  unfolding preserves_def
proof (intro allI impI)
  fix w assume "I w"
  then have 1: "I (snd (m w))" using assms(1) by (simp add: preserves_def)
  show "I (snd (bind_io m g w))"
  proof (cases "m w")
    case (Pair r w1)
    then show ?thesis
      using 1 assms(2) by (cases r) (simp_all add: bind_io_def preserves_def)
  qed
qed

lemma preserves_rethrow:
  assumes "preserves I m" and "\<And>w c. I (w\<lparr>console := c\<rparr>) = I w"
  shows "preserves I (rethrow_logged l m)"
  unfolding preserves_def
proof (intro allI impI)
  fix w assume "I w"
  then have 1: "I (snd (m w))" using assms(1) by (simp add: preserves_def)
  show "I (snd (rethrow_logged l m w))"
  proof (cases "m w")
    case (Pair r w1)
    then show ?thesis
      using 1 assms(2) by (cases r) (simp_all add: rethrow_logged_def console_error_def)
  qed
qed

lemma preserves_db_call:
  assumes "preserves I stmt" and "\<And>w n. I (w\<lparr>db_calls := n\<rparr>) = I w"
  shows "preserves I (db_call stmt)"
  using assms by (auto simp: preserves_def db_call_def Let_def split: option.splits)

lemma preserves_if: "preserves I a \<Longrightarrow> preserves I b \<Longrightarrow> preserves I (if c then a else b)"
  by simp

lemma preserves_case_option:
  "preserves I a \<Longrightarrow> (\<And>x. preserves I (b x)) \<Longrightarrow>
   preserves I (case v of None \<Rightarrow> a | Some x \<Rightarrow> b x)"
  by (cases v) simp_all

lemma preserves_let: "(\<And>x. preserves I (b x)) \<Longrightarrow> preserves I (let x = v in b x)"
  by simp

lemma preserves_case_prod:
  "(\<And>a b. preserves I (g a b)) \<Longrightarrow> preserves I (case p of (a, b) \<Rightarrow> g a b)"
  by (cases p) simp

lemma keeps_preserves:
  assumes "keeps f m" and "\<And>w w'. f w' = f w \<Longrightarrow> I w \<Longrightarrow> I w'"
  shows "preserves I m"
  unfolding preserves_def
proof (intro allI impI)
  fix w assume "I w"
  moreover have "f (snd (m w)) = f w" using assms(1) by (simp add: keeps_def)
  ultimately show "I (snd (m w))" by (rule assms(2) [rotated])
qed

subsection \<open>A redeemed code stays redeemed\<close>

lemma redeemed_in_append: "redeemed_in c vs \<Longrightarrow> redeemed_in c (vs @ ws)"
  by (induction vs) (auto simp: redeemed_in_def)

lemma redeemed_in_map: "redeemed_in c vs \<Longrightarrow> redeemed_in c (map (set_redeemed s at i) vs)"
  by (induction vs) (auto simp: redeemed_in_def set_redeemed_def)

lemma code_redeemed_updates [simp]:
  "code_redeemed c (w\<lparr>console := co\<rparr>) = code_redeemed c w"
  "code_redeemed c (w\<lparr>db_calls := n\<rparr>) = code_redeemed c w"
  "code_redeemed c (w\<lparr>users := us\<rparr>) = code_redeemed c w"
  "code_redeemed c (w\<lparr>staff := st\<rparr>) = code_redeemed c w"
  "code_redeemed c (w\<lparr>draws := n\<rparr>) = code_redeemed c w"
  "code_redeemed c (w\<lparr>clock := t\<rparr>) = code_redeemed c w"
  by (simp_all add: code_redeemed_def)

lemma cr_auditLog: "preserves (code_redeemed c) (auditLog ev)"
  by (rule keeps_preserves [OF keeps_auditLog]) (simp add: audit_frame_def code_redeemed_def)

lemma cr_reading:
  "preserves (code_redeemed c) (select_user uid)"
  "preserves (code_redeemed c) (select_staff sid)"
  "preserves (code_redeemed c) (select_staff_by_email email)"
  "preserves (code_redeemed c) (select_voucher_by_code c')"
  "preserves (code_redeemed c) (select_voucher_by_id vid)"
  "preserves (code_redeemed c) (generateVoucherCode ty)"
  "preserves (code_redeemed c) (toDataURL payload)"
  "preserves (code_redeemed c) (JsBarcode c')"
  by (simp_all add: preserves_def select_user_def select_staff_def select_staff_by_email_def
        select_voucher_by_code_def select_voucher_by_id_def generateVoucherCode_def
        toDataURL_def JsBarcode_def db_call_def Let_def split: option.splits sum.splits)

lemma cr_writing:
  "preserves (code_redeemed c) (update_user_loyalty cnt tier uid)"
  "preserves (code_redeemed c) (update_staff_voucher_used today sid)"
  "preserves (code_redeemed c) (update_staff_reset_flag sid)"
  "preserves (code_redeemed c) (update_voucher_status st vid)"
  by (simp_all add: preserves_def update_user_loyalty_def update_staff_voucher_used_def
        update_staff_reset_flag_def update_voucher_status_def throw_io_def
        db_call_def Let_def split: option.splits)

lemma cr_insert_voucher: "preserves (code_redeemed c) (insert_voucher v)"
  by (simp add: preserves_def insert_voucher_def db_call_def Let_def code_redeemed_def
        redeemed_in_append split: option.splits)

lemma cr_update_voucher_redeemed: "preserves (code_redeemed c) (update_voucher_redeemed s vid)"
  by (simp add: preserves_def update_voucher_redeemed_def db_call_def Let_def code_redeemed_def
        redeemed_in_map split: option.splits)

lemmas cr_rules =
  preserves_bind preserves_rethrow preserves_if preserves_case_option preserves_let
  preserves_case_prod preserves_return preserves_throw preserves_date_now
  cr_auditLog cr_reading cr_writing cr_insert_voucher cr_update_voucher_redeemed
  code_redeemed_updates

lemma cr_expires_at_of: "preserves (code_redeemed c) (expires_at_of h)"
  unfolding expires_at_of_def by (intro cr_rules)

lemma cr_createVoucher: "preserves (code_redeemed c) (createVoucher d)"
  unfolding createVoucher_def generateQRCode_def generateBarcode_def
  by (intro cr_rules cr_expires_at_of)

lemma cr_createVoucher_untitled:
  "preserves (code_redeemed c) (createVoucher_untitled site_id ty hours)"
  unfolding createVoucher_untitled_def insert_untitled_voucher_def generateBarcode_def
  by (intro cr_rules cr_expires_at_of preserves_db_call)

lemma cr_createLoyaltyReward: "preserves (code_redeemed c) (createLoyaltyReward uid tier visits)"
  unfolding createLoyaltyReward_def
  by (intro cr_rules cr_createVoucher cr_createVoucher_untitled)

lemma cr_updateUserLoyalty: "preserves (code_redeemed c) (updateUserLoyalty uid action)"
  unfolding updateUserLoyalty_def by (intro cr_rules cr_createLoyaltyReward)

lemma cr_redeem_after_update: "preserves (code_redeemed c) (redeem_after_update found s)"
  unfolding redeem_after_update_def by (intro cr_rules cr_updateUserLoyalty)

lemma cr_redeemVoucher: "preserves (code_redeemed c) (redeemVoucher c' s)"
  unfolding redeemVoucher_def redeem_checks_def
  by (intro cr_rules cr_redeem_after_update)

lemma cr_createStaffWiFiVoucher: "preserves (code_redeemed c) (createStaffWiFiVoucher sid)"
  unfolding createStaffWiFiVoucher_def by (intro cr_rules cr_createVoucher)

lemma cr_staff_wifi_override_handler:
  "preserves (code_redeemed c) (staff_wifi_override_handler email reason mgr)"
  unfolding staff_wifi_override_handler_def by (intro cr_rules cr_createStaffWiFiVoucher)

lemma cr_voucher_status_handler:
  "preserves (code_redeemed c) (voucher_status_handler vid st reason mgr)"
  unfolding voucher_status_handler_def by (intro cr_rules)

lemma perform_code_redeemed:
  assumes "code_redeemed c w"
  shows "code_redeemed c (perform r w)"
proof (cases r)
  case (OverrideDailyLimit email reason mgr)
  have "code_redeemed c (snd (staff_wifi_override_handler email reason mgr w))"
    using cr_staff_wifi_override_handler assms by (rule preservesD)
  then show ?thesis
    by (cases "staff_wifi_override_handler email reason mgr w")
       (auto simp: OverrideDailyLimit post_staff_wifi_override_def console_error_def
          split: sum.splits)
next
  case (ChangeStatus vid st reason mgr)
  have "code_redeemed c (snd (voucher_status_handler vid st reason mgr w))"
    using cr_voucher_status_handler assms by (rule preservesD)
  then show ?thesis
    by (cases "voucher_status_handler vid st reason mgr w")
       (auto simp: ChangeStatus patch_voucher_status_def console_error_def
          split: sum.splits)
qed (use assms in \<open>simp_all add: preservesD cr_redeemVoucher cr_createStaffWiFiVoucher
      cr_createVoucher cr_createLoyaltyReward cr_updateUserLoyalty cr_auditLog\<close>)

lemma run_Cons: "run (r # rs) w = run rs (perform r w)"
  by (simp add: run_def)

lemma run_code_redeemed: "code_redeemed c w \<Longrightarrow> code_redeemed c (run rs w)"
  by (induction rs arbitrary: w) (simp_all add: run_def perform_code_redeemed)

subsection \<open>A successful redemption marks the voucher\<close>

lemma bind_io_InrD:
  "bind_io m f w = (Inr r, w') \<Longrightarrow> \<exists>x w1. m w = (Inr x, w1) \<and> f x w1 = (Inr r, w')"
  by (auto simp: bind_io_def split: prod.splits sum.splits)

lemma rethrow_logged_InrD: "rethrow_logged l m w = (Inr r, w') \<Longrightarrow> m w = (Inr r, w')"
  by (auto simp: rethrow_logged_def split: prod.splits sum.splits)

lemma db_call_InrD:
  "db_call stmt w = (Inr x, w') \<Longrightarrow> stmt (w\<lparr>db_calls := Suc (db_calls w)\<rparr>) = (Inr x, w')"
  by (auto simp: db_call_def Let_def split: option.splits)

lemma redeem_checks_InrD:
  "redeem_checks row w = (Inr found, w') \<Longrightarrow> row = Some found \<and> w' = w"
  by (auto simp: redeem_checks_def throw_io_def return_io_def bind_io_def date_now_def
        split: option.splits if_splits)

lemma select_voucher_by_code_InrD:
  "select_voucher_by_code c w = (Inr (Some (v, j)), w') \<Longrightarrow>
   find (\<lambda>v. v_code v = c) (vouchers w) = Some v \<and> vouchers w' = vouchers w"
  by (auto simp: select_voucher_by_code_def dest!: db_call_InrD split: option.splits)

lemma update_voucher_redeemed_InrD:
  "update_voucher_redeemed s vid w = (Inr u, w') \<Longrightarrow>
   \<exists>at. vouchers w' = map (set_redeemed s at vid) (vouchers w)"
  by (auto simp: update_voucher_redeemed_def dest!: db_call_InrD)

lemma redeemVoucher_marks:
  assumes "redeemVoucher c s w = (Inr r, w')"
  shows "code_redeemed c w'"
proof -
  from assms obtain row w1 found w2 u w3
    where sel: "select_voucher_by_code c w = (Inr row, w1)"
      and chk: "redeem_checks row w1 = (Inr found, w2)"
      and upd: "update_voucher_redeemed s (v_id (fst found)) w2 = (Inr u, w3)"
      and fin: "redeem_after_update found s w3 = (Inr r, w')"
    unfolding redeemVoucher_def
    by (blast dest: rethrow_logged_InrD bind_io_InrD)
  obtain v j where found: "found = (v, j)" by (cases found)
  from chk have row: "row = Some (v, j)" and w2: "w2 = w1"
    using redeem_checks_InrD [OF chk] by (simp_all add: found)
  from sel have first: "find (\<lambda>v. v_code v = c) (vouchers w1) = Some v"
    using select_voucher_by_code_InrD [of c w v j w1] by (simp add: row)
  from upd obtain at where "vouchers w3 = map (set_redeemed s at (v_id v)) (vouchers w1)"
    using update_voucher_redeemed_InrD [OF upd] by (auto simp: found w2)
  then have "code_redeemed c w3"
    using find_map_set_redeemed [OF first, of s at] by (simp add: code_redeemed_def redeemed_in_def)
  then have "code_redeemed c (snd (redeem_after_update found s w3))"
    by (rule preservesD [OF cr_redeem_after_update])
  then show ?thesis by (simp add: fin)
qed

lemma redeemVoucher_of_redeemed:
  assumes "code_redeemed c w"
  shows "fst (redeemVoucher c s w) \<noteq> Inr x"
    and "db_fault w (db_calls w) = None \<Longrightarrow> fst (redeemVoucher c s w) = Inl AlreadyRedeemed"
proof -
  from assms obtain v where row: "find (\<lambda>v. v_code v = c) (vouchers w) = Some v"
    and red: "v_status v = ''redeemed''"
    by (auto simp: code_redeemed_def redeemed_in_def split: option.splits)
  show answered: "fst (redeemVoucher c s w) = Inl AlreadyRedeemed"
    if "db_fault w (db_calls w) = None"
    by (rule redeemVoucher_rejects(2) [OF that row red])
  show "fst (redeemVoucher c s w) \<noteq> Inr x"
  proof (cases "db_fault w (db_calls w)")
    case None
    then show ?thesis by (simp add: answered)
  next
    case (Some m)
    then show ?thesis
      by (simp add: redeemVoucher_def rethrow_logged_def bind_io_def select_voucher_by_code_def
            db_call_fails)
  qed
qed

lemma post_redeem_already:
  "fst (redeemVoucher c s w) = Inl AlreadyRedeemed \<Longrightarrow>
   r_status (fst (post_redeem c s w)) = 409"
  by (simp add: post_redeem_status redeem_error_statuses)

subsection \<open>The environment of a request\<close>

lemma staff_to_env: "staff_frame w = staff_frame w' \<Longrightarrow> env_frame w = env_frame w'"
  by (simp add: staff_frame_def)

lemma users_to_env: "users_frame w = users_frame w' \<Longrightarrow> env_frame w = env_frame w'"
  by (simp add: users_frame_def)

lemma keeps_select_voucher_by_id:
  "(\<And>w n. f (w\<lparr>db_calls := n\<rparr>) = f w) \<Longrightarrow> keeps f (select_voucher_by_id vid)"
  unfolding select_voucher_by_id_def
  by (rule keeps_db_call) (simp_all add: keeps_def)

lemma keeps_update_voucher_status:
  "(\<And>w n. f (w\<lparr>db_calls := n\<rparr>) = f w) \<Longrightarrow> keeps f (update_voucher_status st vid)"
  unfolding update_voucher_status_def
  by (rule keeps_db_call) (simp_all add: keeps_throw)

lemma keeps_people_voucher_status_handler:
  "keeps people_frame (voucher_status_handler vid st reason mgr)"
  unfolding voucher_status_handler_def
  by (intro keeps_bind keeps_case_option keeps_if keeps_return keeps_select_voucher_by_id
        keeps_update_voucher_status keeps_people_auditLog people_frame_db_calls)

lemma people_frame_patch_voucher_status:
  "people_frame (snd (patch_voucher_status vid st reason mgr w)) = people_frame w"
  using keepsD [OF keeps_people_voucher_status_handler, of vid st reason mgr w]
  by (cases "voucher_status_handler vid st reason mgr w")
     (auto simp: patch_voucher_status_def console_error_def split: sum.splits)

lemma keeps_select_staff_by_email:
  "(\<And>w n. f (w\<lparr>db_calls := n\<rparr>) = f w) \<Longrightarrow> keeps f (select_staff_by_email email)"
  unfolding select_staff_by_email_def
  by (rule keeps_db_call) (simp_all add: keeps_def)

lemma keeps_users_update_staff_reset_flag: "keeps users_frame (update_staff_reset_flag sid)"
  unfolding update_staff_reset_flag_def
  by (rule keeps_db_call) (simp_all add: keeps_def users_frame_def env_frame_def)

lemma keeps_users_auditLog: "keeps users_frame (auditLog ev)"
  by (rule keeps_weaken [OF keeps_people_auditLog]) (rule people_to_users)

lemma keeps_users_staff_wifi_override_handler:
  "keeps users_frame (staff_wifi_override_handler email reason mgr)"
  unfolding staff_wifi_override_handler_def
  by (intro keeps_bind keeps_case_option keeps_return keeps_select_staff_by_email
        keeps_users_update_staff_reset_flag keeps_users_createStaffWiFiVoucher
        keeps_users_auditLog users_frame_db_calls)

lemma users_frame_post_staff_wifi_override:
  "users_frame (snd (post_staff_wifi_override email reason mgr w)) = users_frame w"
  using keepsD [OF keeps_users_staff_wifi_override_handler, of email reason mgr w]
  by (cases "staff_wifi_override_handler email reason mgr w")
     (auto simp: post_staff_wifi_override_def console_error_def split: sum.splits)

text \<open>No request changes the faults of the store, the random source or the encoders, and
  only the passing of time changes the clock.\<close>

lemma perform_env:
  "db_fault (perform r w) = db_fault w \<and> entropy (perform r w) = entropy w
   \<and> qr_render (perform r w) = qr_render w \<and> barcode_render (perform r w) = barcode_render w
   \<and> clock (perform r w) = (case r of Tick t \<Rightarrow> t | _ \<Rightarrow> clock w)"
proof (cases r)
  case (Redeem c s)
  show ?thesis
    using keepsD [OF keeps_staff_redeemVoucher, of c s w]
    by (simp add: Redeem staff_frame_def env_frame_def)
next
  case (IssueStaffVoucher sid)
  show ?thesis
    using keepsD [OF keeps_users_createStaffWiFiVoucher, of sid w]
    by (simp add: IssueStaffVoucher users_frame_def env_frame_def)
next
  case (OverrideDailyLimit email reason mgr)
  show ?thesis
    using users_frame_post_staff_wifi_override [of email reason mgr w]
    by (simp add: OverrideDailyLimit users_frame_def env_frame_def)
next
  case (ChangeStatus vid st reason mgr)
  show ?thesis
    using people_frame_patch_voucher_status [of vid st reason mgr w]
    by (simp add: ChangeStatus people_frame_def env_frame_def)
next
  case (CreateVoucher d)
  show ?thesis
    using keepsD [OF keeps_people_createVoucher, of d w]
    by (simp add: CreateVoucher people_frame_def env_frame_def)
next
  case (CreateLoyaltyReward uid tier visits)
  show ?thesis
    using keepsD [OF keeps_people_createLoyaltyReward, of uid tier visits w]
    by (simp add: CreateLoyaltyReward people_frame_def env_frame_def)
next
  case (UpdateUserLoyalty uid action)
  show ?thesis
    using keepsD [OF keeps_staff_updateUserLoyalty, of uid action w]
    by (simp add: UpdateUserLoyalty staff_frame_def env_frame_def)
next
  case (AuditLog ev)
  show ?thesis
    using keepsD [OF keeps_auditLog, of ev w]
    by (simp add: AuditLog audit_frame_def)
next
  case (Tick t)
  show ?thesis by (simp add: Tick)
qed

lemma perform_db_fault [simp]: "db_fault (perform r w) = db_fault w"
  and perform_entropy [simp]: "entropy (perform r w) = entropy w"
  and perform_qr_render [simp]: "qr_render (perform r w) = qr_render w"
  and perform_barcode_render [simp]: "barcode_render (perform r w) = barcode_render w"
  using perform_env [of r w] by simp_all

lemma run_db_fault [simp]: "db_fault (run rs w) = db_fault w"
  by (induction rs arbitrary: w) (simp_all add: run_def)

lemma run_encoders_work [simp]: "encoders_work (run rs w) = encoders_work w"
  by (induction rs arbitrary: w) (simp_all add: run_def encoders_work_def)

subsection \<open>The day's staff voucher\<close>

lemma createStaffWiFiVoucher_clock [simp]:
  "clock (snd (createStaffWiFiVoucher sid w)) = clock w"
  and createStaffWiFiVoucher_db_fault [simp]:
  "db_fault (snd (createStaffWiFiVoucher sid w)) = db_fault w"
  and createStaffWiFiVoucher_entropy [simp]:
  "entropy (snd (createStaffWiFiVoucher sid w)) = entropy w"
  and createStaffWiFiVoucher_encoders [simp]:
  "encoders_work (snd (createStaffWiFiVoucher sid w)) = encoders_work w"
  using keepsD [OF keeps_users_createStaffWiFiVoucher, of sid w]
  by (simp_all add: users_frame_def env_frame_def encoders_work_def)

lemma used_today_frame:
  "staff w' = staff w \<Longrightarrow> clock w' = clock w \<Longrightarrow> used_today sid w' = used_today sid w"
  by (simp add: used_today_def cong: option.case_cong)

lemma createStaffWiFiVoucher_marks:
  assumes "createStaffWiFiVoucher sid w = (Inr v, w1)"
  shows "used_today sid w1" and "clock w1 = clock w"
proof -
  show clock: "clock w1 = clock w"
    using createStaffWiFiVoucher_clock [of sid w] by (simp add: assms)
  from createStaffWiFiVoucher_staff [of sid w]
  have staff: "staff w1 = map (set_voucher_used (iso_date (clock w)) sid) (staff w)"
    and "find (\<lambda>s. s_id s = sid) (staff w) \<noteq> None"
    by (simp_all add: assms)
  then obtain member where "find (\<lambda>s. s_id s = sid) (staff w) = Some member" by blast
  from find_map_set_voucher_used [OF this, of "iso_date (clock w)"]
  show "used_today sid w1"
    by (simp add: used_today_def staff clock)
qed

lemma createStaffWiFiVoucher_used_today:
  assumes "used_today sid w"
  shows "used_today sid (snd (createStaffWiFiVoucher sid' w))"
proof (cases "fst (createStaffWiFiVoucher sid' w)")
  case (Inl e)
  then have "staff (snd (createStaffWiFiVoucher sid' w)) = staff w"
    using createStaffWiFiVoucher_staff [of sid' w] by simp
  then have "used_today sid (snd (createStaffWiFiVoucher sid' w)) = used_today sid w"
    by (rule used_today_frame) simp
  then show ?thesis using assms by simp
next
  case (Inr v)
  then have staff: "staff (snd (createStaffWiFiVoucher sid' w))
        = map (set_voucher_used (iso_date (clock w)) sid') (staff w)"
    using createStaffWiFiVoucher_staff [of sid' w] by simp
  from assms obtain member where found: "find (\<lambda>s. s_id s = sid) (staff w) = Some member"
    and used: "s_daily_voucher_used member" "s_last_voucher_date member = Some (iso_date (clock w))"
    by (auto simp: used_today_def split: option.splits)
  show ?thesis
  proof (cases "sid' = sid")
    case True
    then show ?thesis
      using find_map_set_voucher_used [OF found, of "iso_date (clock w)"] staff
      by (simp add: used_today_def)
  next
    case False
    then show ?thesis
      using find_map_set_voucher_used_other [of sid' sid "iso_date (clock w)" "staff w"]
        found used staff
      by (simp add: used_today_def)
  qed
qed

lemma perform_staff:
  "staff (perform (Redeem c s) w) = staff w"
  "staff (perform (ChangeStatus vid st reason mgr) w) = staff w"
  "staff (perform (CreateVoucher d) w) = staff w"
  "staff (perform (CreateLoyaltyReward uid tier visits) w) = staff w"
  "staff (perform (UpdateUserLoyalty uid action) w) = staff w"
  "staff (perform (AuditLog ev) w) = staff w"
  using keepsD [OF keeps_staff_redeemVoucher, of c s w]
    people_frame_patch_voucher_status [of vid st reason mgr w]
    keepsD [OF keeps_people_createVoucher, of d w]
    keepsD [OF keeps_people_createLoyaltyReward, of uid tier visits w]
    keepsD [OF keeps_staff_updateUserLoyalty, of uid action w]
    keepsD [OF keeps_auditLog, of ev w]
  by (simp_all add: staff_frame_def people_frame_def audit_frame_def)

lemma perform_clock:
  "clock (perform r w) = (case r of Tick t \<Rightarrow> t | _ \<Rightarrow> clock w)"
  using perform_env [of r w] by simp

lemma perform_used_today:
  assumes "within_day d r" and "used_today sid w \<and> iso_date (clock w) = d"
  shows "used_today sid (perform r w) \<and> iso_date (clock (perform r w)) = d"
proof (cases r)
  case (IssueStaffVoucher sid')
  then show ?thesis
    using assms createStaffWiFiVoucher_used_today [of sid w sid'] by simp
next
  case (OverrideDailyLimit email reason mgr)
  then show ?thesis using assms by simp
next
  case (Tick t)
  then show ?thesis using assms by (auto simp: used_today_def split: option.splits)
next
  case (Redeem c s)
  have "used_today sid (perform r w) = used_today sid w"
    unfolding Redeem by (rule used_today_frame) (simp_all only: perform_staff perform_clock request.case)
  then show ?thesis using assms by (simp add: Redeem perform_clock del: perform.simps)
next
  case (ChangeStatus vid st reason mgr)
  have "used_today sid (perform r w) = used_today sid w"
    unfolding ChangeStatus
    by (rule used_today_frame) (simp_all only: perform_staff perform_clock request.case)
  then show ?thesis using assms by (simp add: ChangeStatus perform_clock del: perform.simps)
next
  case (CreateVoucher dat)
  have "used_today sid (perform r w) = used_today sid w"
    unfolding CreateVoucher
    by (rule used_today_frame) (simp_all only: perform_staff perform_clock request.case)
  then show ?thesis using assms by (simp add: CreateVoucher perform_clock del: perform.simps)
next
  case (CreateLoyaltyReward uid tier visits)
  have "used_today sid (perform r w) = used_today sid w"
    unfolding CreateLoyaltyReward
    by (rule used_today_frame) (simp_all only: perform_staff perform_clock request.case)
  then show ?thesis
    using assms by (simp add: CreateLoyaltyReward perform_clock del: perform.simps)
next
  case (UpdateUserLoyalty uid action)
  have "used_today sid (perform r w) = used_today sid w"
    unfolding UpdateUserLoyalty
    by (rule used_today_frame) (simp_all only: perform_staff perform_clock request.case)
  then show ?thesis
    using assms by (simp add: UpdateUserLoyalty perform_clock del: perform.simps)
next
  case (AuditLog ev)
  have "used_today sid (perform r w) = used_today sid w"
    unfolding AuditLog
    by (rule used_today_frame) (simp_all only: perform_staff perform_clock request.case)
  then show ?thesis using assms by (simp add: AuditLog perform_clock del: perform.simps)
qed

lemma run_used_today:
  "list_all (within_day d) rs \<Longrightarrow> used_today sid w \<and> iso_date (clock w) = d \<Longrightarrow>
   used_today sid (run rs w) \<and> iso_date (clock (run rs w)) = d"
proof (induction rs arbitrary: w)
  case Nil
  then show ?case by (simp add: run_def)
next
  case (Cons r rs)
  from Cons.prems have "used_today sid (perform r w) \<and> iso_date (clock (perform r w)) = d"
    by (intro perform_used_today) simp_all
  with Cons.prems show ?case
    using Cons.IH [of "perform r w"] by (simp add: run_Cons)
qed

lemma createStaffWiFiVoucher_of_used:
  assumes "used_today sid w"
  shows "fst (createStaffWiFiVoucher sid w) \<noteq> Inr x"
    and "db_fault w (db_calls w) = None \<Longrightarrow>
           fst (createStaffWiFiVoucher sid w) = Inl DailyLimitReached"
proof -
  from assms obtain member where found: "find (\<lambda>s. s_id s = sid) (staff w) = Some member"
    and used: "s_last_voucher_date member = Some (iso_date (clock w))" "s_daily_voucher_used member"
    by (auto simp: used_today_def split: option.splits)
  show answered: "fst (createStaffWiFiVoucher sid w) = Inl DailyLimitReached"
    if "db_fault w (db_calls w) = None"
    by (rule createStaffWiFiVoucher_limit [OF that found used])
  show "fst (createStaffWiFiVoucher sid w) \<noteq> Inr x"
  proof (cases "db_fault w (db_calls w)")
    case None
    then show ?thesis by (simp add: answered)
  next
    case (Some m)
    then show ?thesis
      by (simp add: createStaffWiFiVoucher_def rethrow_logged_def bind_io_def select_staff_def
            db_call_fails)
  qed
qed

lemma post_staff_wifi_limit:
  "fst (createStaffWiFiVoucher sid w) = Inl DailyLimitReached \<Longrightarrow>
   r_status (fst (post_staff_wifi sid w)) = 409"
  by (cases "createStaffWiFiVoucher sid w") (simp add: post_staff_wifi_def)

subsection \<open>The manager's override\<close>

lemma find_map_reset_flag:
  "find (\<lambda>s. s_id s = sid) xs = Some member \<Longrightarrow>
   find (\<lambda>s. s_id s = sid) (map (reset_flag sid) xs)
     = Some (member\<lparr>s_daily_voucher_used := False\<rparr>)"
  by (induction xs) (auto simp: reset_flag_def)

lemma find_by_id_of_found:
  "find P xs = Some (t :: staff_member) \<Longrightarrow> \<exists>m. find (\<lambda>s. s_id s = s_id t) xs = Some m"
  by (induction xs) (auto split: if_splits)

lemma createStaffWiFiVoucher_issues:
  assumes ok: "db_fault w = (\<lambda>n. None)" and enc: "encoders_work w"
    and time: "valid_time (clock w + 86400000)"
    and found: "find (\<lambda>s. s_id s = sid) (staff w) = Some member"
    and allowed: "\<not> (s_last_voucher_date member = Some (iso_date (clock w))
                     \<and> s_daily_voucher_used member)"
    and fresh: "next_code ''staff_wifi'' w \<notin> set (map v_code (vouchers w))"
  shows "\<exists>v. fst (createStaffWiFiVoucher sid w) = Inr v
            \<and> vouchers (snd (createStaffWiFiVoucher sid w)) = vouchers w @ [v]
            \<and> draws (snd (createStaffWiFiVoucher sid w)) = Suc (draws w)
            \<and> v_code v = next_code ''staff_wifi'' w"
proof -
  let ?w1 = "w\<lparr>db_calls := Suc (db_calls w)\<rparr>"
  let ?d = "staff_wifi_data member sid"
  have "\<exists>v. fst (createVoucher ?d ?w1) = Inr v
           \<and> vouchers (snd (createVoucher ?d ?w1)) = vouchers ?w1 @ [v]
           \<and> v_code v = next_code (d_type ?d) ?w1 \<and> v_status v = ''active''
           \<and> v_type v = d_type ?d \<and> v_user_id v = d_user_id ?d
           \<and> v_expires_at v = clock ?w1 + validity_ms ?d"
    using ok enc time fresh
    by (intro createVoucher_ok)
       (simp_all add: staff_wifi_data_def validity_ms_def encoders_work_def next_code_def)
  then obtain v where v: "fst (createVoucher ?d ?w1) = Inr v"
      "vouchers (snd (createVoucher ?d ?w1)) = vouchers w @ [v]"
      "v_code v = next_code ''staff_wifi'' w"
    by (auto simp: staff_wifi_data_def next_code_def)
  define w2 where "w2 = snd (createVoucher ?d ?w1)"
  have cv: "createVoucher ?d ?w1 = (Inr v, w2)"
    using v(1) by (cases "createVoucher ?d ?w1") (simp add: w2_def)
  have w2: "db_fault w2 = (\<lambda>n. None)" "vouchers w2 = vouchers w @ [v]"
      "draws w2 = Suc (draws w)"
    using ok v(2) createVoucher_draws [of ?d ?w1] by (simp_all add: w2_def createVoucher_frame)
  have "createStaffWiFiVoucher sid w =
          (Inr v, w2\<lparr>db_calls := Suc (db_calls w2),
                     staff := map (set_voucher_used (iso_date (clock w)) sid) (staff w2)\<rparr>)"
    using ok found allowed cv w2(1)
    by (auto simp: createStaffWiFiVoucher_unfold)
  then show ?thesis using v(3) w2 by simp
qed

lemma createStaffWiFiVoucher_limit_world:
  assumes "db_fault w (db_calls w) = None"
    and "find (\<lambda>s. s_id s = sid) (staff w) = Some member"
    and "s_last_voucher_date member = Some (iso_date (clock w))"
    and "s_daily_voucher_used member"
  shows "vouchers (snd (createStaffWiFiVoucher sid w)) = vouchers w"
    and "draws (snd (createStaffWiFiVoucher sid w)) = draws w"
    and "staff (snd (createStaffWiFiVoucher sid w)) = staff w"
  using assms by (simp_all add: createStaffWiFiVoucher_unfold)

lemma iso_date_0030: "iso_date 88200000 = ''1970-01-02''"
  by code_simp

lemma iso_date_0100: "iso_date 90000000 = ''1970-01-02''"
  by code_simp

lemma world_staff_facts:
  "db_fault world_staff = (\<lambda>n. None)"
  "encoders_work world_staff"
  "valid_time (clock world_staff + 86400000)"
  "find (\<lambda>s. s_id s = 1) (staff world_staff) = Some staff1"
  "\<not> (s_last_voucher_date staff1 = Some (iso_date (clock world_staff))
       \<and> s_daily_voucher_used staff1)"
  "next_code ''staff_wifi'' world_staff \<notin> set (map v_code (vouchers world_staff))"
  by (simp_all add: world_staff_def world0_def staff1_def next_code_staff_wifi
        encoders_work_def valid_time_def)

subsection \<open>The pieces of an issue\<close>

lemma auditLog_plain:
  assumes "e_action ev \<noteq> ''login_failed''" and "e_action ev \<noteq> ''voucher_redeemed''"
    and "db_fault w (db_calls w) = None"
  shows "audit_log (audited ev w) =
           audit_log w @ [audit_row_of ev (next_id (audit_seq w) (map a_id (audit_log w)))
                            (sqlite_datetime (clock w))]"
  using assms
  by (simp add: audited_def auditLog.simps checkSecurityAlerts.simps swallow_logged_def
        bind_io_def insert_audit_def logger_info_def db_call_runs Let_def return_io_def
        date_now_def)

lemma createStaffWiFiVoucher_pieces:
  "createStaffWiFiVoucher sid w =
     (case select_staff sid w of (l, w1) \<Rightarrow>
      case (case l of Inl e \<Rightarrow> (Inl e, w1) | Inr st \<Rightarrow> issue_check st w1) of
        (c, w2) \<Rightarrow> issue_finish c sid w2)"
proof (cases "select_staff sid w")
  case (Pair l w1)
  show ?thesis
  proof (cases l)
    case (Inl e)
    then show ?thesis
      by (simp add: createStaffWiFiVoucher_def issue_finish_def rethrow_logged_def bind_io_def
            throw_io_def Pair)
  next
    case (Inr st)
    show ?thesis
    proof (cases st)
      case None
      then show ?thesis
        by (simp add: createStaffWiFiVoucher_def issue_check_def issue_finish_def
              rethrow_logged_def bind_io_def throw_io_def date_now_def Pair Inr)
    next
      case (Some member)
      show ?thesis
      proof (cases "s_last_voucher_date member = Some (iso_date (clock w1))
                    \<and> s_daily_voucher_used member")
        case True
        then show ?thesis
          by (simp add: createStaffWiFiVoucher_def issue_check_def issue_finish_def
                rethrow_logged_def bind_io_def throw_io_def date_now_def Pair Inr Some)
      next
        case False
        then show ?thesis
          by (auto simp: createStaffWiFiVoucher_def issue_check_def issue_finish_def
                issue_create_def rethrow_logged_def bind_io_def throw_io_def return_io_def
                date_now_def Pair Inr Some)
      qed
    qed
  qed
qed

lemma issue_finish_runs:
  assumes ok: "db_fault w = (\<lambda>n. None)" and enc: "encoders_work w"
    and time: "valid_time (clock w + 86400000)"
    and fresh: "next_code ''staff_wifi'' w \<notin> set (map v_code (vouchers w))"
  shows "\<exists>v. fst (issue_finish (Inr (member, today)) sid w) = Inr v
            \<and> v_code v = next_code ''staff_wifi'' w
            \<and> v_type v = ''staff_wifi'' \<and> v_status v = ''active''
            \<and> vouchers (snd (issue_finish (Inr (member, today)) sid w)) = vouchers w @ [v]
            \<and> draws (snd (issue_finish (Inr (member, today)) sid w)) = Suc (draws w)
            \<and> staff (snd (issue_finish (Inr (member, today)) sid w))
                = map (set_voucher_used today sid) (staff w)"
proof -
  let ?d = "staff_wifi_data member sid"
  have "\<exists>v. fst (createVoucher ?d w) = Inr v
           \<and> vouchers (snd (createVoucher ?d w)) = vouchers w @ [v]
           \<and> v_code v = next_code (d_type ?d) w \<and> v_status v = ''active''
           \<and> v_type v = d_type ?d \<and> v_user_id v = d_user_id ?d
           \<and> v_expires_at v = clock w + validity_ms ?d"
    using ok enc time fresh
    by (intro createVoucher_ok) (simp_all add: staff_wifi_data_def validity_ms_def)
  then obtain v where v: "fst (createVoucher ?d w) = Inr v"
      "vouchers (snd (createVoucher ?d w)) = vouchers w @ [v]"
      "v_code v = next_code ''staff_wifi'' w" "v_type v = ''staff_wifi''"
      "v_status v = ''active''"
    by (auto simp: staff_wifi_data_def)
  define w2 where "w2 = snd (createVoucher ?d w)"
  have cv: "createVoucher ?d w = (Inr v, w2)"
    using v(1) by (cases "createVoucher ?d w") (simp add: w2_def)
  have w2: "db_fault w2 = (\<lambda>n. None)" "vouchers w2 = vouchers w @ [v]"
      "draws w2 = Suc (draws w)" "staff w2 = staff w"
    using ok v(2) createVoucher_draws [of ?d w] by (simp_all add: w2_def createVoucher_frame)
  have "issue_finish (Inr (member, today)) sid w =
          (Inr v, w2\<lparr>db_calls := Suc (db_calls w2),
                     staff := map (set_voucher_used today sid) (staff w2)\<rparr>)"
    using cv w2(1)
    by (simp add: issue_finish_def issue_create_def rethrow_logged_def bind_io_def
          update_staff_voucher_used_def db_call_runs return_io_def)
  then show ?thesis using v(3,4,5) w2 by simp
qed

lemma issue_finish_env:
  "db_fault (snd (issue_finish c sid w)) = db_fault w"
  "entropy (snd (issue_finish c sid w)) = entropy w"
  "clock (snd (issue_finish c sid w)) = clock w"
  "encoders_work (snd (issue_finish c sid w)) = encoders_work w"
proof -
  have "keeps users_frame (issue_finish c sid)"
    unfolding issue_finish_def issue_create_def
    by (intro keeps_rethrow keeps_bind keeps_case_prod keeps_throw keeps_return
          keeps_users_createVoucher keeps_users_update_staff_voucher_used users_frame_console)
       (auto split: sum.splits intro!: keeps_throw keeps_bind keeps_case_prod keeps_return
          keeps_users_createVoucher keeps_users_update_staff_voucher_used)
  from keepsD [OF this, of w]
  show "db_fault (snd (issue_finish c sid w)) = db_fault w"
    "entropy (snd (issue_finish c sid w)) = entropy w"
    "clock (snd (issue_finish c sid w)) = clock w"
    "encoders_work (snd (issue_finish c sid w)) = encoders_work w"
    by (simp_all add: users_frame_def env_frame_def encoders_work_def)
qed

lemma select_staff_runs:
  "db_fault w (db_calls w) = None \<Longrightarrow>
   select_staff sid w = (Inr (find (\<lambda>s. s_id s = sid) (staff w)), w\<lparr>db_calls := Suc (db_calls w)\<rparr>)"
  by (simp add: select_staff_def db_call_runs)

lemma issue_check_allowed:
  "\<not> (s_last_voucher_date member = Some (iso_date (clock w)) \<and> s_daily_voucher_used member) \<Longrightarrow>
   issue_check (Some member) w = (Inr (member, iso_date (clock w)), w)"
  by (auto simp: issue_check_def bind_io_def date_now_def return_io_def)

lemma createStaffWiFiVoucher_allowedD:
  assumes "createStaffWiFiVoucher sid w = (Inr v, w1)"
  shows "\<exists>member. find (\<lambda>s. s_id s = sid) (staff w) = Some member
           \<and> \<not> (s_last_voucher_date member = Some (iso_date (clock w))
                  \<and> s_daily_voucher_used member)"
  using assms
  by (auto simp: createStaffWiFiVoucher_def select_staff_def throw_io_def date_now_def Let_def
        dest!: rethrow_logged_InrD bind_io_InrD db_call_InrD
        split: option.splits if_splits)

text \<open>Two requests that arrive together are both served.\<close>

lemma issue_interleaved_both:
  assumes ok: "db_fault w = (\<lambda>n. None)" and enc: "encoders_work w"
    and time: "valid_time (clock w + 86400000)"
    and found: "find (\<lambda>s. s_id s = sid) (staff w) = Some member"
    and allowed: "\<not> (s_last_voucher_date member = Some (iso_date (clock w))
                     \<and> s_daily_voucher_used member)"
    and fresh1: "''ST'' @ entropy w (draws w) \<notin> set (map v_code (vouchers w))"
    and fresh2: "''ST'' @ entropy w (Suc (draws w)) \<notin> set (map v_code (vouchers w))"
    and differ: "entropy w (Suc (draws w)) \<noteq> entropy w (draws w)"
  shows "\<exists>va vb. fst (issue_interleaved sid w) = (Inr va, Inr vb)
           \<and> v_code va = ''ST'' @ entropy w (draws w)
           \<and> v_code vb = ''ST'' @ entropy w (Suc (draws w))
           \<and> vouchers (snd (issue_interleaved sid w)) = vouchers w @ [va, vb]"
proof -
  let ?w2 = "w\<lparr>db_calls := Suc (Suc (db_calls w))\<rparr>"
  let ?c = "Inr (member, iso_date (clock w)) :: error + staff_member \<times> string"
  have first: "\<exists>v. fst (issue_finish ?c sid ?w2) = Inr v
            \<and> v_code v = next_code ''staff_wifi'' ?w2
            \<and> v_type v = ''staff_wifi'' \<and> v_status v = ''active''
            \<and> vouchers (snd (issue_finish ?c sid ?w2)) = vouchers ?w2 @ [v]
            \<and> draws (snd (issue_finish ?c sid ?w2)) = Suc (draws ?w2)
            \<and> staff (snd (issue_finish ?c sid ?w2))
                = map (set_voucher_used (iso_date (clock w)) sid) (staff ?w2)"
    using ok enc time fresh1
    by (intro issue_finish_runs) (simp_all add: encoders_work_def next_code_staff_wifi)
  then obtain va where va: "fst (issue_finish ?c sid ?w2) = Inr va"
      "v_code va = ''ST'' @ entropy w (draws w)"
      "vouchers (snd (issue_finish ?c sid ?w2)) = vouchers w @ [va]"
      "draws (snd (issue_finish ?c sid ?w2)) = Suc (draws w)"
    by (auto simp: next_code_staff_wifi)
  define w5 where "w5 = snd (issue_finish ?c sid ?w2)"
  have a: "issue_finish ?c sid ?w2 = (Inr va, w5)"
    using va(1) by (cases "issue_finish ?c sid ?w2") (simp add: w5_def)
  have w5: "db_fault w5 = (\<lambda>n. None)" "entropy w5 = entropy w" "clock w5 = clock w"
      "encoders_work w5" "vouchers w5 = vouchers w @ [va]" "draws w5 = Suc (draws w)"
    using ok enc va(3,4) issue_finish_env [of ?c sid ?w2]
    by (simp_all add: w5_def [symmetric] encoders_work_def)
  have second: "\<exists>v. fst (issue_finish ?c sid w5) = Inr v
            \<and> v_code v = next_code ''staff_wifi'' w5
            \<and> v_type v = ''staff_wifi'' \<and> v_status v = ''active''
            \<and> vouchers (snd (issue_finish ?c sid w5)) = vouchers w5 @ [v]
            \<and> draws (snd (issue_finish ?c sid w5)) = Suc (draws w5)
            \<and> staff (snd (issue_finish ?c sid w5))
                = map (set_voucher_used (iso_date (clock w)) sid) (staff w5)"
    using time fresh2 differ va(2)
    by (intro issue_finish_runs) (simp_all add: w5 next_code_staff_wifi)
  then obtain vb where vb: "fst (issue_finish ?c sid w5) = Inr vb"
      "v_code vb = ''ST'' @ entropy w (Suc (draws w))"
      "vouchers (snd (issue_finish ?c sid w5)) = vouchers w @ [va, vb]"
    by (auto simp: next_code_staff_wifi w5)
  define w6 where "w6 = snd (issue_finish ?c sid w5)"
  have b: "issue_finish ?c sid w5 = (Inr vb, w6)"
    using vb(1) by (cases "issue_finish ?c sid w5") (simp add: w6_def)
  have "issue_interleaved sid w = ((Inr va, Inr vb), w6)"
    using found allowed a b
    by (simp add: issue_interleaved_def select_staff_runs ok issue_check_allowed)
  then show ?thesis
    using va(2) vb(2,3) by (simp add: w6_def)
qed

subsection \<open>What the override route does\<close>

lemma post_staff_wifi_override_runs:
  assumes ok: "db_fault w = (\<lambda>n. None)" and enc: "encoders_work w"
    and time: "valid_time (clock w + 86400000)"
    and target: "find (\<lambda>s. s_email s = email) (staff w) = Some target"
    and fresh: "next_code ''staff_wifi'' w \<notin> set (map v_code (vouchers w))"
  shows "\<exists>v i. fst (post_staff_wifi_override email reason mgr w) =
              \<lparr>r_status = 201, r_text = ''Staff WiFi voucher override successful'',
                r_voucher = Some v\<rparr>
           \<and> v_code v = next_code ''staff_wifi'' w
           \<and> v_type v = ''staff_wifi'' \<and> v_status v = ''active''
           \<and> vouchers (snd (post_staff_wifi_override email reason mgr w)) = vouchers w @ [v]
           \<and> staff (snd (post_staff_wifi_override email reason mgr w))
               = map (set_voucher_used (iso_date (clock w)) (s_id target))
                   (map (reset_flag (s_id target)) (staff w))
           \<and> last (audit_log (snd (post_staff_wifi_override email reason mgr w)))
               = audit_row_of (staff_wifi_override_event mgr target email v reason) i
                   (sqlite_datetime (clock w))
           \<and> clock (snd (post_staff_wifi_override email reason mgr w)) = clock w
           \<and> db_fault (snd (post_staff_wifi_override email reason mgr w)) = db_fault w
           \<and> used_today (s_id target) (snd (post_staff_wifi_override email reason mgr w))"
proof -
  let ?sid = "s_id target"
  let ?w = "w\<lparr>db_calls := Suc (Suc (db_calls w)), staff := map (reset_flag ?sid) (staff w)\<rparr>"
  let ?w1 = "?w\<lparr>db_calls := Suc (db_calls ?w)\<rparr>"
  obtain member where found: "find (\<lambda>s. s_id s = ?sid) (staff w) = Some member"
    using find_by_id_of_found [OF target] by blast
  let ?m = "member\<lparr>s_daily_voucher_used := False\<rparr>"
  let ?c = "Inr (?m, iso_date (clock w)) :: error + staff_member \<times> string"
  have found': "find (\<lambda>s. s_id s = ?sid) (staff ?w) = Some ?m"
    using find_map_reset_flag [OF found] by simp
  have pieces: "createStaffWiFiVoucher ?sid ?w = issue_finish ?c ?sid ?w1"
    using found' issue_check_allowed [of ?m ?w1]
    by (simp add: createStaffWiFiVoucher_pieces select_staff_runs ok)
  have "\<exists>v. fst (issue_finish ?c ?sid ?w1) = Inr v
            \<and> v_code v = next_code ''staff_wifi'' ?w1
            \<and> v_type v = ''staff_wifi'' \<and> v_status v = ''active''
            \<and> vouchers (snd (issue_finish ?c ?sid ?w1)) = vouchers ?w1 @ [v]
            \<and> draws (snd (issue_finish ?c ?sid ?w1)) = Suc (draws ?w1)
            \<and> staff (snd (issue_finish ?c ?sid ?w1))
                = map (set_voucher_used (iso_date (clock w)) ?sid) (staff ?w1)"
    using ok enc time fresh
    by (intro issue_finish_runs) (simp_all add: encoders_work_def next_code_def)
  then obtain v where v: "fst (createStaffWiFiVoucher ?sid ?w) = Inr v"
      "v_code v = next_code ''staff_wifi'' w" "v_type v = ''staff_wifi''"
      "v_status v = ''active''"
      "vouchers (snd (createStaffWiFiVoucher ?sid ?w)) = vouchers w @ [v]"
      "staff (snd (createStaffWiFiVoucher ?sid ?w))
         = map (set_voucher_used (iso_date (clock w)) ?sid) (map (reset_flag ?sid) (staff w))"
    by (auto simp: pieces next_code_def)
  define w4 where "w4 = snd (createStaffWiFiVoucher ?sid ?w)"
  have issue: "createStaffWiFiVoucher ?sid ?w = (Inr v, w4)"
    using v(1) by (cases "createStaffWiFiVoucher ?sid ?w") (simp add: w4_def)
  have w4: "clock w4 = clock w" "db_fault w4 = (\<lambda>n. None)"
    using createStaffWiFiVoucher_clock [of ?sid ?w] createStaffWiFiVoucher_db_fault [of ?sid ?w] ok
    by (simp_all add: w4_def)
  let ?ev = "staff_wifi_override_event mgr target email v reason"
  have handler: "staff_wifi_override_handler email reason mgr w =
          (Inr \<lparr>r_status = 201, r_text = ''Staff WiFi voucher override successful'',
                r_voucher = Some v\<rparr>, audited ?ev w4)"
    using ok target issue
    by (simp add: staff_wifi_override_handler_def bind_io_def select_staff_by_email_def
          update_staff_reset_flag_def db_call_runs return_io_def auditLog_eq)
  then have route: "post_staff_wifi_override email reason mgr w =
          (\<lparr>r_status = 201, r_text = ''Staff WiFi voucher override successful'',
            r_voucher = Some v\<rparr>, audited ?ev w4)"
    by (simp add: post_staff_wifi_override_def)
  have row: "audit_log (audited ?ev w4) =
           audit_log w4 @ [audit_row_of ?ev (next_id (audit_seq w4) (map a_id (audit_log w4)))
                            (sqlite_datetime (clock w))]"
    using auditLog_plain [of ?ev w4] by (simp add: staff_wifi_override_event_def w4)
  have used: "used_today ?sid (audited ?ev w4)"
  proof -
    have "used_today ?sid (audited ?ev w4) = used_today ?sid w4"
      by (rule used_today_frame) simp_all
    then show ?thesis using createStaffWiFiVoucher_marks(1) [OF issue] by simp
  qed
  show ?thesis
    using v(2-6) used
    by (simp add: route row w4 w4_def [symmetric] ok) blast
qed

lemma createStaffWiFiVoucher_refused_later:
  assumes used: "used_today sid w" and ok: "db_fault w = (\<lambda>n. None)"
    and same_day: "list_all (within_day (iso_date (clock w))) rs"
  shows "fst (createStaffWiFiVoucher sid (run rs w)) = Inl DailyLimitReached"
proof -
  have "used_today sid (run rs w)"
    using run_used_today [OF same_day, of sid w] used by simp
  moreover have "db_fault (run rs w) (db_calls (run rs w)) = None"
    by (simp add: ok)
  ultimately show ?thesis by (rule createStaffWiFiVoucher_of_used(2))
qed

lemma createStaffWiFiVoucher_freshD:
  assumes first: "createStaffWiFiVoucher sid w = (Inr v, w1)"
    and ok: "db_fault w = (\<lambda>n. None)"
  shows "next_code ''staff_wifi'' w \<notin> set (map v_code (vouchers w))"
proof
  assume dup: "next_code ''staff_wifi'' w \<in> set (map v_code (vouchers w))"
  obtain member where found: "find (\<lambda>s. s_id s = sid) (staff w) = Some member"
    and allowed: "\<not> (s_last_voucher_date member = Some (iso_date (clock w))
                     \<and> s_daily_voucher_used member)"
    using createStaffWiFiVoucher_allowedD [OF first] by blast
  have "db_fault w (db_calls w) = None" by (simp add: ok)
  from createStaffWiFiVoucher_collision(2) [OF this found allowed dup]
  show False by (simp add: first)
qed

subsection \<open>Sam's first voucher of the day\<close>

lemma world_staff_issued:
  "\<exists>v. createStaffWiFiVoucher 1 world_staff = (Inr v, snd (createStaffWiFiVoucher 1 world_staff))
       \<and> vouchers (snd (createStaffWiFiVoucher 1 world_staff)) = [v]
       \<and> v_code v = ''STA1B2C3D4E5F6''"
  "draws (snd (createStaffWiFiVoucher 1 world_staff)) = 1"
  "staff (snd (createStaffWiFiVoucher 1 world_staff))
     = [staff1\<lparr>s_daily_voucher_used := True, s_last_voucher_date := Some ''1970-01-02''\<rparr>]"
  "clock (snd (createStaffWiFiVoucher 1 world_staff)) = 88200000"
  "db_fault (snd (createStaffWiFiVoucher 1 world_staff)) = (\<lambda>n. None)"
  "entropy (snd (createStaffWiFiVoucher 1 world_staff)) = entropy world0"
  "encoders_work (snd (createStaffWiFiVoucher 1 world_staff))"
proof -
  let ?w1 = "snd (createStaffWiFiVoucher 1 world_staff)"
  have empty: "vouchers world_staff = []" "draws world_staff = 0"
    "entropy world_staff = entropy world0" "clock world_staff = 88200000"
    by (simp_all add: world_staff_def world0_def)
  obtain v where v: "fst (createStaffWiFiVoucher 1 world_staff) = Inr v"
    and vouchers1: "vouchers ?w1 = vouchers world_staff @ [v]"
    and draws1: "draws ?w1 = Suc (draws world_staff)"
    and code: "v_code v = next_code ''staff_wifi'' world_staff"
    using createStaffWiFiVoucher_issues [OF world_staff_facts] by blast
  have first: "createStaffWiFiVoucher 1 world_staff = (Inr v, ?w1)"
    using v by (cases "createStaffWiFiVoucher 1 world_staff") simp
  have "v_code v = ''STA1B2C3D4E5F6''"
    unfolding code next_code_staff_wifi by (simp add: world_staff_def world0_def)
  then show "\<exists>v. createStaffWiFiVoucher 1 world_staff = (Inr v, ?w1)
       \<and> vouchers ?w1 = [v] \<and> v_code v = ''STA1B2C3D4E5F6''"
    using first vouchers1 unfolding empty by auto
  show "draws ?w1 = 1" unfolding draws1 empty by simp
  show "staff ?w1
     = [staff1\<lparr>s_daily_voucher_used := True, s_last_voucher_date := Some ''1970-01-02''\<rparr>]"
    using createStaffWiFiVoucher_staff [of 1 world_staff] v
    by (simp add: world_staff_def world0_def iso_date_0030 set_voucher_used_def staff1_def)
  show "clock ?w1 = 88200000" "db_fault ?w1 = (\<lambda>n. None)" "entropy ?w1 = entropy world0"
    "encoders_work ?w1"
    by (simp_all add: empty world_staff_facts)
qed

lemma world_staff_issued_override:
  "valid_time (clock (snd (createStaffWiFiVoucher 1 world_staff)) + 86400000)"
  "find (\<lambda>s. s_email s = ''sam@example.org'') (staff (snd (createStaffWiFiVoucher 1 world_staff)))
     = Some (staff1\<lparr>s_daily_voucher_used := True, s_last_voucher_date := Some ''1970-01-02''\<rparr>)"
  "next_code ''staff_wifi'' (snd (createStaffWiFiVoucher 1 world_staff))
     \<notin> set (map v_code (vouchers (snd (createStaffWiFiVoucher 1 world_staff))))"
proof -
  let ?w1 = "snd (createStaffWiFiVoucher 1 world_staff)"
  show "valid_time (clock ?w1 + 86400000)"
    unfolding world_staff_issued(4) by (simp add: valid_time_def)
  show "find (\<lambda>s. s_email s = ''sam@example.org'') (staff ?w1)
     = Some (staff1\<lparr>s_daily_voucher_used := True, s_last_voucher_date := Some ''1970-01-02''\<rparr>)"
    unfolding world_staff_issued(3) by (simp add: staff1_def)
  obtain v where "vouchers ?w1 = [v]" "v_code v = ''STA1B2C3D4E5F6''"
    using world_staff_issued(1) by blast
  then show "next_code ''staff_wifi'' ?w1 \<notin> set (map v_code (vouchers ?w1))"
    unfolding next_code_staff_wifi world_staff_issued(2,6) by (simp add: world0_def)
qed

lemma iso_date_0116: "iso_date 91000000 = ''1970-01-02''"
  by code_simp

section \<open>The audit trail never throws\<close>



section \<open>The failed-login rule\<close>

text \<open>
  Claim C8, as the code has it. When a \<open>login_failed\<close> event with an address is recorded
  on a working store, its row is appended; the rows of that address that pass the time
  filter of the query are counted, the new row among them; and if the count is at least
  10 one \<open>security_alert\<close> row of type \<open>brute_force_attempt\<close> is appended, for this event
  and again for every later event that finds the count at 10 or more. Below 10 nothing but
  the row of the event is appended.
\<close>

theorem brute_force_alert_per_failure:
  assumes "db_fault w = (\<lambda>n. None)"
    and "e_action ev = ''login_failed''" and "e_ip_address ev = Some ip" and "ip \<noteq> []"
  shows "audit_log (snd (auditLog ev w)) =
     (let row = audit_row_of ev (next_id (audit_seq w) (map a_id (audit_log w)))
                  (sqlite_datetime (clock w));
          n = login_failed_since ip (toISOString (clock w - 3600000)) (audit_log w @ [row])
      in audit_log w @ [row] @
         (if 10 \<le> n
          then [audit_row_of (brute_force_alert ip n)
                  (next_id (next_id (audit_seq w) (map a_id (audit_log w)))
                     (map a_id (audit_log w @ [row])))
                  (sqlite_datetime (clock w))]
          else []))"
  using assms by (rule auditLog_login_failed)

theorem brute_force_alert_per_failure_witness:
  "audit_log (snd (auditLog (login_failed_event ''203.0.113.5'') world0)) =
     [audit_row_of (login_failed_event ''203.0.113.5'') 1 ''1970-01-02 00:30:00'']"
  using brute_force_alert_per_failure [of world0 "login_failed_event ''203.0.113.5''" "''203.0.113.5''"]
  by (simp add: world0_def login_failed_event_def Let_def login_failed_since_def next_id_def
        sqlite_0030 iso_0030_minus_hour audit_row_of_def str_or_null_def)

text \<open>Eleven failed logins from 203.0.113.5 within a minute leave two alerts, not one.\<close>

theorem eleven_failures_two_alerts:
  "length (brute_force_alerts
             (record_all (replicate 11 (login_failed_event ''203.0.113.5'')) world0)) = 2"
proof -
  have "length (brute_force_alerts
                 (record_all (replicate 11 (login_failed_event ''203.0.113.5'')) world0))
        = length (brute_force_alerts world0)
             + ((login_failed_since ''203.0.113.5'' (toISOString (clock world0 - 3600000))
                   (audit_log world0) + 11 - 9)
                - (login_failed_since ''203.0.113.5'' (toISOString (clock world0 - 3600000))
                   (audit_log world0) - 9))"
    by (rule login_failed_repeated)
       (simp_all add: login_failed_event_def world0_def iso_0030_minus_hour sqlite_0030)
  then show ?thesis
    by (simp add: world0_def brute_force_alerts_def login_failed_since_def)
qed

section \<open>Rejected redemptions\<close>

text \<open>
  Claim C6. On a working store a redemption is rejected with one of four errors and no
  other, decided in this order: \<open>NotFound\<close> when no voucher has the code,
  \<open>AlreadyRedeemed\<close> when the status is \<open>redeemed\<close>, \<open>Expired\<close> when
  \<open>expires_at\<close> lies before the current instant, whatever the status short of
  \<open>redeemed\<close> and so also when it is still \<open>active\<close>, and \<open>NotActive\<close> when the
  voucher has not expired and its status is \<open>cancelled\<close>. The route handler answers the
  four with four different status codes, 404, 409, 410 and 400.
\<close>

theorem redeem_rejections:
  assumes ok: "db_fault w = (\<lambda>n. None)"
  shows "(find (\<lambda>v. v_code v = c) (vouchers w) = None \<longrightarrow>
            fst (redeemVoucher c s w) = Inl NotFound
            \<and> r_status (fst (post_redeem c s w)) = 404)
       \<and> (\<forall>v. find (\<lambda>v. v_code v = c) (vouchers w) = Some v \<and> v_status v = ''redeemed'' \<longrightarrow>
            fst (redeemVoucher c s w) = Inl AlreadyRedeemed
            \<and> r_status (fst (post_redeem c s w)) = 409)
       \<and> (\<forall>v. find (\<lambda>v. v_code v = c) (vouchers w) = Some v \<and> v_status v \<noteq> ''redeemed''
              \<and> v_expires_at v < clock w \<longrightarrow>
            fst (redeemVoucher c s w) = Inl Expired
            \<and> r_status (fst (post_redeem c s w)) = 410)
       \<and> (\<forall>v. find (\<lambda>v. v_code v = c) (vouchers w) = Some v \<and> v_status v = ''cancelled''
              \<and> \<not> v_expires_at v < clock w \<longrightarrow>
            fst (redeemVoucher c s w) = Inl NotActive
            \<and> r_status (fst (post_redeem c s w)) = 400)
       \<and> (\<forall>e. fst (redeemVoucher c s w) = Inl e \<longrightarrow>
            e = NotFound \<or> e = AlreadyRedeemed \<or> e = Expired \<or> e = NotActive)"
proof -
  have ok0: "db_fault w (db_calls w) = None" by (simp add: ok)
  have outcome: "e = NotFound \<or> e = AlreadyRedeemed \<or> e = Expired \<or> e = NotActive"
    if e: "fst (redeemVoucher c s w) = Inl e" for e
  proof (cases "find (\<lambda>v. v_code v = c) (vouchers w)")
    case None
    then show ?thesis using redeemVoucher_rejects(1) [OF ok0] e by simp
  next
    case (Some v)
    show ?thesis
    proof (cases "v_status v = ''redeemed''")
      case True
      then show ?thesis using redeemVoucher_rejects(2) [OF ok0 Some] e by simp
    next
      case nr: False
      show ?thesis
      proof (cases "v_expires_at v < clock w")
        case True
        then show ?thesis using redeemVoucher_rejects(3) [OF ok0 Some nr] e by simp
      next
        case ne: False
        show ?thesis
        proof (cases "v_status v = ''active''")
          case True
          then show ?thesis using redeemVoucher_commits(1) [OF ok Some True ne] e by simp
        next
          case False
          then show ?thesis using redeemVoucher_rejects(4) [OF ok0 Some nr ne] e by simp
        qed
      qed
    qed
  qed
  show ?thesis
    using redeemVoucher_rejects [OF ok0, where c = c and s = s] outcome
    by (auto simp: post_redeem_status redeem_error_statuses)
qed

theorem redeem_rejections_witness:
  "fst (redeemVoucher ''PR000000000000'' 3 world_vouchers) = Inl NotFound
   \<and> fst (redeemVoucher ''PR000000000001'' 3 world_vouchers) = Inl Expired
   \<and> fst (redeemVoucher ''PR000000000002'' 3 world_vouchers) = Inl AlreadyRedeemed
   \<and> fst (redeemVoucher ''PR000000000003'' 3 world_vouchers) = Inl NotActive
   \<and> r_status (fst (post_redeem ''PR000000000001'' 3 world_vouchers)) = 410"
  using redeem_rejections [where w = world_vouchers and c = "''PR000000000000''" and s = 3]
        redeem_rejections [where w = world_vouchers and c = "''PR000000000001''" and s = 3]
        redeem_rejections [where w = world_vouchers and c = "''PR000000000002''" and s = 3]
        redeem_rejections [where w = world_vouchers and c = "''PR000000000003''" and s = 3]
  by (simp add: world_vouchers_def world0_def sample_voucher_def)

section \<open>Redeeming a loyalty reward\<close>

text \<open>
  Claim C5, as the code has it. \<open>redeemVoucher\<close> calls \<open>updateUserLoyalty\<close> with the
  action \<open>redemption\<close>, and only the action \<open>visit\<close> adds to the count or creates a
  reward. So when a customer redeems an active, unexpired \<open>loyalty_reward\<close> voucher on a
  working store, the redemption succeeds, the customer's count is what it was, the tier is
  recomputed from that count (Bronze for a count of 4), and the voucher table is the old
  one with the redeemed row marked: no voucher is added.
\<close>

theorem reward_redemption_is_no_visit:
  assumes ok: "db_fault w = (\<lambda>n. None)"
    and found: "find (\<lambda>v. v_code v = c) (vouchers w) = Some v"
    and active: "v_status v = ''active''" "\<not> v_expires_at v < clock w"
    and reward: "v_type v = ''loyalty_reward''" "v_user_id v = Some uid" "uid \<noteq> 0"
    and customer: "find (\<lambda>u. u_id u = uid) (users w) = Some usr"
  shows "(\<exists>r. fst (redeemVoucher c s w) = Inr r)
       \<and> find (\<lambda>u. u_id u = uid) (users (snd (redeemVoucher c s w)))
           = Some (usr\<lparr>u_visit_count := u_visit_count usr,
                       u_loyalty_tier := newTier (u_visit_count usr),
                       u_updated_at := sqlite_datetime (clock w)\<rparr>)
       \<and> vouchers (snd (redeemVoucher c s w))
           = map (set_redeemed s (sqlite_datetime (clock w)) (v_id v)) (vouchers w)
       \<and> length (vouchers (snd (redeemVoucher c s w))) = length (vouchers w)
       \<and> newTier 4 = ''Bronze''"
  using redeemVoucher_commits [OF ok found active, of s]
        redeemVoucher_commits_users [OF ok found active, of s] reward customer
  by (simp add: id_or_null_def find_map_set_loyalty newTier_def)

text \<open>The customer of the sample world has four visits and redeems the loyalty reward:
  the count is still 4 afterwards, the tier is still Bronze and the voucher table has the
  one voucher it had.\<close>

lemma world_loyalty_redeemed_users:
  "users (snd (redeemVoucher ''LO000000000001'' 3 world_loyalty))
     = [customer4\<lparr>u_updated_at := sqlite_datetime 88200000\<rparr>]"
proof -
  have "users (snd (redeemVoucher ''LO000000000001'' 3 world_loyalty)) =
     (case (if v_type reward_voucher = ''loyalty_reward''
            then id_or_null (v_user_id reward_voucher) else None) of
        None \<Rightarrow> users world_loyalty
      | Some uid \<Rightarrow>
          (case find (\<lambda>u. u_id u = uid) (users world_loyalty) of
             None \<Rightarrow> users world_loyalty
           | Some usr \<Rightarrow> map (set_loyalty (u_visit_count usr) (newTier (u_visit_count usr))
                                (sqlite_datetime (clock world_loyalty)) uid)
                            (users world_loyalty)))"
    by (rule redeemVoucher_commits_users)
       (simp_all add: world_loyalty_def world0_def reward_voucher_def)
  then show ?thesis
    by (simp add: world_loyalty_def world0_def reward_voucher_def customer4_def id_or_null_def
          set_loyalty_def newTier_def)
qed

theorem reward_redemption_count_stays_4:
  "map u_visit_count (users (snd (redeemVoucher ''LO000000000001'' 3 world_loyalty))) = [4]
   \<and> map u_loyalty_tier (users (snd (redeemVoucher ''LO000000000001'' 3 world_loyalty)))
       = [''Bronze'']
   \<and> length (vouchers (snd (redeemVoucher ''LO000000000001'' 3 world_loyalty))) = 1"
proof -
  have "vouchers (snd (redeemVoucher ''LO000000000001'' 3 world_loyalty)) =
          map (set_redeemed 3 (sqlite_datetime (clock world_loyalty)) (v_id reward_voucher))
            (vouchers world_loyalty)"
    by (rule redeemVoucher_commits)
       (simp_all add: world_loyalty_def world0_def reward_voucher_def)
  then show ?thesis
    by (simp add: world_loyalty_redeemed_users) (simp add: world_loyalty_def customer4_def)
qed

theorem reward_redemption_is_no_visit_witness:
  "find (\<lambda>u. u_id u = 7) (users (snd (redeemVoucher ''LO000000000001'' 3 world_loyalty)))
     = Some (customer4\<lparr>u_visit_count := 4, u_loyalty_tier := ''Bronze'',
                        u_updated_at := ''1970-01-02 00:30:00''\<rparr>)"
  using reward_redemption_is_no_visit [where w = world_loyalty and c = "''LO000000000001''"
          and v = reward_voucher and uid = 7 and usr = customer4 and s = 3]
  by (simp add: world_loyalty_def world0_def reward_voucher_def customer4_def newTier_def
        sqlite_0030)

section \<open>A code that collides\<close>

text \<open>
  Claim C7, as the code has it. When the code that \<open>generateVoucherCode\<close> produces is
  the code of an existing voucher, \<open>createVoucher\<close> fails and leaves the voucher table
  as it was: the existing voucher is not overwritten. With a working store, working
  encoders and a valid expiry the error is the one of the store, the violated UNIQUE
  constraint on \<open>vouchers.code\<close>. Exactly one code is drawn: \<open>createVoucher\<close> does not
  try another one, and neither does its caller \<open>createStaffWiFiVoucher\<close>, which fails as
  well after that one draw and adds no voucher.
\<close>

theorem duplicate_code_fails_at_once:
  "(next_code (d_type d) w \<in> set (map v_code (vouchers w)) \<longrightarrow>
      (\<exists>e. fst (createVoucher d w) = Inl e)
      \<and> vouchers (snd (createVoucher d w)) = vouchers w
      \<and> draws (snd (createVoucher d w)) = Suc (draws w)
      \<and> (db_fault w (db_calls w) = None \<and> encoders_work w
            \<and> valid_time (clock w + validity_ms d) \<longrightarrow>
          fst (createVoucher d w) =
            Inl (SqliteError ''SQLITE_CONSTRAINT: UNIQUE constraint failed: vouchers.code'')))
   \<and> (db_fault w (db_calls w) = None
        \<and> find (\<lambda>s. s_id s = sid) (staff w) = Some member
        \<and> \<not> (s_last_voucher_date member = Some (iso_date (clock w))
               \<and> s_daily_voucher_used member)
        \<and> next_code ''staff_wifi'' w \<in> set (map v_code (vouchers w)) \<longrightarrow>
      (\<exists>e. fst (createStaffWiFiVoucher sid w) = Inl e)
      \<and> vouchers (snd (createStaffWiFiVoucher sid w)) = vouchers w
      \<and> draws (snd (createStaffWiFiVoucher sid w)) = Suc (draws w))"
  using createVoucher_collision [of d w] createVoucher_draws [of d w]
    createVoucher_collision_error [of d w]
    createStaffWiFiVoucher_collision [of w sid member]
  by blast

theorem duplicate_code_fails_at_once_witness:
  "fst (createVoucher (staff_wifi_data staff1 1) world_collision) =
     Inl (SqliteError ''SQLITE_CONSTRAINT: UNIQUE constraint failed: vouchers.code'')
   \<and> vouchers (snd (createVoucher (staff_wifi_data staff1 1) world_collision))
       = vouchers world_collision
   \<and> vouchers (snd (createStaffWiFiVoucher 1 world_collision)) = vouchers world_collision
   \<and> draws (snd (createStaffWiFiVoucher 1 world_collision)) = 1"
  using duplicate_code_fails_at_once [of "staff_wifi_data staff1 1" world_collision 1 staff1]
    world_collision_facts
  by (simp add: staff_wifi_data_def validity_ms_def) (simp add: world_collision_def world0_def)

text \<open>The first code drawn collides and the second would not: the caller fails with the
  error of the store after one draw.\<close>

theorem no_retry_after_collision:
  "fst (createStaffWiFiVoucher 1 world_collision) =
     Inl (SqliteError ''SQLITE_CONSTRAINT: UNIQUE constraint failed: vouchers.code'')
   \<and> draws (snd (createStaffWiFiVoucher 1 world_collision)) = 1
   \<and> ''ST'' @ entropy world_collision 1 \<notin> set (map v_code (vouchers world_collision))
   \<and> r_status (fst (post_staff_wifi 1 world_collision)) = 500"
proof -
  let ?w1 = "world_collision\<lparr>db_calls := Suc (db_calls world_collision)\<rparr>"
  have "fst (createVoucher (staff_wifi_data staff1 1) ?w1) =
          Inl (SqliteError ''SQLITE_CONSTRAINT: UNIQUE constraint failed: vouchers.code'')"
    by (rule createVoucher_collision_error)
       (simp_all add: world_collision_def world0_def staff1_def next_code_staff_wifi
          staff_wifi_data_def next_code_def upper_st
          sample_voucher_def encoders_work_def valid_time_def validity_ms_def)
  then have 1: "fst (createStaffWiFiVoucher 1 world_collision) =
          Inl (SqliteError ''SQLITE_CONSTRAINT: UNIQUE constraint failed: vouchers.code'')"
    using createStaffWiFiVoucher_collision(1) [OF world_collision_facts(1-4)] by simp
  have 2: "draws (snd (createStaffWiFiVoucher 1 world_collision)) = 1"
    using createStaffWiFiVoucher_collision(4) [OF world_collision_facts(1-4)]
    by (simp add: world_collision_def world0_def)
  have 3: "''ST'' @ entropy world_collision 1 \<notin> set (map v_code (vouchers world_collision))"
    by (simp add: world_collision_def world0_def sample_voucher_def)
  have 4: "r_status (fst (post_staff_wifi 1 world_collision)) = 500"
    using 1 by (cases "createStaffWiFiVoucher 1 world_collision")
      (simp add: post_staff_wifi_def)
  show ?thesis using 1 2 3 4 by blast
qed

section \<open>A failed issue does not use up the day's allowance\<close>

text \<open>
  Claim C10. When \<open>createStaffWiFiVoucher\<close> has found the staff member, the daily limit
  does not stop it, and the \<open>createVoucher\<close> it calls throws, then
  \<open>createStaffWiFiVoucher\<close> throws the same error and the staff table is what it was:
  the row of the staff member is unchanged, flag and date included. More generally, every
  failure of \<open>createStaffWiFiVoucher\<close> leaves the staff table as it was.
\<close>

theorem failed_issue_keeps_allowance:
  assumes sel: "db_fault w (db_calls w) = None"
    and found: "find (\<lambda>s. s_id s = sid) (staff w) = Some member"
    and allowed: "\<not> (s_last_voucher_date member = Some (iso_date (clock w))
                     \<and> s_daily_voucher_used member)"
    and fails: "createVoucher (staff_wifi_data member sid) (w\<lparr>db_calls := Suc (db_calls w)\<rparr>)
                  = (Inl e, w')"
  shows "fst (createStaffWiFiVoucher sid w) = Inl e
       \<and> staff (snd (createStaffWiFiVoucher sid w)) = staff w
       \<and> find (\<lambda>s. s_id s = sid) (staff (snd (createStaffWiFiVoucher sid w))) = Some member
       \<and> (\<forall>e'. fst (createStaffWiFiVoucher sid w') = Inl e' \<longrightarrow>
             staff (snd (createStaffWiFiVoucher sid w')) = staff w')"
proof -
  have "fst (createVoucher (staff_wifi_data member sid) (w\<lparr>db_calls := Suc (db_calls w)\<rparr>))
          = Inl e"
    by (simp add: fails)
  then have 1: "fst (createStaffWiFiVoucher sid w) = Inl e"
    by (rule createStaffWiFiVoucher_propagates [OF sel found allowed])
  have 2: "staff (snd (createStaffWiFiVoucher sid w)) = staff w"
    using createStaffWiFiVoucher_staff [of sid w] 1 by simp
  show ?thesis
    using 1 2 found createStaffWiFiVoucher_staff [of sid w'] by simp
qed

theorem failed_issue_keeps_allowance_witness:
  "fst (createStaffWiFiVoucher 1 world_collision) =
     Inl (SqliteError ''SQLITE_CONSTRAINT: UNIQUE constraint failed: vouchers.code'')
   \<and> staff (snd (createStaffWiFiVoucher 1 world_collision)) = [staff1]"
proof -
  let ?w1 = "world_collision\<lparr>db_calls := Suc (db_calls world_collision)\<rparr>"
  have "fst (createVoucher (staff_wifi_data staff1 1) ?w1) =
          Inl (SqliteError ''SQLITE_CONSTRAINT: UNIQUE constraint failed: vouchers.code'')"
    by (rule createVoucher_collision_error)
       (simp_all add: world_collision_def world0_def staff1_def
          staff_wifi_data_def next_code_def upper_st
          sample_voucher_def encoders_work_def valid_time_def validity_ms_def)
  then have "createVoucher (staff_wifi_data staff1 1) ?w1 =
          (Inl (SqliteError ''SQLITE_CONSTRAINT: UNIQUE constraint failed: vouchers.code''),
           snd (createVoucher (staff_wifi_data staff1 1) ?w1))"
    by (cases "createVoucher (staff_wifi_data staff1 1) ?w1") simp
  from failed_issue_keeps_allowance [OF world_collision_facts(1-3) this]
  show ?thesis
    by (simp add: world_collision_def world0_def)
qed

section \<open>Recording a visit\<close>

text \<open>
  Claim C4. \<open>recordVisit\<close> is \<open>updateUserLoyalty\<close> with the action \<open>visit\<close>. On a
  working store and for an existing customer it writes the old count plus one and the tier
  of the new count to the customer's row, whether or not the reward voucher of a tier
  change can be created afterwards. When it returns, it returns the new count, the new
  tier and whether the new tier differs from the stored one; it returns when the tier is
  unchanged, and also when the tier changes and the reward voucher can be created. The
  tier of a count is Platinum from 30, Gold from 15, Silver from 5 and Bronze below, which
  is the lookup of the specification's table from the highest threshold down. After any
  non-empty sequence of visits, at any instants, the count is the old count plus the number
  of visits and the tier is the tier of that count.
\<close>

theorem record_visit:
  assumes ok: "db_fault w = (\<lambda>n. None)"
    and found: "find (\<lambda>u. u_id u = uid) (users w) = Some usr"
  shows "find (\<lambda>u. u_id u = uid) (users (snd (updateUserLoyalty uid ''visit'' w)))
           = Some (usr\<lparr>u_visit_count := u_visit_count usr + 1,
                       u_loyalty_tier := newTier (u_visit_count usr + 1),
                       u_updated_at := sqlite_datetime (clock w)\<rparr>)
       \<and> (\<forall>r. fst (updateUserLoyalty uid ''visit'' w) = Inr r \<longrightarrow>
             r = Some (u_visit_count usr + 1, newTier (u_visit_count usr + 1),
                       newTier (u_visit_count usr + 1) \<noteq> u_loyalty_tier usr))
       \<and> (newTier (u_visit_count usr + 1) = u_loyalty_tier usr \<longrightarrow>
             fst (updateUserLoyalty uid ''visit'' w) =
               Inr (Some (u_visit_count usr + 1, newTier (u_visit_count usr + 1), False)))
       \<and> (encoders_work w \<and> valid_time (clock w + 604800000)
            \<and> next_code ''loyalty_reward'' w \<notin> set (map v_code (vouchers w)) \<longrightarrow>
             fst (updateUserLoyalty uid ''visit'' w) =
               Inr (Some (u_visit_count usr + 1, newTier (u_visit_count usr + 1),
                          newTier (u_visit_count usr + 1) \<noteq> u_loyalty_tier usr)))
       \<and> tier_lookup n = Some (newTier n)
       \<and> (newTier n = ''Platinum'') = (30 \<le> n)
       \<and> (newTier n = ''Gold'') = (15 \<le> n \<and> n < 30)
       \<and> (newTier n = ''Silver'') = (5 \<le> n \<and> n < 15)
       \<and> (newTier n = ''Bronze'') = (n < 5)
       \<and> (ts \<noteq> [] \<longrightarrow>
             (\<exists>usr'. find (\<lambda>u. u_id u = uid) (users (record_visits uid ts w)) = Some usr'
                  \<and> u_visit_count usr' = u_visit_count usr + length ts
                  \<and> u_loyalty_tier usr' = newTier (u_visit_count usr + length ts)
                  \<and> tier_lookup (u_visit_count usr') = Some (u_loyalty_tier usr')))"
proof -
  have row: "find (\<lambda>u. u_id u = uid) (users (snd (updateUserLoyalty uid ''visit'' w)))
           = Some (usr\<lparr>u_visit_count := u_visit_count usr + 1,
                       u_loyalty_tier := newTier (u_visit_count usr + 1),
                       u_updated_at := sqlite_datetime (clock w)\<rparr>)"
    using updateUserLoyalty_visit_users [OF ok found] find_map_set_loyalty [OF found]
    by simp
  have result: "\<forall>r. fst (updateUserLoyalty uid ''visit'' w) = Inr r \<longrightarrow>
             r = Some (u_visit_count usr + 1, newTier (u_visit_count usr + 1),
                       newTier (u_visit_count usr + 1) \<noteq> u_loyalty_tier usr)"
    using updateUserLoyalty_visit_result [OF ok found] by blast
  have same: "newTier (u_visit_count usr + 1) = u_loyalty_tier usr \<longrightarrow>
             fst (updateUserLoyalty uid ''visit'' w) =
               Inr (Some (u_visit_count usr + 1, newTier (u_visit_count usr + 1), False))"
    using updateUserLoyalty_visit_same_tier [OF ok found] by blast
  have returns: "encoders_work w \<and> valid_time (clock w + 604800000)
            \<and> next_code ''loyalty_reward'' w \<notin> set (map v_code (vouchers w)) \<longrightarrow>
             fst (updateUserLoyalty uid ''visit'' w) =
               Inr (Some (u_visit_count usr + 1, newTier (u_visit_count usr + 1),
                          newTier (u_visit_count usr + 1) \<noteq> u_loyalty_tier usr))"
    using updateUserLoyalty_visit_returns [OF ok found] by blast
  have visits: "ts \<noteq> [] \<longrightarrow>
             (\<exists>usr'. find (\<lambda>u. u_id u = uid) (users (record_visits uid ts w)) = Some usr'
                  \<and> u_visit_count usr' = u_visit_count usr + length ts
                  \<and> u_loyalty_tier usr' = newTier (u_visit_count usr + length ts)
                  \<and> tier_lookup (u_visit_count usr') = Some (u_loyalty_tier usr'))"
    using record_visits_count [OF ok found, of ts] by (auto simp: tier_lookup_newTier)
  show ?thesis
    by (intro conjI row result same returns visits tier_lookup_newTier newTier_thresholds)
qed

theorem record_visit_witness:
  "find (\<lambda>u. u_id u = 7) (users (snd (updateUserLoyalty 7 ''visit'' world_loyalty)))
     = Some (customer4\<lparr>u_visit_count := 5, u_loyalty_tier := ''Silver'',
                        u_updated_at := ''1970-01-02 00:30:00''\<rparr>)
   \<and> fst (updateUserLoyalty 7 ''visit'' world_loyalty) = Inr (Some (5, ''Silver'', True))
   \<and> (\<exists>usr'. find (\<lambda>u. u_id u = 7)
                 (users (record_visits 7 [88200000, 88260000] world_loyalty)) = Some usr'
          \<and> u_visit_count usr' = 6 \<and> u_loyalty_tier usr' = ''Silver'')"
proof -
  have ok: "db_fault world_loyalty = (\<lambda>n. None)"
    and found: "find (\<lambda>u. u_id u = 7) (users world_loyalty) = Some customer4"
    and enc: "encoders_work world_loyalty"
    and time: "valid_time (clock world_loyalty + 604800000)"
    and fresh: "next_code ''loyalty_reward'' world_loyalty
                  \<notin> set (map v_code (vouchers world_loyalty))"
    and now: "sqlite_datetime (clock world_loyalty) = ''1970-01-02 00:30:00''"
    by (simp_all add: world_loyalty_def world0_def customer4_def reward_voucher_def
          encoders_work_def valid_time_def next_code_def upper_lo sqlite_0030)
  have tiers: "u_visit_count customer4 = 4" "u_loyalty_tier customer4 = ''Bronze''"
      "newTier 5 = ''Silver''" "newTier 6 = ''Silver''"
    by (simp_all add: customer4_def newTier_def)
  note visit = record_visit [OF ok found, where ts = "[88200000, 88260000]" and n = 6]
  have 1: "find (\<lambda>u. u_id u = 7) (users (snd (updateUserLoyalty 7 ''visit'' world_loyalty)))
     = Some (customer4\<lparr>u_visit_count := 5, u_loyalty_tier := ''Silver'',
                        u_updated_at := ''1970-01-02 00:30:00''\<rparr>)"
    using visit [THEN conjunct1] by (simp add: tiers now)
  have 2: "fst (updateUserLoyalty 7 ''visit'' world_loyalty) = Inr (Some (5, ''Silver'', True))"
    using visit [THEN conjunct2, THEN conjunct2, THEN conjunct2, THEN conjunct1] enc time fresh
    by (simp add: tiers)
  have 3: "\<exists>usr'. find (\<lambda>u. u_id u = 7)
                 (users (record_visits 7 [88200000, 88260000] world_loyalty)) = Some usr'
          \<and> u_visit_count usr' = 6 \<and> u_loyalty_tier usr' = ''Silver''"
    using visit [THEN conjunct2, THEN conjunct2, THEN conjunct2, THEN conjunct2,
                 THEN conjunct2, THEN conjunct2, THEN conjunct2, THEN conjunct2,
                 THEN conjunct2]
    by (simp add: tiers) blast
  show ?thesis using 1 2 3 by (intro conjI)
qed

section \<open>Two redemptions of one code\<close>

text \<open>
  Claim C2, as the code has it. The status transition of \<open>redeemVoucher\<close> is a lookup,
  checks in the application on the row that the lookup returned, and then \<open>UPDATE
  vouchers ... WHERE id = ?\<close>, which does not look at the status. \<open>redeemVoucher\<close> is
  the composition of these pieces. For an active, unexpired voucher and a working store:
  when the second call starts after the first one has returned, the first call returns the
  redeemed voucher and the second one fails with \<open>AlreadyRedeemed\<close>; when the store
  answers both lookups before either update, both calls return the redeemed voucher, each
  with its own staff member as the redeemer.
\<close>

theorem two_redemptions:
  assumes ok: "db_fault w = (\<lambda>n. None)"
    and found: "find (\<lambda>v. v_code v = c) (vouchers w) = Some v"
    and active: "v_status v = ''active''"
    and fresh: "\<not> v_expires_at v < clock w"
  shows "fst (redeem_twice c a b w) =
           (Inr (v\<lparr>v_status := ''redeemed'', v_redeemed_at := Some (toISOString (clock w)),
                   v_redeemed_by := Some a\<rparr>, joined_user v w),
            Inl AlreadyRedeemed)
       \<and> fst (redeem_interleaved c a b w) =
           (Inr (v\<lparr>v_status := ''redeemed'', v_redeemed_at := Some (toISOString (clock w)),
                   v_redeemed_by := Some a\<rparr>, joined_user v w),
            Inr (v\<lparr>v_status := ''redeemed'', v_redeemed_at := Some (toISOString (clock w)),
                   v_redeemed_by := Some b\<rparr>, joined_user v w))
       \<and> redeemVoucher c a w =
           (case select_voucher_by_code c w of (l, w1) \<Rightarrow>
            case (case l of Inl e \<Rightarrow> (Inl e, w1) | Inr row \<Rightarrow> redeem_until_update row a w1) of
              (u, w2) \<Rightarrow> redeem_finish u a w2)"
  using redeem_twice_second_rejected [OF ok found active fresh]
    redeem_interleaved_both_commit [OF ok found active fresh]
    redeemVoucher_pieces [of c a w]
  by (intro conjI)

theorem two_redemptions_witness:
  "snd (fst (redeem_twice ''PR000000000004'' 3 5 world_vouchers)) = Inl AlreadyRedeemed
   \<and> committed (fst (fst (redeem_twice ''PR000000000004'' 3 5 world_vouchers)))"
  using two_redemptions [OF world_vouchers_valid, of 3 5]
  by (simp add: committed_def)

text \<open>Two staff members scan the valid voucher of the sample world at the same moment,
  and both redemptions are committed.\<close>

theorem interleaved_redemptions_both_commit:
  "committed (fst (fst (redeem_interleaved ''PR000000000004'' 3 5 world_vouchers)))
   \<and> committed (snd (fst (redeem_interleaved ''PR000000000004'' 3 5 world_vouchers)))"
  using redeem_interleaved_both_commit [OF world_vouchers_valid, of 3 5]
  by (simp add: committed_def)

section \<open>A voucher is redeemed at most once\<close>

text \<open>
  Claim C1. Once a call of \<open>redeemVoucher\<close> with a code has returned the voucher, no
  later call with that code returns one, whoever scans it and whatever requests were served
  in between: redemptions, staff vouchers, manager overrides, status changes, new vouchers,
  loyalty updates, audit entries, the passing of time. Whenever the store answers the
  lookup of the later call, the call fails with \<open>AlreadyRedeemed\<close> and the route answers
  409; when the store fails the lookup, the call fails with the error of the store.
\<close>

theorem redeemed_once:
  assumes "redeemVoucher c s w = (Inr r, w1)"
  shows "(\<forall>x. fst (redeemVoucher c s' (run rs w1)) \<noteq> Inr x) \<and>
         (db_fault (run rs w1) (db_calls (run rs w1)) = None \<longrightarrow>
            fst (redeemVoucher c s' (run rs w1)) = Inl AlreadyRedeemed \<and>
            r_status (fst (post_redeem c s' (run rs w1))) = 409)"
proof -
  have "code_redeemed c w1" using assms by (rule redeemVoucher_marks)
  then have later: "code_redeemed c (run rs w1)" by (rule run_code_redeemed)
  show ?thesis
    using redeemVoucher_of_redeemed [OF later] post_redeem_already by simp
qed

text \<open>The valid voucher of the sample world is redeemed; time passes, a second scan is
  refused, a manager tries to set the voucher back to active; the third scan is refused.\<close>

theorem redeemed_once_witness:
  "redeemVoucher ''PR000000000004'' 7 world_vouchers
     = (Inr (sample_voucher 4 ''PR000000000004'' ''active'' 99000000
               \<lparr>v_status := ''redeemed'',
                  v_redeemed_at := Some (toISOString (clock world_vouchers)),
                  v_redeemed_by := Some 7\<rparr>,
             joined_user (sample_voucher 4 ''PR000000000004'' ''active'' 99000000) world_vouchers),
        snd (redeemVoucher ''PR000000000004'' 7 world_vouchers))
   \<and> db_fault (run [Tick 88300000, Redeem ''PR000000000004'' 8, ChangeStatus 4 ''active'' None 1]
                 (snd (redeemVoucher ''PR000000000004'' 7 world_vouchers)))
        (db_calls (run [Tick 88300000, Redeem ''PR000000000004'' 8, ChangeStatus 4 ''active'' None 1]
                 (snd (redeemVoucher ''PR000000000004'' 7 world_vouchers)))) = None
   \<and> fst (redeemVoucher ''PR000000000004'' 9
            (run [Tick 88300000, Redeem ''PR000000000004'' 8, ChangeStatus 4 ''active'' None 1]
                 (snd (redeemVoucher ''PR000000000004'' 7 world_vouchers))))
        = Inl AlreadyRedeemed"
proof -
  let ?w1 = "snd (redeemVoucher ''PR000000000004'' 7 world_vouchers)"
  let ?rs = "[Tick 88300000, Redeem ''PR000000000004'' 8, ChangeStatus 4 ''active'' None 1]"
  have first: "redeemVoucher ''PR000000000004'' 7 world_vouchers
     = (Inr (sample_voucher 4 ''PR000000000004'' ''active'' 99000000
               \<lparr>v_status := ''redeemed'',
                  v_redeemed_at := Some (toISOString (clock world_vouchers)),
                  v_redeemed_by := Some 7\<rparr>,
             joined_user (sample_voucher 4 ''PR000000000004'' ''active'' 99000000) world_vouchers),
        ?w1)"
    using redeemVoucher_commits(1) [OF world_vouchers_valid, of 7]
    by (cases "redeemVoucher ''PR000000000004'' 7 world_vouchers") simp
  have answered: "db_fault (run ?rs ?w1) (db_calls (run ?rs ?w1)) = None"
    by (simp add: world_vouchers_valid(1))
  show ?thesis
    using redeemed_once [OF first, of 9 ?rs] first answered by blast
qed

section \<open>One staff voucher a day\<close>

text \<open>
  Claim C3, as the code has it. Once \<open>createStaffWiFiVoucher\<close> has issued a voucher to a
  staff member, no call for that staff member that starts later on the same UTC date
  issues another, whatever requests other than a manager's override were served in
  between; whenever the store answers the lookup of the later call, the call fails with
  \<open>DailyLimitReached\<close> and the route answers 409. The manager's override does not hand the
  allowance back: on a working store with working encoders and a code that is not taken,
  \<open>POST /staff-wifi/override\<close> resets the flag and issues the voucher itself, in the same
  request. It answers 201 with a new active \<open>staff_wifi\<close> voucher, the voucher table
  has this one row more, the audit log ends with the \<open>staff_wifi_override\<close> row that
  names the manager and the reason, and the flag of the staff member is set again with
  today's date, so that every call of \<open>createStaffWiFiVoucher\<close> for that staff member
  after the override, on the same date, fails with \<open>DailyLimitReached\<close>. The limit is
  tested on the row that the lookup returned: \<open>createStaffWiFiVoucher\<close> is the
  composition of the lookup, the test and the rest, and when the store answers the lookups
  of two requests of one staff member before either has updated the staff row, both are
  issued a voucher.
\<close>

theorem staff_voucher_daily_limit:
  assumes first: "createStaffWiFiVoucher sid w = (Inr v, w1)"
    and same_day: "list_all (within_day (iso_date (clock w))) rs"
  shows "(\<forall>x. fst (createStaffWiFiVoucher sid (run rs w1)) \<noteq> Inr x)
       \<and> (db_fault (run rs w1) (db_calls (run rs w1)) = None \<longrightarrow>
            fst (createStaffWiFiVoucher sid (run rs w1)) = Inl DailyLimitReached
            \<and> r_status (fst (post_staff_wifi sid (run rs w1))) = 409)
       \<and> (db_fault w = (\<lambda>n. None) \<and> encoders_work w
            \<and> valid_time (clock (run rs w1) + 86400000)
            \<and> next_code ''staff_wifi'' (run rs w1) \<notin> set (map v_code (vouchers (run rs w1)))
            \<and> find (\<lambda>s. s_email s = email) (staff (run rs w1)) = Some target
            \<and> s_id target = sid
          \<longrightarrow>
            (\<exists>v' i. fst (post_staff_wifi_override email reason mgr (run rs w1)) =
                       \<lparr>r_status = 201, r_text = ''Staff WiFi voucher override successful'',
                         r_voucher = Some v'\<rparr>
                  \<and> v_code v' = next_code ''staff_wifi'' (run rs w1)
                  \<and> v_type v' = ''staff_wifi'' \<and> v_status v' = ''active''
                  \<and> vouchers (snd (post_staff_wifi_override email reason mgr (run rs w1)))
                      = vouchers (run rs w1) @ [v']
                  \<and> staff (snd (post_staff_wifi_override email reason mgr (run rs w1)))
                      = map (set_voucher_used (iso_date (clock w)) sid)
                          (map (reset_flag sid) (staff (run rs w1)))
                  \<and> last (audit_log (snd (post_staff_wifi_override email reason mgr (run rs w1))))
                      = audit_row_of (staff_wifi_override_event mgr target email v' reason) i
                          (sqlite_datetime (clock (run rs w1))))
            \<and> (\<forall>rs'. list_all (within_day (iso_date (clock w))) rs' \<longrightarrow>
                  fst (createStaffWiFiVoucher sid
                         (run rs' (snd (post_staff_wifi_override email reason mgr (run rs w1)))))
                    = Inl DailyLimitReached))
       \<and> (db_fault w = (\<lambda>n. None) \<and> encoders_work w \<and> valid_time (clock w + 86400000)
            \<and> ''ST'' @ entropy w (Suc (draws w)) \<notin> set (map v_code (vouchers w))
            \<and> entropy w (Suc (draws w)) \<noteq> entropy w (draws w)
          \<longrightarrow>
            (\<exists>va vb. fst (issue_interleaved sid w) = (Inr va, Inr vb)
                  \<and> v_code va = ''ST'' @ entropy w (draws w)
                  \<and> v_code vb = ''ST'' @ entropy w (Suc (draws w))
                  \<and> vouchers (snd (issue_interleaved sid w)) = vouchers w @ [va, vb]))
       \<and> createStaffWiFiVoucher sid w =
           (case select_staff sid w of (l, w') \<Rightarrow>
            case (case l of Inl e \<Rightarrow> (Inl e, w') | Inr st \<Rightarrow> issue_check st w') of
              (c, w'') \<Rightarrow> issue_finish c sid w'')"
proof -
  let ?w2 = "run rs w1"
  have marked: "used_today sid w1 \<and> iso_date (clock w1) = iso_date (clock w)"
    using createStaffWiFiVoucher_marks [OF first] by simp
  then have used: "used_today sid ?w2" and day: "iso_date (clock ?w2) = iso_date (clock w)"
    using run_used_today [OF same_day] by blast+
  have never: "\<forall>x. fst (createStaffWiFiVoucher sid ?w2) \<noteq> Inr x"
    using createStaffWiFiVoucher_of_used(1) [OF used] by blast
  have limit: "db_fault ?w2 (db_calls ?w2) = None \<longrightarrow>
            fst (createStaffWiFiVoucher sid ?w2) = Inl DailyLimitReached
            \<and> r_status (fst (post_staff_wifi sid ?w2)) = 409"
    using createStaffWiFiVoucher_of_used(2) [OF used] post_staff_wifi_limit by blast
  have override: "(\<exists>v' i. fst (post_staff_wifi_override email reason mgr ?w2) =
                       \<lparr>r_status = 201, r_text = ''Staff WiFi voucher override successful'',
                         r_voucher = Some v'\<rparr>
                  \<and> v_code v' = next_code ''staff_wifi'' ?w2
                  \<and> v_type v' = ''staff_wifi'' \<and> v_status v' = ''active''
                  \<and> vouchers (snd (post_staff_wifi_override email reason mgr ?w2))
                      = vouchers ?w2 @ [v']
                  \<and> staff (snd (post_staff_wifi_override email reason mgr ?w2))
                      = map (set_voucher_used (iso_date (clock w)) sid)
                          (map (reset_flag sid) (staff ?w2))
                  \<and> last (audit_log (snd (post_staff_wifi_override email reason mgr ?w2)))
                      = audit_row_of (staff_wifi_override_event mgr target email v' reason) i
                          (sqlite_datetime (clock ?w2)))
            \<and> (\<forall>rs'. list_all (within_day (iso_date (clock w))) rs' \<longrightarrow>
                  fst (createStaffWiFiVoucher sid
                         (run rs' (snd (post_staff_wifi_override email reason mgr ?w2))))
                    = Inl DailyLimitReached)"
    if ok: "db_fault w = (\<lambda>n. None)" and enc: "encoders_work w"
      and time: "valid_time (clock ?w2 + 86400000)"
      and fresh: "next_code ''staff_wifi'' ?w2 \<notin> set (map v_code (vouchers ?w2))"
      and target: "find (\<lambda>s. s_email s = email) (staff ?w2) = Some target"
      and sid: "s_id target = sid"
  proof -
    let ?w3 = "snd (post_staff_wifi_override email reason mgr ?w2)"
    have ok2: "db_fault ?w2 = (\<lambda>n. None)"
      using ok createStaffWiFiVoucher_db_fault [of sid w] by (simp add: first)
    have enc2: "encoders_work ?w2"
      using enc createStaffWiFiVoucher_encoders [of sid w] by (simp add: first)
    from post_staff_wifi_override_runs [OF ok2 enc2 time target fresh, of reason mgr]
    obtain v' i where route: "fst (post_staff_wifi_override email reason mgr ?w2) =
              \<lparr>r_status = 201, r_text = ''Staff WiFi voucher override successful'',
                r_voucher = Some v'\<rparr>"
        "v_code v' = next_code ''staff_wifi'' ?w2"
        "v_type v' = ''staff_wifi''" "v_status v' = ''active''"
        "vouchers ?w3 = vouchers ?w2 @ [v']"
        "staff ?w3 = map (set_voucher_used (iso_date (clock ?w2)) sid)
                       (map (reset_flag sid) (staff ?w2))"
        "last (audit_log ?w3)
           = audit_row_of (staff_wifi_override_event mgr target email v' reason) i
               (sqlite_datetime (clock ?w2))"
      and after: "clock ?w3 = clock ?w2" "db_fault ?w3 = db_fault ?w2" "used_today sid ?w3"
      unfolding sid by blast
    have later: "fst (createStaffWiFiVoucher sid (run rs' ?w3)) = Inl DailyLimitReached"
      if "list_all (within_day (iso_date (clock w))) rs'" for rs'
    proof (rule createStaffWiFiVoucher_refused_later [OF after(3)])
      show "db_fault ?w3 = (\<lambda>n. None)"
        unfolding after(2) by (rule ok2)
      show "list_all (within_day (iso_date (clock ?w3))) rs'"
        unfolding after(1) day by (rule that)
    qed
    show ?thesis
      using route later unfolding day by blast
  qed
  have overlap: "\<exists>va vb. fst (issue_interleaved sid w) = (Inr va, Inr vb)
                  \<and> v_code va = ''ST'' @ entropy w (draws w)
                  \<and> v_code vb = ''ST'' @ entropy w (Suc (draws w))
                  \<and> vouchers (snd (issue_interleaved sid w)) = vouchers w @ [va, vb]"
    if ok: "db_fault w = (\<lambda>n. None)" and enc: "encoders_work w"
      and time: "valid_time (clock w + 86400000)"
      and fresh2: "''ST'' @ entropy w (Suc (draws w)) \<notin> set (map v_code (vouchers w))"
      and differ: "entropy w (Suc (draws w)) \<noteq> entropy w (draws w)"
  proof -
    obtain member where found: "find (\<lambda>s. s_id s = sid) (staff w) = Some member"
      and allowed: "\<not> (s_last_voucher_date member = Some (iso_date (clock w))
                       \<and> s_daily_voucher_used member)"
      using createStaffWiFiVoucher_allowedD [OF first] by blast
    have fresh1: "''ST'' @ entropy w (draws w) \<notin> set (map v_code (vouchers w))"
      using createStaffWiFiVoucher_freshD [OF first ok] by (simp add: next_code_staff_wifi)
    show ?thesis
      by (rule issue_interleaved_both [OF ok enc time found allowed fresh1 fresh2 differ])
  qed
  show ?thesis
    using never limit override overlap createStaffWiFiVoucher_pieces [of sid w]
    by (intro conjI impI) blast+
qed

text \<open>Sam is issued the day's voucher at 00:30 UTC; half an hour later a second request
  is refused, and so is a third; the manager's override answers 201; a request after it is
  refused. Had Sam's first two requests arrived together, both would have been served.\<close>

theorem staff_voucher_daily_limit_witness:
  "(\<exists>v. createStaffWiFiVoucher 1 world_staff
          = (Inr v, snd (createStaffWiFiVoucher 1 world_staff)))
   \<and> list_all (within_day (iso_date (clock world_staff))) [Tick 90000000, IssueStaffVoucher 1]
   \<and> fst (createStaffWiFiVoucher 1
            (run [Tick 90000000, IssueStaffVoucher 1] (snd (createStaffWiFiVoucher 1 world_staff))))
        = Inl DailyLimitReached
   \<and> r_status (fst (post_staff_wifi 1
            (run [Tick 90000000, IssueStaffVoucher 1] (snd (createStaffWiFiVoucher 1 world_staff)))))
        = 409
   \<and> r_status (fst (post_staff_wifi_override ''sam@example.org'' ''lost the first code'' 2
            (run [Tick 90000000, IssueStaffVoucher 1] (snd (createStaffWiFiVoucher 1 world_staff)))))
        = 201
   \<and> fst (createStaffWiFiVoucher 1
            (run [Tick 91000000]
               (snd (post_staff_wifi_override ''sam@example.org'' ''lost the first code'' 2
                  (run [Tick 90000000, IssueStaffVoucher 1]
                     (snd (createStaffWiFiVoucher 1 world_staff)))))))
        = Inl DailyLimitReached
   \<and> committed (fst (fst (issue_interleaved 1 world_staff)))
   \<and> committed (snd (fst (issue_interleaved 1 world_staff)))"
proof -
  let ?w1 = "snd (createStaffWiFiVoucher 1 world_staff)"
  let ?rs = "[Tick 90000000, IssueStaffVoucher 1]"
  let ?used = "staff1\<lparr>s_daily_voucher_used := True, s_last_voucher_date := Some ''1970-01-02''\<rparr>"
  obtain v where first: "createStaffWiFiVoucher 1 world_staff = (Inr v, ?w1)"
    and vouchers1: "vouchers ?w1 = [v]" and code: "v_code v = ''STA1B2C3D4E5F6''"
    using world_staff_issued(1) by blast
  have same_day: "list_all (within_day (iso_date (clock world_staff))) ?rs"
    by (simp add: world_staff_def world0_def iso_date_0030 iso_date_0100)
  have later: "list_all (within_day (iso_date (clock world_staff))) [Tick 91000000]"
    by (simp add: world_staff_def world0_def iso_date_0030 iso_date_0116)
  define wt where "wt = ?w1\<lparr>clock := 90000000\<rparr>"
  have wt: "db_fault wt = (\<lambda>n. None)" "staff wt = [?used]" "clock wt = 90000000"
      "vouchers wt = [v]" "draws wt = 1" "entropy wt = entropy world0"
    using world_staff_issued(2-6) vouchers1 by (simp_all add: wt_def)
  let ?w2 = "snd (createStaffWiFiVoucher 1 wt)"
  have run: "run ?rs ?w1 = ?w2"
    by (simp add: run_def wt_def)
  have limit: "db_fault wt (db_calls wt) = None"
      "find (\<lambda>s. s_id s = 1) (staff wt) = Some ?used"
      "s_last_voucher_date ?used = Some (iso_date (clock wt))"
      "s_daily_voucher_used ?used"
    by (simp_all add: wt iso_date_0100 staff1_def)
  have w2: "vouchers ?w2 = [v]" "draws ?w2 = 1" "staff ?w2 = [?used]"
      "clock ?w2 = 90000000" "entropy ?w2 = entropy world0"
    using createStaffWiFiVoucher_limit_world [OF limit] by (simp_all add: wt)
  have answered: "db_fault (run ?rs ?w1) (db_calls (run ?rs ?w1)) = None"
    by (simp add: world_staff_facts(1))
  have time: "valid_time (clock (run ?rs ?w1) + 86400000)"
    unfolding run w2 by (simp add: valid_time_def)
  have fresh: "next_code ''staff_wifi'' (run ?rs ?w1)
                 \<notin> set (map v_code (vouchers (run ?rs ?w1)))"
    unfolding run next_code_staff_wifi w2
    by (simp add: code world0_def)
  have target: "find (\<lambda>s. s_email s = ''sam@example.org'') (staff (run ?rs ?w1)) = Some ?used"
    unfolding run w2 by (simp add: staff1_def)
  have sid: "s_id ?used = 1" by (simp add: staff1_def)
  have overlap: "valid_time (clock world_staff + 86400000)"
      "''ST'' @ entropy world_staff (Suc (draws world_staff))
         \<notin> set (map v_code (vouchers world_staff))"
      "entropy world_staff (Suc (draws world_staff)) \<noteq> entropy world_staff (draws world_staff)"
    by (simp_all add: world_staff_def world0_def valid_time_def)
  from staff_voucher_daily_limit [OF first same_day, of "''sam@example.org''" ?used
      "''lost the first code''" 2]
  have limit_holds: "fst (createStaffWiFiVoucher 1 (run ?rs ?w1)) = Inl DailyLimitReached"
      "r_status (fst (post_staff_wifi 1 (run ?rs ?w1))) = 409"
    and route: "r_status (fst (post_staff_wifi_override ''sam@example.org''
                                 ''lost the first code'' 2 (run ?rs ?w1))) = 201"
    and again: "fst (createStaffWiFiVoucher 1
            (run [Tick 91000000]
               (snd (post_staff_wifi_override ''sam@example.org'' ''lost the first code'' 2
                  (run ?rs ?w1))))) = Inl DailyLimitReached"
    and both: "\<exists>va vb. fst (issue_interleaved 1 world_staff) = (Inr va, Inr vb)"
    using answered time fresh target sid later overlap world_staff_facts(1,2)
    by (blast | force)+
  have "committed (fst (fst (issue_interleaved 1 world_staff)))"
    "committed (snd (fst (issue_interleaved 1 world_staff)))"
    using both by (auto simp: committed_def)
  then show ?thesis
    using first same_day limit_holds route again by blast
qed

text \<open>Sam is issued the day's voucher and the manager overrides the limit: the override
  answers 201, and Sam's next request is refused.\<close>

theorem override_then_issue_refused:
  "committed (fst (createStaffWiFiVoucher 1 world_staff))
   \<and> r_status (fst (post_staff_wifi_override ''sam@example.org'' ''lost the first code'' 2
                      (snd (createStaffWiFiVoucher 1 world_staff)))) = 201
   \<and> fst (createStaffWiFiVoucher 1
            (snd (post_staff_wifi_override ''sam@example.org'' ''lost the first code'' 2
                   (snd (createStaffWiFiVoucher 1 world_staff)))))
        = Inl DailyLimitReached"
proof -
  let ?w1 = "snd (createStaffWiFiVoucher 1 world_staff)"
  let ?used = "staff1\<lparr>s_daily_voucher_used := True, s_last_voucher_date := Some ''1970-01-02''\<rparr>"
  let ?w3 = "snd (post_staff_wifi_override ''sam@example.org'' ''lost the first code'' 2 ?w1)"
  obtain v where "createStaffWiFiVoucher 1 world_staff = (Inr v, ?w1)"
    using world_staff_issued(1) by blast
  then have "fst (createStaffWiFiVoucher 1 world_staff) = Inr v"
    by (metis fst_conv)
  then have first: "committed (fst (createStaffWiFiVoucher 1 world_staff))"
    by (simp add: committed_def)
  from post_staff_wifi_override_runs [OF world_staff_issued(5,7) world_staff_issued_override,
      of "''lost the first code''" 2]
  have route: "r_status (fst (post_staff_wifi_override ''sam@example.org''
                                ''lost the first code'' 2 ?w1)) = 201"
    and env: "db_fault ?w3 = db_fault ?w1"
    and used: "used_today (s_id ?used) ?w3"
    by auto
  have sid: "s_id ?used = 1" by (simp add: staff1_def)
  have "db_fault ?w3 (db_calls ?w3) = None"
    unfolding env world_staff_issued(5) by simp
  from createStaffWiFiVoucher_of_used(2) [OF used [unfolded sid] this]
  show ?thesis using first route by blast
qed

end
